(* ===== verification/Prelude.thy ===== *)
theory Prelude
  imports Complex_Main "HOL-Library.Multiset" "HOL-Library.Sublist"
begin

text \<open>
  Shared vocabulary of the SafeWork AI development: the types that stand for the
  JavaScript values the dashboard handles, the few ECMAScript built-ins the
  components call (the \<open>||\<close> default operator, \<open>String.prototype.toLowerCase\<close>,
  \<open>split\<close> and \<open>join\<close> with a one-character separator), and the lemmas about them
  that the component theories use through the \<open>js_simps\<close> collection.
  JavaScript numbers are modelled as rationals: the values this program reads
  (risk scores, time differences) are finite decimals, and neither NaN nor
  infinity can arrive through JSON.
\<close>

named_theorems js_simps "evaluation rules of the modelled ECMAScript built-ins"
named_theorems page_simps "one-step behaviour of the page's state updates"

type_synonym js_number = rat

text \<open>Milliseconds since the epoch, as \<open>Date.now()\<close> reads the client clock.\<close>
type_synonym time_value = nat

subsection \<open>The \<open>||\<close> operator\<close>

text \<open>
  \<open>x || d\<close> is \<open>d\<close> when \<open>x\<close> is falsy. For a number read from JSON that may be
  absent (\<open>undefined\<close>) or \<open>null\<close>, the falsy values are the missing value and 0;
  for a string, the empty string.
\<close>

definition js_or_number :: "js_number option \<Rightarrow> js_number \<Rightarrow> js_number" where
  "js_or_number x d = (case x of None \<Rightarrow> d | Some v \<Rightarrow> (if v = 0 then d else v))"

definition js_or_string :: "string \<Rightarrow> string \<Rightarrow> string" where
  "js_or_string s d = (if s = [] then d else s)"

subsection \<open>\<open>toLowerCase\<close>\<close>

text \<open>
  Characters are bytes here; \<open>toLowerCase\<close> maps the ASCII capitals to small
  letters and leaves every other byte alone (non-ASCII case mapping is not
  modelled).
\<close>

definition js_lower_char :: "char \<Rightarrow> char" where
  "js_lower_char c =
     (let n = (of_char c :: nat) in if 65 \<le> n \<and> n \<le> 90 then char_of (n + 32) else c)"

definition js_toLowerCase :: "string \<Rightarrow> string" where
  "js_toLowerCase s = map js_lower_char s"

subsection \<open>\<open>split\<close> and \<open>join\<close> with a one-character separator\<close>

text \<open>
  \<open>s.split(c)\<close> cuts \<open>s\<close> at every occurrence of \<open>c\<close>; the result is never
  empty (\<open>''.split(c)\<close> is \<open>['']\<close>). \<open>ls.join(c)\<close> puts \<open>c\<close> between the parts.
\<close>

fun js_split :: "char \<Rightarrow> string \<Rightarrow> string list" where
  "js_split c [] = [[]]"
| "js_split c (x # xs) =
     (let r = js_split c xs in if x = c then [] # r else (x # hd r) # tl r)"

fun js_join :: "char \<Rightarrow> string list \<Rightarrow> string" where
  "js_join c [] = []"
| "js_join c [l] = l"
| "js_join c (l # ls) = l @ c # js_join c ls"

subsection \<open>Lemmas on the built-ins\<close>

lemma suffix_Cons_self [simp, intro]: "suffix xs (x # xs)"
  by (simp add: suffix_ConsI)

lemma js_or_number_simps [simp, js_simps]:
  "js_or_number None d = d"
  "js_or_number (Some 0) d = d"
  "v \<noteq> 0 \<Longrightarrow> js_or_number (Some v) d = v"
  by (simp_all add: js_or_number_def)

lemma js_or_string_nonempty [simp, js_simps]:
  "d \<noteq> [] \<Longrightarrow> js_or_string s d \<noteq> []"
  by (simp add: js_or_string_def)

lemma js_or_string_simps [simp, js_simps]:
  "js_or_string [] d = d"
  "s \<noteq> [] \<Longrightarrow> js_or_string s d = s"
  by (simp_all add: js_or_string_def)

lemma length_js_toLowerCase [simp, js_simps]: "length (js_toLowerCase s) = length s"
  by (simp add: js_toLowerCase_def)

lemma js_toLowerCase_append [simp, js_simps]:
  "js_toLowerCase (xs @ ys) = js_toLowerCase xs @ js_toLowerCase ys"
  by (simp add: js_toLowerCase_def)

lemma js_toLowerCase_simps [simp, js_simps]:
  "js_toLowerCase [] = []"
  "js_toLowerCase (c # cs) = js_lower_char c # js_toLowerCase cs"
  by (simp_all add: js_toLowerCase_def)

lemma js_toLowerCase_take [js_simps]: "js_toLowerCase (take n s) = take n (js_toLowerCase s)"
  by (simp add: js_toLowerCase_def take_map)

lemma js_toLowerCase_drop [js_simps]: "js_toLowerCase (drop n s) = drop n (js_toLowerCase s)"
  by (simp add: js_toLowerCase_def drop_map)

lemma js_split_not_Nil [simp, js_simps]: "js_split c s \<noteq> []"
  by (induction s) (simp_all add: Let_def)

lemma js_join_Cons_hd_tl [js_simps]:
  "ls \<noteq> [] \<Longrightarrow> js_join c ((x # hd ls) # tl ls) = x # js_join c ls"
  by (cases "(c, ls)" rule: js_join.cases) auto

lemma js_join_split [simp, js_simps]: "js_join c (js_split c s) = s"
proof (induction s)
  case Nil
  show ?case by simp
next
  case (Cons x xs)
  show ?case
  proof (cases "x = c")
    case True
    then show ?thesis
      using Cons.IH by (cases "js_split c xs") (simp_all add: Let_def)
  next
    case False
    then show ?thesis
      using Cons.IH by (simp add: Let_def js_join_Cons_hd_tl)
  qed
qed

lemma js_join_map_count [js_simps]:
  "ls \<noteq> [] \<Longrightarrow>
   count_list (js_join c ls) c = sum_list (map (\<lambda>l. count_list l c) ls) + (length ls - 1)"
  by (induction ls rule: js_join.induct) auto

lemma js_split_count [js_simps]: "length (js_split c s) = Suc (count_list s c)"
  by (induction s) (simp_all add: Let_def)

text \<open>Whole numbers among the JavaScript numbers: a step of one between them.\<close>

lemma Ints_less_add1 [js_simps]:
  "(x::'a::linordered_idom) \<in> \<int> \<Longrightarrow> y \<in> \<int> \<Longrightarrow> x < y \<Longrightarrow> x + 1 \<le> y"
  by (auto elim!: Ints_cases) (metis of_int_1 of_int_add of_int_le_iff zless_imp_add1_zle)

end
