(* ===== verification/Types.thy ===== *)
theory Types
  imports Prelude
begin

text \<open>
  The data model of \<open>src/safeworkai/src/types/index.ts\<close>. TypeScript merges the two
  declarations of the \<open>AnalysisResult\<close> interface into one, so the record below has
  the union of their fields: the second declaration adds \<open>gptFeedback\<close>. Optional
  fields (\<open>pdfUrl?\<close>, \<open>gptFeedback?\<close>) are \<open>option\<close>s, \<open>None\<close> standing for
  \<open>undefined\<close>. The field \<open>id\<close> is \<open>ar_id\<close> here, since \<open>id\<close> is the identity
  function of HOL; \<open>RiskItem.id\<close> is \<open>risk_id\<close> for the same reason. The
  specification's risk buckets are ordered by severity (a \<open>linorder\<close> instance).
\<close>

datatype severity = Sev_low | Sev_medium | Sev_high

record risk_item =
  risk_id :: string
  description :: string
  severity :: severity
  category :: string

record analysis_result =
  ar_id :: string
  filename :: string
  uploadDate :: string
  riskScore :: js_number
  topRisks :: "risk_item list"
  extractedText :: string
  pdfUrl :: "string option"
  fileId :: string
  gptFeedback :: "string option"

text \<open>\<open>FileStatus\<close>: the five states of the upload indicator.\<close>

datatype file_status = Idle | Uploading | Processing | Complete | Error

text \<open>
  The risk bucket of a score as the specification states it (section 4.2): below
  30 low, from 30 below 70 medium, from 70 high. Both the table and the risk panel
  are shown below to refine it.
\<close>

definition severity_of_score :: "js_number \<Rightarrow> severity" where
  "severity_of_score score =
     (if score < 30 then Sev_low else if score < 70 then Sev_medium else Sev_high)"

text \<open>
  The \<open>File\<close> objects the upload area hands on: the browser gives a name and a size
  in bytes; the content is opaque to this program.
\<close>

record upload_file =
  file_name :: string
  file_size :: nat

text \<open>
  The buckets are ordered from the least to the most severe, so that statements
  about them can use the library's order.
\<close>

instantiation severity :: linorder
begin

definition less_severity_def:
  "a < b \<longleftrightarrow>
     (case a of Sev_low \<Rightarrow> b \<noteq> Sev_low | Sev_medium \<Rightarrow> b = Sev_high | Sev_high \<Rightarrow> False)"

definition less_eq_severity_def: "(a :: severity) \<le> b \<longleftrightarrow> a < b \<or> a = b"

instance
proof
  fix x y z :: severity
  show "x < y \<longleftrightarrow> x \<le> y \<and> \<not> y \<le> x"
    by (auto simp: less_eq_severity_def less_severity_def split: severity.split)
  show "x \<le> x" by (simp add: less_eq_severity_def)
  show "x \<le> y \<Longrightarrow> y \<le> z \<Longrightarrow> x \<le> z"
    by (auto simp: less_eq_severity_def less_severity_def split: severity.splits)
  show "x \<le> y \<Longrightarrow> y \<le> x \<Longrightarrow> x = y"
    by (auto simp: less_eq_severity_def less_severity_def split: severity.splits)
  show "x \<le> y \<or> y \<le> x"
    by (auto simp: less_eq_severity_def less_severity_def split: severity.splits)
qed

end

lemma severity_of_score_mono: "x \<le> y \<Longrightarrow> severity_of_score x \<le> severity_of_score y"
  by (simp add: severity_of_score_def less_eq_severity_def less_severity_def)

end
