(* ===== verification/Js_Date.thy ===== *)
theory Js_Date
  imports Prelude "HOL-Library.Monad_Syntax"
begin

text \<open>
  The two ECMAScript \<open>Date\<close> operations the dashboard relies on, modelled from
  ECMA-262 (21.4): \<open>Date.prototype.toISOString\<close>, which \<open>HomePage.tsx\<close> uses to
  stamp each analysis, and the parse of that format by \<open>new Date(s).getTime()\<close>,
  which \<open>AnalysisTable.tsx\<close> uses to sort by date. Times are milliseconds since the
  epoch; the clock is never before 1970, so a time value to print is a \<open>nat\<close>,
  while a parsed time value is an \<open>int\<close> (the format admits earlier years).
  The main result is the round trip \<open>js_date_parse_toISOString\<close>: parsing what
  \<open>toISOString\<close> prints gives back the time value.
\<close>

subsection \<open>The proleptic Gregorian calendar\<close>

definition msPerDay :: nat where
  "msPerDay = 86400000"

definition max_time_value :: nat where
  "max_time_value = 8640000000000000"

definition leap_year :: "int \<Rightarrow> bool" where
  "leap_year y \<longleftrightarrow> y mod 4 = 0 \<and> (y mod 100 \<noteq> 0 \<or> y mod 400 = 0)"

definition days_in_year :: "int \<Rightarrow> nat" where
  "days_in_year y = (if leap_year y then 366 else 365)"

definition days_in_month :: "int \<Rightarrow> nat \<Rightarrow> nat" where
  "days_in_month y m =
     (if m = 2 then (if leap_year y then 29 else 28)
      else if m = 4 \<or> m = 6 \<or> m = 9 \<or> m = 11 then 30 else 31)"

definition days_before_month :: "int \<Rightarrow> nat \<Rightarrow> nat" where
  "days_before_month y m = sum_list (map (days_in_month y) [1..<m])"

text \<open>\<open>DayFromYear\<close> of ECMA-262: the day number of the first day of year \<open>y\<close>.\<close>

definition day_from_year :: "int \<Rightarrow> int" where
  "day_from_year y =
     365 * (y - 1970) + (y - 1969) div 4 - (y - 1901) div 100 + (y - 1601) div 400"

text \<open>
  \<open>YearFromTime\<close> is the largest year whose first day is not after the day; the
  model counts the years forward from 1970. \<open>MonthFromTime\<close> and
  \<open>DateFromTime\<close> count the months forward in the same way.
\<close>

function year_of_day :: "int \<Rightarrow> nat \<Rightarrow> int \<times> nat" where
  "year_of_day y d =
     (if d < days_in_year y then (y, d) else year_of_day (y + 1) (d - days_in_year y))"
  by pat_completeness auto
termination
  by (relation "measure (\<lambda>(y, d). d)") (auto simp: days_in_year_def)

function month_of_day :: "int \<Rightarrow> nat \<Rightarrow> nat \<Rightarrow> nat \<times> nat" where
  "month_of_day y m d =
     (if 12 \<le> m \<or> d < days_in_month y m then (m, Suc d)
      else month_of_day y (Suc m) (d - days_in_month y m))"
  by pat_completeness auto
termination
  by (relation "measure (\<lambda>(y, m, d). 12 - m)") auto

declare year_of_day.simps [simp del] month_of_day.simps [simp del]

subsection \<open>Printing: \<open>toISOString\<close>\<close>

definition digit_char :: "nat \<Rightarrow> char" where
  "digit_char k = char_of (48 + k)"

text \<open>The \<open>w\<close> lowest decimal digits of \<open>n\<close>, zero-padded, most significant first.\<close>

fun show_padded :: "nat \<Rightarrow> nat \<Rightarrow> string" where
  "show_padded 0 n = []"
| "show_padded (Suc w) n = show_padded w (n div 10) @ [digit_char (n mod 10)]"

text \<open>
  Years 0 to 9999 print as four digits, later ones as \<open>+\<close> and six digits (the
  expanded years of the format); every time value up to \<open>8.64e15\<close> has a year
  below 275761.
\<close>

definition iso_year :: "int \<Rightarrow> string" where
  "iso_year y =
     (if y \<le> 9999 then show_padded 4 (nat y) else CHR ''+'' # show_padded 6 (nat y))"

definition iso_format :: "time_value \<Rightarrow> string" where
  "iso_format t =
     (let (y, yd) = year_of_day 1970 (t div msPerDay);
          (m, dd) = month_of_day y 1 yd;
          ms = t mod msPerDay
      in iso_year y @ CHR ''-'' # show_padded 2 m @ CHR ''-'' # show_padded 2 dd @
         CHR ''T'' # show_padded 2 (ms div 3600000) @ CHR '':'' # show_padded 2 (ms div 60000 mod 60) @
         CHR '':'' # show_padded 2 (ms div 1000 mod 60) @ CHR ''.'' # show_padded 3 (ms mod 1000) @
         [CHR ''Z''])"

text \<open>
  \<open>toISOString\<close> throws a \<open>RangeError\<close> ("Invalid time value") for a time value
  beyond \<open>8.64e15\<close>, where \<open>Date\<close> holds NaN; \<open>Inl\<close> carries the message.
\<close>

definition js_toISOString :: "time_value \<Rightarrow> string + string" where
  "js_toISOString t =
     (if max_time_value < t then Inl ''Invalid time value'' else Inr (iso_format t))"

subsection \<open>Parsing: \<open>new Date(s).getTime()\<close>\<close>

definition digit_val :: "char \<Rightarrow> nat option" where
  "digit_val c = (let n = (of_char c :: nat) in if 48 \<le> n \<and> n \<le> 57 then Some (n - 48) else None)"

fun parse_nat_acc :: "nat \<Rightarrow> string \<Rightarrow> nat option" where
  "parse_nat_acc acc [] = Some acc"
| "parse_nat_acc acc (c # cs) =
     (case digit_val c of None \<Rightarrow> None | Some d \<Rightarrow> parse_nat_acc (10 * acc + d) cs)"

text \<open>Exactly \<open>n\<close> digits at the front of the string, and what follows them.\<close>

definition take_digits :: "nat \<Rightarrow> string \<Rightarrow> (nat \<times> string) option" where
  "take_digits n s =
     (if n \<le> length s then map_option (\<lambda>v. (v, drop n s)) (parse_nat_acc 0 (take n s)) else None)"

definition expect_char :: "char \<Rightarrow> string \<Rightarrow> string option" where
  "expect_char c s = (case s of [] \<Rightarrow> None | x # xs \<Rightarrow> (if x = c then Some xs else None))"

text \<open>
  The year: four digits, or a sign and six digits; \<open>-000000\<close> is not a year of
  the format.
\<close>

definition parse_year :: "string \<Rightarrow> (int \<times> string) option" where
  "parse_year s =
     (case s of
        c # r \<Rightarrow>
          (if c = CHR ''+'' then map_option (\<lambda>(v, r'). (int v, r')) (take_digits 6 r)
           else if c = CHR ''-'' then
             (case take_digits 6 r of
                None \<Rightarrow> None
              | Some (v, r') \<Rightarrow> if v = 0 then None else Some (- int v, r'))
           else map_option (\<lambda>(v, r'). (int v, r')) (take_digits 4 s))
      | [] \<Rightarrow> None)"

text \<open>
  \<open>MakeDay\<close>, \<open>MakeTime\<close> and \<open>MakeDate\<close> of ECMA-262, and \<open>TimeClip\<close>: a time
  value beyond \<open>8.64e15\<close> in magnitude is NaN.
\<close>

definition make_time_value :: "int \<Rightarrow> nat \<Rightarrow> nat \<Rightarrow> nat \<Rightarrow> nat \<Rightarrow> nat \<Rightarrow> nat \<Rightarrow> int option" where
  "make_time_value y mo dd h mi s ms =
     (let t = (day_from_year y + int (days_before_month y mo) + int dd - 1) * int msPerDay
              + int h * 3600000 + int mi * 60000 + int s * 1000 + int ms
      in if \<bar>t\<bar> \<le> int max_time_value then Some t else None)"

text \<open>
  The full form \<open>YYYY-MM-DDTHH:mm:ss.sssZ\<close> of the date time string format
  (ECMA-262 21.4.1.32), with its range checks; \<open>None\<close> is NaN. The shorter forms
  of the format and the implementation-specific fallback formats are not modelled:
  the dashboard parses only strings that \<open>toISOString\<close> produced.
\<close>

definition js_date_parse :: "string \<Rightarrow> int option" where
  "js_date_parse s = do {
     (y, r) \<leftarrow> parse_year s;
     r \<leftarrow> expect_char CHR ''-'' r;
     (mo, r) \<leftarrow> take_digits 2 r;
     r \<leftarrow> expect_char CHR ''-'' r;
     (dd, r) \<leftarrow> take_digits 2 r;
     r \<leftarrow> expect_char CHR ''T'' r;
     (h, r) \<leftarrow> take_digits 2 r;
     r \<leftarrow> expect_char CHR '':'' r;
     (mi, r) \<leftarrow> take_digits 2 r;
     r \<leftarrow> expect_char CHR '':'' r;
     (sec, r) \<leftarrow> take_digits 2 r;
     r \<leftarrow> expect_char CHR ''.'' r;
     (ms, r) \<leftarrow> take_digits 3 r;
     r \<leftarrow> expect_char CHR ''Z'' r;
     if r = [] \<and> 1 \<le> mo \<and> mo \<le> 12 \<and> 1 \<le> dd \<and> dd \<le> days_in_month y mo
        \<and> h \<le> 23 \<and> mi \<le> 59 \<and> sec \<le> 59
     then make_time_value y mo dd h mi sec ms else None
   }"

subsection \<open>Digits\<close>

lemma of_char_digit_char [simp]: "k < 10 \<Longrightarrow> (of_char (digit_char k) :: nat) = 48 + k"
  by (simp add: digit_char_def)

lemma digit_val_digit_char [simp]: "k < 10 \<Longrightarrow> digit_val (digit_char k) = Some k"
  by (simp add: digit_val_def)

lemma length_show_padded [simp]: "length (show_padded w n) = w"
  by (induction w arbitrary: n) auto

lemma show_padded_digits: "set (show_padded w n) \<subseteq> digit_char ` {..<10}"
  by (induction w arbitrary: n) auto

lemma parse_nat_acc_append:
  "parse_nat_acc acc (xs @ ys) = Option.bind (parse_nat_acc acc xs) (\<lambda>a. parse_nat_acc a ys)"
  by (induction acc xs rule: parse_nat_acc.induct) (auto split: option.splits)

lemma parse_show_padded:
  "parse_nat_acc acc (show_padded w n) = Some (acc * 10 ^ w + n mod 10 ^ w)"
proof (induction w arbitrary: acc n)
  case 0
  then show ?case by simp
next
  case (Suc w)
  have "n mod 10 ^ Suc w = 10 * (n div 10 mod 10 ^ w) + n mod 10"
    by (simp add: mod_mult2_eq)
  then show ?case
    by (simp add: parse_nat_acc_append Suc.IH algebra_simps)
qed

lemma take_digits_show_padded:
  "take_digits w (show_padded w n @ r) = Some (n mod 10 ^ w, r)"
  by (simp add: take_digits_def parse_show_padded)

lemma expect_char_Cons [simp]: "expect_char c (c # r) = Some r"
  by (simp add: expect_char_def)


lemma int_div_Suc:
  assumes "(1::int) < c"
  shows "(a + 1) div c = a div c + (if (a + 1) mod c = 0 then 1 else 0)"
proof -
  have split: "(a + 1) div c = a div c + (a mod c + 1) div c"
    using div_add1_eq [of a 1 c] assms by simp
  have r: "0 \<le> a mod c" "a mod c < c" using assms by simp_all
  have m: "(a + 1) mod c = (a mod c + 1) mod c" by (simp add: mod_add_left_eq)
  show ?thesis
  proof (cases "a mod c + 1 = c")
    case True
    then show ?thesis using split m assms by simp
  next
    case False
    with r have "a mod c + 1 < c" by simp
    with r split m show ?thesis by simp
  qed
qed
lemma div_Suc_step:
  assumes "(1::int) < c" and "(a + 1) mod c = 0 \<longleftrightarrow> P"
  shows "(a + 1) div c = a div c + (if P then 1 else 0)"
  using int_div_Suc [OF assms(1), of a] assms(2) by simp

lemma day_from_year_regroup:
  "365 * (y - 1970) + 365 + ((y - 1969) div 4 + (if P4 then 1 else 0))
     - ((y - 1901) div 100 + (if P100 then 1 else 0)) + ((y - 1601) div 400 + (if P400 then 1 else 0))
   = day_from_year y + (365 + (if P4 then 1 else 0) - (if P100 then 1 else 0) + (if P400 then 1 else 0))"
  unfolding day_from_year_def by (simp only: algebra_simps)

lemma leap_days:
  "(P100 \<Longrightarrow> P4) \<Longrightarrow> (P400 \<Longrightarrow> P100) \<Longrightarrow>
   365 + (if P4 then 1 else 0) - (if P100 then 1 else 0) + (if P400 then 1 else 0)
   = int (if P4 \<and> (\<not> P100 \<or> P400) then 366 else 365)"
  by auto

lemma day_from_year_Suc: "day_from_year (y + 1) = day_from_year y + int (days_in_year y)"
proof -
  have d4: "(y - 1969 + 1) div 4 = (y - 1969) div 4 + (if y mod 4 = 0 then 1 else 0)"
    by (rule div_Suc_step) presburger+
  have d100: "(y - 1901 + 1) div 100 = (y - 1901) div 100 + (if y mod 100 = 0 then 1 else 0)"
    by (rule div_Suc_step) presburger+
  have d400: "(y - 1601 + 1) div 400 = (y - 1601) div 400 + (if y mod 400 = 0 then 1 else 0)"
    by (rule div_Suc_step) presburger+
  have i1: "y mod 100 = 0 \<Longrightarrow> y mod 4 = 0" and i2: "y mod 400 = 0 \<Longrightarrow> y mod 100 = 0"
    by presburger+
  have "day_from_year (y + 1) =
     365 * (y - 1970) + 365 + (y - 1969 + 1) div 4 - (y - 1901 + 1) div 100 + (y - 1601 + 1) div 400"
    unfolding day_from_year_def by (simp add: diff_add_eq)
  also have "\<dots> = day_from_year y +
      (365 + (if y mod 4 = 0 then 1 else 0) - (if y mod 100 = 0 then 1 else 0) + (if y mod 400 = 0 then 1 else 0))"
    unfolding d4 d100 d400 by (rule day_from_year_regroup)
  also have "365 + (if y mod 4 = 0 then 1 else 0) - (if y mod 100 = 0 then 1 else 0)
      + (if y mod 400 = 0 then 1 else 0) = int (days_in_year y)"
    unfolding days_in_year_def leap_year_def by (rule leap_days [OF i1 i2])
  finally show ?thesis .
qed

lemma day_from_year_1970 [simp]: "day_from_year 1970 = 0"
  by (simp add: day_from_year_def)

lemma days_in_year_pos: "0 < days_in_year y"
  by (simp add: days_in_year_def)

lemma year_of_day_spec:
  "year_of_day y d = (y', d') \<Longrightarrow>
   day_from_year y' + int d' = day_from_year y + int d \<and> d' < days_in_year y' \<and> y \<le> y'"
proof (induction y d rule: year_of_day.induct)
  case (1 y d)
  show ?case
  proof (cases "d < days_in_year y")
    case True
    with "1.prems" show ?thesis by (simp add: year_of_day.simps [of y d])
  next
    case False
    with "1.prems" have "year_of_day (y + 1) (d - days_in_year y) = (y', d')"
      by (simp add: year_of_day.simps [of y d])
    with False "1.IH" show ?thesis by (auto simp: day_from_year_Suc)
  qed
qed

lemma days_before_month_1 [simp]: "days_before_month y (Suc 0) = 0"
  by (simp add: days_before_month_def)

lemma days_before_month_Suc:
  "1 \<le> m \<Longrightarrow> days_before_month y (Suc m) = days_before_month y m + days_in_month y m"
  by (simp add: days_before_month_def)

lemma days_before_month_13: "days_before_month y 13 = days_in_year y"
  by (simp add: days_before_month_def days_in_month_def days_in_year_def upt_rec)

lemma days_in_month_le_31: "days_in_month y m \<le> 31"
  by (simp add: days_in_month_def)

lemma month_of_day_spec:
  "month_of_day y m d = (m', dd) \<Longrightarrow> 1 \<le> m \<Longrightarrow> m \<le> 12 \<Longrightarrow>
   d + days_before_month y m < days_in_year y \<Longrightarrow>
   days_before_month y m' + dd = Suc (days_before_month y m + d) \<and>
   1 \<le> m' \<and> m' \<le> 12 \<and> 1 \<le> dd \<and> dd \<le> days_in_month y m'"
proof (induction y m d rule: month_of_day.induct)
  case (1 y m d)
  show ?case
  proof (cases "12 \<le> m \<or> d < days_in_month y m")
    case True
    with "1.prems"(1) have res: "m' = m" "dd = Suc d"
      by (simp_all add: month_of_day.simps [of y m d])
    have "d < days_in_month y m"
    proof (cases "d < days_in_month y m")
      case False
      with True "1.prems"(3) have "m = 12" by simp
      with "1.prems"(4) show ?thesis
        by (simp add: days_before_month_13 [symmetric] days_before_month_Suc [of 12, simplified])
    qed
    with res "1.prems"(2,3) show ?thesis by simp
  next
    case False
    with "1.prems"(1) have rec: "month_of_day y (Suc m) (d - days_in_month y m) = (m', dd)"
      by (simp add: month_of_day.simps [of y m d])
    from False "1.prems"(2,4) have "d - days_in_month y m + days_before_month y (Suc m) < days_in_year y"
      by (simp add: days_before_month_Suc)
    with False "1.IH" [OF _ rec] "1.prems"(2) show ?thesis
      by (simp add: days_before_month_Suc)
  qed
qed

lemma day_from_year_ge: "365 * (int k) \<le> day_from_year (1970 + int k)"
proof (induction k)
  case 0
  then show ?case by simp
next
  case (Suc k)
  have "day_from_year (1970 + int (Suc k)) = day_from_year (1970 + int k) + int (days_in_year (1970 + int k))"
    using day_from_year_Suc [of "1970 + int k"] by (simp add: add.assoc)
  moreover have "365 \<le> days_in_year (1970 + int k)" by (simp add: days_in_year_def)
  ultimately show ?case using Suc.IH by simp
qed

lemma time_of_day_split:
  "(m::nat) div 3600000 * 3600000 + m div 60000 mod 60 * 60000 + m div 1000 mod 60 * 1000 + m mod 1000 = m"
proof -
  have a: "m = 1000 * (m div 1000) + m mod 1000" by simp
  have b0: "m div 1000 div 60 = m div 60000" using div_mult2_eq [of m 1000 60] by simp
  have c0: "m div 60000 div 60 = m div 3600000" using div_mult2_eq [of m 60000 60] by simp
  have b: "m div 1000 = 60 * (m div 60000) + m div 1000 mod 60"
    using div_mult_mod_eq [of "m div 1000" 60] b0 by simp
  have c: "m div 60000 = 60 * (m div 3600000) + m div 60000 mod 60"
    using div_mult_mod_eq [of "m div 60000" 60] c0 by simp
  show ?thesis using a b c by linarith
qed

lemma digit_char_not_sign:
  "k < 10 \<Longrightarrow> digit_char k \<noteq> CHR ''+'' \<and> digit_char k \<noteq> CHR ''-''"
proof -
  assume k: "k < 10"
  have "(of_char (digit_char k) :: nat) = 48 + k" using k by simp
  moreover have "(of_char CHR ''+'' :: nat) = 43" and "(of_char CHR ''-'' :: nat) = 45" by simp_all
  ultimately show ?thesis by auto
qed

lemma show_padded_Cons:
  "0 < w \<Longrightarrow> \<exists>k<10. \<exists>cs. show_padded w n = digit_char k # cs"
proof -
  assume "0 < w"
  then obtain c cs where cs: "show_padded w n = c # cs"
    using length_show_padded [of w n] by (cases "show_padded w n") auto
  then have "c \<in> set (show_padded w n)" by simp
  with show_padded_digits obtain k where "k < 10" "c = digit_char k" by blast
  with cs show ?thesis by blast
qed

lemma parse_year_iso_year:
  assumes "1 \<le> y" and "y \<le> 999999"
  shows "parse_year (iso_year y @ r) = Some (y, r)"
proof (cases "y \<le> 9999")
  case True
  obtain k cs where k: "k < 10" and sp: "show_padded 4 (nat y) = digit_char k # cs"
    using show_padded_Cons [of 4 "nat y"] by auto
  have "take_digits 4 (show_padded 4 (nat y) @ r) = Some (nat y mod 10 ^ 4, r)"
    by (rule take_digits_show_padded)
  with True assms(1) k sp digit_char_not_sign [OF k] show ?thesis
    by (simp add: iso_year_def parse_year_def)
next
  case False
  have "take_digits 6 (show_padded 6 (nat y) @ r) = Some (nat y mod 10 ^ 6, r)"
    by (rule take_digits_show_padded)
  with False assms show ?thesis
    by (simp add: iso_year_def parse_year_def)
qed

lemma make_time_value_day:
  assumes dayeq: "day_from_year y + int (days_before_month y m) + int dd - 1 = int (t div msPerDay)"
    and t: "t \<le> max_time_value"
  shows "make_time_value y m dd (t mod msPerDay div 3600000) (t mod msPerDay div 60000 mod 60)
           (t mod msPerDay div 1000 mod 60) (t mod msPerDay mod 1000) = Some (int t)"
proof -
  let ?ms = "t mod msPerDay"
  have sp: "int (?ms div 3600000) * 3600000 + int (?ms div 60000 mod 60) * 60000
      + int (?ms div 1000 mod 60) * 1000 + int (?ms mod 1000) = int ?ms"
    using arg_cong [OF time_of_day_split [of ?ms], of int] by simp
  have dm: "int (t div msPerDay) * int msPerDay + int ?ms = int t"
    by (simp flip: of_nat_mult of_nat_add)
  have "(day_from_year y + int (days_before_month y m) + int dd - 1) * int msPerDay
      = int (t div msPerDay) * int msPerDay"
    by (simp only: dayeq)
  with sp dm have tv: "(day_from_year y + int (days_before_month y m) + int dd - 1) * int msPerDay
      + int (?ms div 3600000) * 3600000 + int (?ms div 60000 mod 60) * 60000
      + int (?ms div 1000 mod 60) * 1000 + int (?ms mod 1000) = int t"
    by linarith
  from t have "\<bar>int t\<bar> \<le> int max_time_value" by simp
  with tv show ?thesis by (simp add: make_time_value_def Let_def)
qed

theorem js_date_parse_iso_format:
  assumes t: "t \<le> max_time_value"
  shows "js_date_parse (iso_format t) = Some (int t)"
proof -
  define D where "D = t div msPerDay"
  define ms where "ms = t mod msPerDay"
  obtain y yd where Y: "year_of_day 1970 D = (y, yd)"
    by (cases "year_of_day 1970 D") auto
  obtain m dd where M: "month_of_day y 1 yd = (m, dd)"
    by (cases "month_of_day y 1 yd") auto
  from year_of_day_spec [OF Y] have y1: "day_from_year y + int yd = int D"
    and yd: "yd < days_in_year y" and y0: "1970 \<le> y"
    by simp_all
  from month_of_day_spec [OF M] yd have m1: "days_before_month y m + dd = Suc yd"
    and m2: "1 \<le> m" "m \<le> 12" "1 \<le> dd" "dd \<le> days_in_month y m"
    by simp_all
  have "D \<le> max_time_value div msPerDay"
    unfolding D_def using t by (rule div_le_mono)
  then have D_le: "D \<le> 100000000" by (simp add: max_time_value_def msPerDay_def)
  have "365 * y - 719050 \<le> day_from_year y"
    using day_from_year_ge [of "nat (y - 1970)"] y0 by (simp add: right_diff_distrib)
  moreover have "int D \<le> 100000000" using D_le by simp
  moreover have "0 \<le> int yd" by simp
  ultimately have y_le: "y \<le> 999999" using y1 by linarith
  have ms_lt: "ms < 86400000" by (simp add: ms_def msPerDay_def)
  have h: "ms div 3600000 < 24" using ms_lt by (simp add: div_less_iff_less_mult)
  have dd31: "dd < 100" using m2(4) days_in_month_le_31 [of y m] by linarith
  have mod60: "ms div 60000 mod 60 \<le> 59" "ms div 1000 mod 60 \<le> 59"
    using mod_less_divisor [of 60] by (simp_all add: less_Suc_eq_le [symmetric])
  have py: "parse_year (iso_year y @ r) = Some (y, r)" for r
    using y0 y_le by (intro parse_year_iso_year) simp_all
  have dayeq: "day_from_year y + int (days_before_month y m) + int dd - 1 = int D"
    using y1 m1 by linarith
  have parse: "js_date_parse (iso_format t) =
      make_time_value y m dd (ms div 3600000) (ms div 60000 mod 60) (ms div 1000 mod 60) (ms mod 1000)"
    using y0 y_le m2 dd31 h mod60
    by (simp add: iso_format_def js_date_parse_def Y M [simplified] flip: D_def ms_def
        add: py take_digits_show_padded)
  show ?thesis
    unfolding parse ms_def using make_time_value_day [OF dayeq [unfolded D_def] t] .
qed

subsection \<open>Round trip\<close>

text \<open>
  Whatever \<open>toISOString\<close> prints, \<open>new Date(s).getTime()\<close> reads back as the same
  time value.
\<close>

theorem js_date_parse_toISOString:
  "js_toISOString t = Inr s \<Longrightarrow> js_date_parse s = Some (int t)"
  by (auto simp: js_toISOString_def js_date_parse_iso_format split: if_splits)

end
