(* ===== verification/Upload.thy ===== *)
theory Upload
  imports Types Js_Date
begin

text \<open>
  The upload controller of \<open>src/safeworkai/src/pages/HomePage.tsx\<close>: the page's four
  pieces of React state (\<open>fileStatus\<close>, \<open>error\<close>, \<open>currentAnalysis\<close>,
  \<open>analyses\<close>) as the record \<open>page_state\<close>, and the two handlers the page
  defines, \<open>handleFileUpload\<close> and \<open>viewAnalysis\<close>.

  \<open>handleFileUpload\<close> is asynchronous. Its synchronous prefix (lines 16--26) runs
  when it is called; it then waits for \<open>fetch\<close> (line 23) and, on an OK response,
  for \<open>response.json()\<close> (line 32). Each continuation runs as one atomic step
  of the event loop (React batches the state updates of one continuation). The
  model therefore splits the handler at its two \<open>await\<close>s: \<open>upload_start\<close>,
  \<open>on_fetch\<close> and \<open>on_json\<close>, with \<open>upload_catch\<close> the \<open>catch\<close> block and
  \<open>upload_commit\<close> the three state updates of the success path. Nothing stops a
  second call while one is in flight, so the state of the whole page
  (\<open>page_sys\<close>) keeps the suspended calls, and \<open>page_step\<close> lets their
  continuations run in any order, as the network lets them.
\<close>

subsection \<open>The response and the two settlements\<close>

text \<open>
  The JSON body the server sends (\<open>data\<close>, lines 32--43): the fields the page
  reads. \<open>riskScore\<close>, \<open>feedback\<close> and \<open>pdfUrl\<close> may be absent.
\<close>

record upload_response =
  resp_fileId :: string
  resp_filename :: string
  resp_riskScore :: "js_number option"
  resp_extractedText :: string
  resp_feedback :: "string option"
  resp_pdfUrl :: "string option"

text \<open>
  How \<open>fetch\<close> settles: rejected (a network failure, with the \<open>TypeError\<close>'s
  message) or with a response and its HTTP status. How \<open>response.json()\<close>
  settles: with the parsed body, with \<open>null\<close> (the body \<open>null\<close> is valid
  JSON), or rejected with a \<open>SyntaxError\<close>'s message. A parsed object is read
  through the fields the handler uses (\<open>upload_response\<close>).
\<close>

datatype fetch_outcome = Fetch_Rejected string | Fetch_Response nat

datatype json_outcome = Json_Parsed upload_response | Json_Null | Json_Rejected string

text \<open>Where a suspended call of \<open>handleFileUpload\<close> waits.\<close>

datatype upload_stage = Awaiting_Fetch | Awaiting_Json

subsection \<open>The page state and the handler's pieces\<close>

record page_state =
  fileStatus :: file_status
  page_error :: string
  currentAnalysis :: "analysis_result option"
  analyses :: "analysis_result list"

definition page_init :: page_state where
  "page_init = \<lparr>fileStatus = Idle, page_error = [], currentAnalysis = None, analyses = []\<rparr>"

text \<open>\<open>Response.ok\<close>: the status is in the range 200--299.\<close>

definition response_ok :: "nat \<Rightarrow> bool" where
  "response_ok st \<longleftrightarrow> 200 \<le> st \<and> st \<le> 299"

text \<open>Lines 16--17: the status shows the upload and the last error is cleared.\<close>

definition upload_start :: "page_state \<Rightarrow> page_state" where
  "upload_start s = s\<lparr>fileStatus := Uploading, page_error := []\<rparr>"

text \<open>The \<open>catch\<close> block, lines 49--53: \<open>setError(err.message || 'Upload failed')\<close>.\<close>

definition upload_catch :: "string \<Rightarrow> page_state \<Rightarrow> page_state" where
  "upload_catch msg s = s\<lparr>page_error := js_or_string msg ''Upload failed'', fileStatus := Error\<rparr>"

text \<open>Lines 34--44: the record built from the body and the client's clock.\<close>

definition new_analysis :: "upload_response \<Rightarrow> string \<Rightarrow> analysis_result" where
  "new_analysis data date =
     \<lparr>ar_id = resp_fileId data, filename = resp_filename data, uploadDate = date,
      riskScore = js_or_number (resp_riskScore data) 0, topRisks = [],
      extractedText = resp_extractedText data, pdfUrl = resp_pdfUrl data,
      fileId = resp_fileId data, gptFeedback = resp_feedback data\<rparr>"

text \<open>Lines 46--48: prepend, select, complete.\<close>

definition upload_commit :: "analysis_result \<Rightarrow> page_state \<Rightarrow> page_state" where
  "upload_commit a s =
     s\<lparr>analyses := a # analyses s, currentAnalysis := Some a, fileStatus := Complete\<rparr>"

text \<open>
  The continuation after \<open>fetch\<close> (lines 23--30): a rejection or a status that is
  not OK goes to the \<open>catch\<close> block (the thrown \<open>Error('Upload failed')\<close>);
  otherwise the call waits for the body. The second component is where the call
  waits next, \<open>None\<close> once it has finished.
\<close>

definition on_fetch :: "fetch_outcome \<Rightarrow> page_state \<Rightarrow> page_state \<times> upload_stage option" where
  "on_fetch r s =
     (case r of
        Fetch_Rejected msg \<Rightarrow> (upload_catch msg s, None)
      | Fetch_Response st \<Rightarrow>
          if response_ok st then (s, Some Awaiting_Json)
          else (upload_catch ''Upload failed'' s, None))"

text \<open>
  The continuation after \<open>response.json()\<close> (lines 32--53), at client time
  \<open>now\<close>: a rejected body, a \<open>null\<close> body (a \<open>TypeError\<close> at line 35), or a
  \<open>RangeError\<close> of \<open>toISOString\<close>, goes to the \<open>catch\<close> block; otherwise the new analysis is committed.
\<close>

text \<open>
  The message of the \<open>TypeError\<close> that reading \<open>data.fileId\<close> (line 35) throws
  when the body is \<open>null\<close>, in V8's wording.
\<close>

definition null_fileId_error :: string where
  "null_fileId_error = ''Cannot read properties of null (reading '' @ [CHR 0x27] @ ''fileId'' @ [CHR 0x27] @ '')''"

definition on_json :: "json_outcome \<Rightarrow> time_value \<Rightarrow> page_state \<Rightarrow> page_state" where
  "on_json r now s =
     (case r of
        Json_Rejected msg \<Rightarrow> upload_catch msg s
      | Json_Null \<Rightarrow> upload_catch null_fileId_error s
      | Json_Parsed data \<Rightarrow>
          (case js_toISOString now of
             Inl msg \<Rightarrow> upload_catch msg s
           | Inr date \<Rightarrow> upload_commit (new_analysis data date) s))"

text \<open>\<open>viewAnalysis\<close>, lines 56--58.\<close>

definition viewAnalysis :: "analysis_result \<Rightarrow> page_state \<Rightarrow> page_state" where
  "viewAnalysis a s = s\<lparr>currentAnalysis := Some a\<rparr>"

subsection \<open>The page with its suspended calls\<close>

text \<open>
  \<open>inflight\<close> maps each call of \<open>handleFileUpload\<close> (numbered in call order) to
  the \<open>await\<close> it is suspended at; \<open>None\<close> once it has finished.
\<close>

record page_sys =
  page :: page_state
  inflight :: "nat \<Rightarrow> upload_stage option"
  next_call :: nat

definition page_sys_init :: page_sys where
  "page_sys_init = \<lparr>page = page_init, inflight = (\<lambda>_. None), next_call = 0\<rparr>"

text \<open>
  The events: a call of \<open>handleFileUpload\<close> (from the upload area), the
  settlement of a suspended call's \<open>fetch\<close> or \<open>response.json()\<close>, and a click
  on a row's View button, which calls \<open>viewAnalysis\<close> with a row of the table,
  that is, an element of \<open>analyses\<close>. \<open>None\<close>: the event cannot happen here.
\<close>

datatype page_event =
    Call_Upload upload_file
  | Settle_Fetch nat fetch_outcome
  | Settle_Json nat json_outcome time_value
  | View analysis_result

fun page_step :: "page_sys \<Rightarrow> page_event \<Rightarrow> page_sys option" where
  "page_step ps (Call_Upload f) =
     Some \<lparr>page = upload_start (page ps),
           inflight = (inflight ps)(next_call ps \<mapsto> Awaiting_Fetch),
           next_call = Suc (next_call ps)\<rparr>"
| "page_step ps (Settle_Fetch k r) =
     (if inflight ps k = Some Awaiting_Fetch
      then (let (s', st) = on_fetch r (page ps)
            in Some (ps\<lparr>page := s', inflight := (inflight ps)(k := st)\<rparr>))
      else None)"
| "page_step ps (Settle_Json k r now) =
     (if inflight ps k = Some Awaiting_Json
      then Some (ps\<lparr>page := on_json r now (page ps), inflight := (inflight ps)(k := None)\<rparr>)
      else None)"
| "page_step ps (View a) =
     (if a \<in> set (analyses (page ps)) then Some (ps\<lparr>page := viewAnalysis a (page ps)\<rparr>) else None)"

text \<open>A sequence of events, one after the other; \<open>None\<close> if one cannot happen.\<close>

fun page_run :: "page_sys \<Rightarrow> page_event list \<Rightarrow> page_sys option" where
  "page_run ps [] = Some ps"
| "page_run ps (e # es) = (case page_step ps e of None \<Rightarrow> None | Some ps' \<Rightarrow> page_run ps' es)"

inductive page_reachable :: "page_sys \<Rightarrow> bool" where
  init: "page_reachable page_sys_init"
| step: "page_reachable ps \<Longrightarrow> page_step ps e = Some ps' \<Longrightarrow> page_reachable ps'"

subsection \<open>Sample inputs\<close>

text \<open>
  The scenario of the specification (section 8): a 2 MB PDF, answered with
  \<open>{fileId: "f1", filename: "doc.pdf", riskScore: 45, extractedText: "unsafe ladder",
  pdfUrl: "http://x/r.pdf"}\<close>.
\<close>

definition sample_file :: upload_file where
  "sample_file = \<lparr>file_name = ''doc.pdf'', file_size = 2097152\<rparr>"

definition sample_response :: upload_response where
  "sample_response =
     \<lparr>resp_fileId = ''f1'', resp_filename = ''doc.pdf'', resp_riskScore = Some 45,
      resp_extractedText = ''unsafe ladder'', resp_feedback = None,
      resp_pdfUrl = Some ''http://x/r.pdf''\<rparr>"

text \<open>
  The number of settlements in a sequence of events that commit an analysis: a
  parsed body received at a time \<open>toISOString\<close> can print.
\<close>

fun success_settlements :: "page_event list \<Rightarrow> nat" where
  "success_settlements [] = 0"
| "success_settlements (Settle_Json k (Json_Parsed d) now # es) =
     (if now \<le> max_time_value then Suc (success_settlements es) else success_settlements es)"
| "success_settlements (e # es) = success_settlements es"

definition sample_success_events :: "page_event list" where
  "sample_success_events =
     [Call_Upload sample_file, Settle_Fetch 0 (Fetch_Response 200),
      Settle_Json 0 (Json_Parsed sample_response) 1000]"

text \<open>
  Two calls started one after the other, the second answered first: its analysis is
  shown as complete while the first call still waits for its \<open>fetch\<close>.
\<close>

definition late_success_events :: "page_event list" where
  "late_success_events =
     [Call_Upload sample_file, Call_Upload sample_file,
      Settle_Fetch 1 (Fetch_Response 200), Settle_Json 1 (Json_Parsed sample_response) 1000]"


subsection \<open>Step lemmas\<close>

lemmas page_update_defs = upload_start_def upload_catch_def upload_commit_def viewAnalysis_def

lemmas page_defs = page_update_defs on_fetch_def on_json_def js_toISOString_def

lemmas page_eval = page_defs page_sys_init_def page_init_def response_ok_def max_time_value_def

lemma on_fetch_keeps_store [page_simps]:
  "analyses (fst (on_fetch r s)) = analyses s"
  "currentAnalysis (fst (on_fetch r s)) = currentAnalysis s"
  by (simp_all add: on_fetch_def upload_catch_def split: fetch_outcome.splits)

lemma on_fetch_status:
  "fileStatus (fst (on_fetch r s)) \<in> {fileStatus s, Error}"
  by (auto simp: on_fetch_def upload_catch_def split: fetch_outcome.splits)

lemma on_json_cases:
  "(\<exists>msg. on_json r now s = upload_catch msg s) \<or> (\<exists>a. on_json r now s = upload_commit a s)"
  by (auto simp: on_json_def split: json_outcome.splits sum.splits)

text \<open>Every step of the page is one of the handler's pieces, or a view.\<close>

lemma page_step_cases:
  assumes "page_step ps e = Some ps'"
  obtains (start) "page ps' = upload_start (page ps)"
  | (fetch) r where "page ps' = fst (on_fetch r (page ps))"
  | (catch) msg where "page ps' = upload_catch msg (page ps)"
  | (commit) a where "page ps' = upload_commit a (page ps)"
  | (view) a where "a \<in> set (analyses (page ps))" "page ps' = viewAnalysis a (page ps)"
proof (cases e)
  case (Call_Upload f)
  with assms show ?thesis by (auto intro: that(1))
next
  case (Settle_Fetch k r)
  with assms have "page ps' = fst (on_fetch r (page ps))"
    by (auto split: if_splits prod.splits)
  then show ?thesis by (rule that(2))
next
  case (Settle_Json k r now)
  with assms have "page ps' = on_json r now (page ps)"
    by (auto split: if_splits)
  then show ?thesis using on_json_cases [of r now "page ps"] that(3,4) by auto
next
  case (View a)
  with assms show ?thesis by (auto intro: that(5) split: if_splits)
qed

lemma page_step_store_suffix:
  "page_step ps e = Some ps' \<Longrightarrow> suffix (analyses (page ps)) (analyses (page ps'))"
  by (erule page_step_cases) (auto simp: page_update_defs page_simps)

lemma page_step_current_in_store:
  "page_step ps e = Some ps' \<Longrightarrow>
   (\<forall>a. currentAnalysis (page ps) = Some a \<longrightarrow> a \<in> set (analyses (page ps))) \<Longrightarrow>
   currentAnalysis (page ps') = Some a \<Longrightarrow> a \<in> set (analyses (page ps'))"
  by (erule page_step_cases) (auto simp: page_update_defs page_simps)

lemma page_step_not_processing:
  assumes "page_step ps e = Some ps'" and "fileStatus (page ps) \<noteq> Processing"
  shows "fileStatus (page ps') \<noteq> Processing"
  using assms(1)
proof (cases rule: page_step_cases)
  case (fetch r)
  with on_fetch_status [of r "page ps"] assms(2) show ?thesis by auto
qed (use assms(2) in \<open>auto simp: page_update_defs\<close>)

lemma page_step_length:
  assumes "page_step ps e = Some ps'"
  shows "length (analyses (page ps')) = length (analyses (page ps)) + success_settlements [e]"
proof (cases e)
  case (Settle_Json k r now)
  with assms show ?thesis
    by (cases r) (auto simp: page_defs split: if_splits)
qed (use assms in \<open>auto simp: page_defs split: if_splits prod.splits fetch_outcome.splits\<close>)

lemma success_settlements_Cons:
  "success_settlements (e # es) = success_settlements [e] + success_settlements es"
  by (cases "e # es" rule: success_settlements.cases) auto

lemma page_run_Cons_Some:
  "page_run ps (e # es) = Some ps' \<Longrightarrow> \<exists>ps1. page_step ps e = Some ps1 \<and> page_run ps1 es = Some ps'"
  by (auto split: option.splits)

lemma page_run_reachable:
  "page_reachable ps \<Longrightarrow> page_run ps es = Some ps' \<Longrightarrow> page_reachable ps'"
proof (induction es arbitrary: ps)
  case Nil
  then show ?case by simp
next
  case (Cons e es)
  then obtain ps1 where "page_step ps e = Some ps1" and "page_run ps1 es = Some ps'"
    by (blast dest: page_run_Cons_Some)
  with Cons show ?case by (blast intro: page_reachable.step)
qed

lemma sample_success_run:
  "page_run page_sys_init sample_success_events
   = Some (the (page_run page_sys_init sample_success_events))"
  "currentAnalysis (page (the (page_run page_sys_init sample_success_events)))
   = Some (new_analysis sample_response (iso_format 1000))"
  by (simp_all add: page_eval sample_success_events_def)

text \<open>A complete status always comes with a selected analysis.\<close>

lemma page_step_complete_selected:
  assumes "page_step ps e = Some ps'"
    and "fileStatus (page ps) = Complete \<longrightarrow> currentAnalysis (page ps) \<noteq> None"
    and "fileStatus (page ps') = Complete"
  shows "currentAnalysis (page ps') \<noteq> None"
  using assms(1)
proof (cases rule: page_step_cases)
  case (fetch r)
  then show ?thesis
    using on_fetch_status [of r "page ps"] on_fetch_keeps_store(2) [of r "page ps"] assms(2,3) by auto
qed (use assms(2,3) in \<open>auto simp: page_update_defs\<close>)

lemma reachable_complete_selected:
  "page_reachable ps \<Longrightarrow> fileStatus (page ps) = Complete \<Longrightarrow> currentAnalysis (page ps) \<noteq> None"
  by (induction rule: page_reachable.induct)
     (auto simp: page_sys_init_def page_init_def dest: page_step_complete_selected)

subsection \<open>Properties of the upload controller\<close>

text \<open>
  Claim C1. When the body of an upload whose response was OK has been parsed, and
  the clock can be printed, the step prepends exactly one new analysis, built from
  the body, to the store, selects it and marks the upload complete; the error
  message and the other suspended calls are untouched.
\<close>

theorem upload_success_prepends:
  assumes "inflight ps k = Some Awaiting_Json" and "js_toISOString now = Inr date"
  shows "page_step ps (Settle_Json k (Json_Parsed data) now) =
     Some (ps\<lparr>page := (page ps)\<lparr>analyses := new_analysis data date # analyses (page ps),
                                 currentAnalysis := Some (new_analysis data date),
                                 fileStatus := Complete\<rparr>,
             inflight := (inflight ps)(k := None)\<rparr>)"
  using assms by (simp add: on_json_def upload_commit_def)

theorem upload_success_prepends_witness:
  "analyses (page (the (page_step
      (the (page_run page_sys_init [Call_Upload sample_file, Settle_Fetch 0 (Fetch_Response 200)]))
      (Settle_Json 0 (Json_Parsed sample_response) 1000))))
   = [new_analysis sample_response (iso_format 1000)]"
proof -
  let ?ps = "the (page_run page_sys_init [Call_Upload sample_file, Settle_Fetch 0 (Fetch_Response 200)])"
  have h1: "inflight ?ps 0 = Some Awaiting_Json"
    by (simp add: page_eval)
  have h2: "js_toISOString 1000 = Inr (iso_format 1000)"
    by (simp add: js_toISOString_def max_time_value_def)
  show ?thesis
    using upload_success_prepends [OF h1 h2, of sample_response]
    by (simp add: page_eval)
qed

text \<open>
  Claim C2. Every failure of an upload (a rejected \<open>fetch\<close>, a status that is not
  OK, a body that does not parse, a \<open>null\<close> body, a clock \<open>toISOString\<close> cannot print) ends the
  call with the status \<open>error\<close> and a non-empty message, and leaves the store of
  analyses and the current selection as they were.
\<close>

theorem upload_failure_keeps_store:
  assumes "page_step ps e = Some ps'"
    and "e = Settle_Fetch k (Fetch_Rejected msg)
         \<or> (e = Settle_Fetch k (Fetch_Response st) \<and> \<not> response_ok st)
         \<or> e = Settle_Json k (Json_Rejected msg) now
         \<or> e = Settle_Json k Json_Null now
         \<or> (e = Settle_Json k (Json_Parsed data) now \<and> max_time_value < now)"
  shows "fileStatus (page ps') = Error \<and> page_error (page ps') \<noteq> []
         \<and> analyses (page ps') = analyses (page ps)
         \<and> currentAnalysis (page ps') = currentAnalysis (page ps) \<and> inflight ps' k = None"
  using assms
  by (auto simp: on_fetch_def on_json_def upload_catch_def js_toISOString_def null_fileId_error_def
      split: if_splits)

theorem upload_failure_keeps_store_witness:
  "\<exists>ps'. page_run page_sys_init [Call_Upload sample_file, Settle_Fetch 0 (Fetch_Response 500)]
     = Some ps' \<and> fileStatus (page ps') = Error \<and> analyses (page ps') = []"
proof -
  define ps0 where "ps0 = \<lparr>page = upload_start page_init, inflight = [0 \<mapsto> Awaiting_Fetch], next_call = 1\<rparr>"
  define ps1 where "ps1 = ps0\<lparr>page := upload_catch ''Upload failed'' (page ps0), inflight := (inflight ps0)(0 := None)\<rparr>"
  have s: "page_step ps0 (Settle_Fetch 0 (Fetch_Response 500)) = Some ps1"
    by (simp add: ps0_def ps1_def on_fetch_def response_ok_def)
  have run: "page_run page_sys_init [Call_Upload sample_file, Settle_Fetch 0 (Fetch_Response 500)] = Some ps1"
    using s by (simp add: ps0_def page_sys_init_def)
  have "\<not> response_ok 500" by (simp add: response_ok_def)
  then have "fileStatus (page ps1) = Error \<and> analyses (page ps1) = analyses (page ps0)"
    using upload_failure_keeps_store [OF s] by blast
  with run show ?thesis by (simp add: ps0_def page_init_def upload_start_def)
qed

text \<open>
  Claim C3. Over any sequence of events, the store grows by exactly one analysis
  per successful upload and by nothing else: no failure, view or new call adds or
  removes a record.
\<close>

theorem page_run_one_result_per_success:
  "page_run ps es = Some ps' \<Longrightarrow>
   length (analyses (page ps')) = length (analyses (page ps)) + success_settlements es"
proof (induction es arbitrary: ps)
  case Nil
  then show ?case by simp
next
  case (Cons e es)
  then obtain ps1 where s1: "page_step ps e = Some ps1" and r: "page_run ps1 es = Some ps'"
    by (blast dest: page_run_Cons_Some)
  from page_step_length [OF s1] Cons.IH [OF r] show ?case
    by (simp add: success_settlements_Cons [of e es])
qed

theorem page_run_one_result_per_success_witness:
  "length (analyses (page (the (page_run page_sys_init sample_success_events)))) = 1"
  using page_run_one_result_per_success [OF sample_success_run(1)]
  by (simp add: page_eval sample_success_events_def)

text \<open>
  Claim C4. In every reachable state of the page, the analysis shown in the
  detail panels (if any) is one of the stored analyses.
\<close>

theorem reachable_current_in_store:
  "page_reachable ps \<Longrightarrow> currentAnalysis (page ps) = Some a \<Longrightarrow> a \<in> set (analyses (page ps))"
proof (induction arbitrary: a rule: page_reachable.induct)
  case init
  then show ?case by (simp add: page_sys_init_def page_init_def)
next
  case (step ps e ps')
  then show ?case by (blast intro: page_step_current_in_store)
qed

theorem reachable_current_in_store_witness:
  "new_analysis sample_response (iso_format 1000)
   \<in> set (analyses (page (the (page_run page_sys_init sample_success_events))))"
  using reachable_current_in_store
    [OF page_run_reachable [OF page_reachable.init sample_success_run(1)] sample_success_run(2)] .

text \<open>
  Claim C5. The store only grows at the front: over any sequence of events, the
  earlier list of analyses is a suffix of the later one, so no record is ever
  removed, replaced or reordered.
\<close>

theorem page_run_store_suffix:
  "page_run ps es = Some ps' \<Longrightarrow> suffix (analyses (page ps)) (analyses (page ps'))"
proof (induction es arbitrary: ps)
  case Nil
  then show ?case by simp
next
  case (Cons e es)
  then obtain ps1 where s1: "page_step ps e = Some ps1" and r: "page_run ps1 es = Some ps'"
    by (blast dest: page_run_Cons_Some)
  from page_step_store_suffix [OF s1] Cons.IH [OF r] show ?case
    by (rule suffix_order.trans)
qed

theorem page_run_store_suffix_witness:
  "suffix [] (analyses (page (the (page_run page_sys_init sample_success_events))))"
  using page_run_store_suffix [OF sample_success_run(1)]
  by (simp add: page_sys_init_def page_init_def)

text \<open>
  Claim C6. No reachable state has the status \<open>processing\<close>: the code never sets
  it, although the type, the status messages of the upload area and the
  specification's life cycle (idle, uploading, processing, complete or error)
  all have it.
\<close>

theorem reachable_never_processing:
  "page_reachable ps \<Longrightarrow> fileStatus (page ps) \<noteq> Processing"
  by (induction rule: page_reachable.induct)
     (auto simp: page_sys_init_def page_init_def dest: page_step_not_processing)

theorem reachable_never_processing_witness:
  "fileStatus (page (the (page_run page_sys_init sample_success_events))) \<noteq> Processing"
  using reachable_never_processing
    [OF page_run_reachable [OF page_reachable.init sample_success_run(1)]] .

text \<open>
  Claim C7. The identifiers of the stored analyses are not kept unique: the row
  key \<open>id\<close> is the server's \<open>fileId\<close>, taken as it comes, so a server that
  answers two uploads with the same \<open>fileId\<close> leaves two records with one key.
\<close>

theorem duplicate_ids_reachable:
  "\<exists>ps. page_reachable ps \<and> \<not> distinct (map ar_id (analyses (page ps)))"
proof -
  let ?r = "page_run page_sys_init
    [Call_Upload sample_file, Settle_Fetch 0 (Fetch_Response 200), Settle_Json 0 (Json_Parsed sample_response) 1000,
     Call_Upload sample_file, Settle_Fetch 1 (Fetch_Response 200), Settle_Json 1 (Json_Parsed sample_response) 2000]"
  have r: "?r = Some (the ?r)" and ids: "map ar_id (analyses (page (the ?r))) = [''f1'', ''f1'']"
    by (simp_all add: page_eval new_analysis_def sample_response_def)
  from page_run_reachable [OF page_reachable.init r] ids show ?thesis by auto
qed

text \<open>
  Claim C8. A late failure overrides a completed upload. The code keeps no record
  of which call is the latest, so in every reachable state where an analysis is
  shown as complete and some call still waits for its \<open>fetch\<close> (for instance
  an earlier call, overtaken by a later one that has already completed, as the
  witness shows), that call's rejection is accepted and switches the page to
  \<open>error\<close> with its message, while the completed analysis stays selected and the
  store is unchanged.
\<close>

theorem stale_failure_overrides_success:
  assumes "page_reachable ps" and "inflight ps k = Some Awaiting_Fetch"
    and "fileStatus (page ps) = Complete"
  shows "\<exists>ps'. page_step ps (Settle_Fetch k (Fetch_Rejected msg)) = Some ps'
           \<and> fileStatus (page ps') = Error \<and> page_error (page ps') = js_or_string msg ''Upload failed''
           \<and> currentAnalysis (page ps') = currentAnalysis (page ps) \<and> currentAnalysis (page ps) \<noteq> None
           \<and> analyses (page ps') = analyses (page ps)"
  using assms reachable_complete_selected [OF assms(1,3)]
  by (simp add: on_fetch_def upload_catch_def)

theorem stale_failure_overrides_success_witness:
  "page_reachable (the (page_run page_sys_init late_success_events))
   \<and> inflight (the (page_run page_sys_init late_success_events)) 0 = Some Awaiting_Fetch
   \<and> fileStatus (page (the (page_run page_sys_init late_success_events))) = Complete
   \<and> (\<exists>ps'. page_step (the (page_run page_sys_init late_success_events))
              (Settle_Fetch 0 (Fetch_Rejected ''Failed to fetch'')) = Some ps'
         \<and> fileStatus (page ps') = Error \<and> page_error (page ps') = ''Failed to fetch''
         \<and> currentAnalysis (page ps') = Some (new_analysis sample_response (iso_format 1000)))"
proof -
  let ?ps = "the (page_run page_sys_init late_success_events)"
  have run: "page_run page_sys_init late_success_events = Some ?ps"
    by (simp add: page_eval late_success_events_def)
  have reach: "page_reachable ?ps" by (rule page_run_reachable [OF page_reachable.init run])
  have st: "inflight ?ps 0 = Some Awaiting_Fetch" "fileStatus (page ?ps) = Complete"
    "currentAnalysis (page ?ps) = Some (new_analysis sample_response (iso_format 1000))"
    by (simp_all add: page_eval late_success_events_def)
  show ?thesis
    using stale_failure_overrides_success [OF reach st(1,2), of "''Failed to fetch''"] reach st by auto
qed

end
