(* ===== verification/Table.thy ===== *)
theory Table
  imports Types Js_Date
begin

text \<open>
  The table of previous analyses, \<open>src/safeworkai/src/components/AnalysisTable.tsx\<close>:
  its sort state (\<open>sortField\<close>, \<open>sortDirection\<close>) and \<open>handleSort\<close>, the
  comparator it hands to \<open>Array.prototype.sort\<close>, the sorted copy it renders, the
  colour class of a score, the two buttons of a row, and the rendered rows with
  their formatted dates and the message of the empty table.

  \<open>Array.prototype.sort\<close> is stable (ECMA-262 since 2019) and reads a comparator
  result of NaN as 0 (\<open>SortCompare\<close>); for a consistent comparator its result is
  the unique stable ordering, which the insertion sort \<open>js_sort\<close> computes. For an
  inconsistent comparator the standard leaves the order to the implementation;
  the model then fixes the insertion sort's order.
  \<open>localeCompare\<close> depends on the host's collation, so the comparator takes it as
  a parameter \<open>coll\<close> (negative, zero or positive, as \<open>localeCompare\<close>).
\<close>

subsection \<open>Sort state and \<open>handleSort\<close>\<close>

datatype sort_direction = Asc | Desc

text \<open>\<open>keyof AnalysisResult\<close>: the type of \<open>sortField\<close>.\<close>

datatype analysis_field =
    F_id | F_filename | F_uploadDate | F_riskScore | F_topRisks | F_extractedText
  | F_pdfUrl | F_fileId | F_gptFeedback

record table_state =
  sortField :: analysis_field
  sortDirection :: sort_direction

definition table_init :: table_state where
  "table_init = \<lparr>sortField = F_uploadDate, sortDirection = Desc\<rparr>"

definition handleSort :: "analysis_field \<Rightarrow> table_state \<Rightarrow> table_state" where
  "handleSort field s =
     (if field = sortField s
      then s\<lparr>sortDirection := (if sortDirection s = Asc then Desc else Asc)\<rparr>
      else \<lparr>sortField = field, sortDirection = Desc\<rparr>)"

text \<open>The three column headers that call \<open>handleSort\<close> (lines 73, 82, 91).\<close>

definition header_fields :: "analysis_field list" where
  "header_fields = [F_filename, F_uploadDate, F_riskScore]"

subsection \<open>The comparator\<close>

type_synonym collation = "string \<Rightarrow> string \<Rightarrow> int"

text \<open>
  \<open>String(a[sortField])\<close> for the fields that reach the string branch: a string is
  itself, \<open>undefined\<close> prints as \<open>"undefined"\<close>, and an array of objects as its
  elements' \<open>"[object Object]"\<close> joined by commas. The date and the score never
  reach this branch (lines 35--43 return before it), so they have no equation.
\<close>

fun field_string :: "analysis_field \<Rightarrow> analysis_result \<Rightarrow> string" where
  "field_string F_id a = ar_id a"
| "field_string F_filename a = filename a"
| "field_string F_topRisks a = js_join CHR '','' (map (\<lambda>_. ''[object Object]'') (topRisks a))"
| "field_string F_extractedText a = extractedText a"
| "field_string F_pdfUrl a = (case pdfUrl a of None \<Rightarrow> ''undefined'' | Some u \<Rightarrow> u)"
| "field_string F_fileId a = fileId a"
| "field_string F_gptFeedback a = (case gptFeedback a of None \<Rightarrow> ''undefined'' | Some g \<Rightarrow> g)"

text \<open>\<open>dateA.getTime() - dateB.getTime()\<close>: NaN (\<open>None\<close>) if either date is invalid.\<close>

definition time_diff :: "int option \<Rightarrow> int option \<Rightarrow> js_number option" where
  "time_diff x y = (case (x, y) of (Some a, Some b) \<Rightarrow> Some (of_int (a - b)) | _ \<Rightarrow> None)"

text \<open>The comparator of lines 34--49.\<close>

definition sort_compare :: "collation \<Rightarrow> table_state \<Rightarrow> analysis_result \<Rightarrow> analysis_result \<Rightarrow> js_number option" where
  "sort_compare coll s a b =
     (if sortField s = F_uploadDate then
        (let dateA = js_date_parse (uploadDate a); dateB = js_date_parse (uploadDate b)
         in if sortDirection s = Asc then time_diff dateA dateB else time_diff dateB dateA)
      else if sortField s = F_riskScore then
        Some (if sortDirection s = Asc then riskScore a - riskScore b else riskScore b - riskScore a)
      else
        (let valueA = js_toLowerCase (field_string (sortField s) a);
             valueB = js_toLowerCase (field_string (sortField s) b)
         in Some (of_int (if sortDirection s = Asc then coll valueA valueB else coll valueB valueA))))"

subsection \<open>\<open>Array.prototype.sort\<close>\<close>

text \<open>
  \<open>SortCompare\<close> reads NaN as \<open>+0\<close>; \<open>x\<close> may stay before \<open>y\<close> when the
  comparator's value is at most 0.
\<close>

definition sort_le :: "js_number option \<Rightarrow> bool" where
  "sort_le v = (case v of None \<Rightarrow> True | Some q \<Rightarrow> q \<le> 0)"

primrec js_insort :: "('a \<Rightarrow> 'a \<Rightarrow> js_number option) \<Rightarrow> 'a \<Rightarrow> 'a list \<Rightarrow> 'a list" where
  "js_insort c x [] = [x]"
| "js_insort c x (y # ys) = (if sort_le (c x y) then x # y # ys else y # js_insort c x ys)"

definition js_sort :: "('a \<Rightarrow> 'a \<Rightarrow> js_number option) \<Rightarrow> 'a list \<Rightarrow> 'a list" where
  "js_sort c xs = foldr (js_insort c) xs []"

text \<open>\<open>sortedAnalyses\<close>, line 34: a sorted copy of the \<open>analyses\<close> prop.\<close>

definition table_rows :: "collation \<Rightarrow> table_state \<Rightarrow> analysis_result list \<Rightarrow> analysis_result list" where
  "table_rows coll s analyses = js_sort (sort_compare coll s) analyses"

subsection \<open>Score colours and row buttons\<close>

definition getScoreColorClass :: "js_number \<Rightarrow> string" where
  "getScoreColorClass score =
     (if score < 30 then ''bg-green-100 text-green-800''
      else if score < 70 then ''bg-yellow-100 text-yellow-800''
      else ''bg-red-100 text-red-800'')"

text \<open>
  The events of the table: a click on one of the three headers, or on the View
  button of the \<open>i\<close>-th rendered row, which calls \<open>onViewAnalysis\<close> with that row
  (line 126). The PDF button of a row is rendered when the row's \<open>pdfUrl\<close> is
  truthy (line 132) and has no handler (lines 133--136): a click on it does nothing.
\<close>

datatype table_event = Click_Header analysis_field | Click_View nat | Click_Pdf nat

text \<open>
  One event: the new sort state, and the analysis handed to \<open>onViewAnalysis\<close>, if
  any; \<open>None\<close> if the event cannot happen (no such header or row).
\<close>

fun table_step ::
  "collation \<Rightarrow> analysis_result list \<Rightarrow> table_state \<Rightarrow> table_event
   \<Rightarrow> (table_state \<times> analysis_result option) option" where
  "table_step coll xs s (Click_Header f) =
     (if f \<in> set header_fields then Some (handleSort f s, None) else None)"
| "table_step coll xs s (Click_View i) =
     (let rows = table_rows coll s xs in if i < length rows then Some (s, Some (rows ! i)) else None)"
| "table_step coll xs s (Click_Pdf i) =
     (let rows = table_rows coll s xs
      in if i < length rows \<and> pdfUrl (rows ! i) \<notin> {None, Some []} then Some (s, None) else None)"

subsection \<open>The rendered rows\<close>

text \<open>
  \<open>toLocaleDateString('en-US', ...)\<close> of a valid time: its text depends on the
  host's time zone, so it is a parameter, like the collation.
\<close>

type_synonym date_locale = "int \<Rightarrow> string"

text \<open>
  \<open>formatDate\<close>, lines 23--32: \<open>new Date(dateString)\<close>, then the locale's
  text; an invalid date prints as \<open>Invalid Date\<close> (ECMA-402,
  \<open>Date.prototype.toLocaleDateString\<close>).
\<close>

definition formatDate :: "date_locale \<Rightarrow> string \<Rightarrow> string" where
  "formatDate loc dateString =
     (case js_date_parse dateString of None \<Rightarrow> ''Invalid Date'' | Some t \<Rightarrow> loc t)"

text \<open>What a row shows (lines 101--140): its React key, the document, the date, the
  score with its class, and whether the PDF button is rendered.\<close>

record table_row =
  row_key :: string
  row_document :: string
  row_date :: string
  row_score_class :: string
  row_score :: js_number
  row_pdf_button :: bool

definition table_row_view :: "date_locale \<Rightarrow> analysis_result \<Rightarrow> table_row" where
  "table_row_view loc a =
     \<lparr>row_key = ar_id a, row_document = filename a, row_date = formatDate loc (uploadDate a),
      row_score_class = getScoreColorClass (riskScore a), row_score = riskScore a,
      row_pdf_button = (pdfUrl a \<notin> {None, Some []})\<rparr>"

text \<open>The body of the table (lines 100--141) and the empty-state block (lines 144--150).\<close>

definition table_view ::
  "collation \<Rightarrow> date_locale \<Rightarrow> table_state \<Rightarrow> analysis_result list \<Rightarrow> table_row list \<times> bool" where
  "table_view coll loc s analyses =
     (map (table_row_view loc) (table_rows coll s analyses), analyses = [])"

subsection \<open>The specification's buckets\<close>

text \<open>The badge class the table uses for each bucket of the specification.\<close>

primrec badge_class :: "severity \<Rightarrow> string" where
  "badge_class Sev_low = ''bg-green-100 text-green-800''"
| "badge_class Sev_medium = ''bg-yellow-100 text-yellow-800''"
| "badge_class Sev_high = ''bg-red-100 text-red-800''"

text \<open>ECMAScript's \<open><\<close> on strings: lexicographic order of the code units.\<close>

fun js_string_compare :: collation where
  "js_string_compare [] [] = 0"
| "js_string_compare [] (_ # _) = -1"
| "js_string_compare (_ # _) [] = 1"
| "js_string_compare (x # xs) (y # ys) =
     (if of_char x < (of_char y :: nat) then -1
      else if of_char y < (of_char x :: nat) then 1 else js_string_compare xs ys)"

subsection \<open>Sample rows\<close>

definition sample_row_a :: analysis_result where
  "sample_row_a =
     \<lparr>ar_id = ''a'', filename = ''Ladder.pdf'', uploadDate = iso_format 1000, riskScore = 45,
      topRisks = [], extractedText = ''unsafe ladder'', pdfUrl = None, fileId = ''a'',
      gptFeedback = None\<rparr>"

definition sample_row_b :: analysis_result where
  "sample_row_b =
     \<lparr>ar_id = ''b'', filename = ''crane.pdf'', uploadDate = iso_format 2000, riskScore = 80,
      topRisks = [], extractedText = ''hydraulic leak'', pdfUrl = Some ''http://x/b.pdf'', fileId = ''b'',
      gptFeedback = Some ''Replace the hose.''\<rparr>"

subsection \<open>Sorting lemmas\<close>

lemma mset_js_insort [simp]: "mset (js_insort c x xs) = add_mset x (mset xs)"
  by (induction xs) auto

lemma mset_js_sort [simp]: "mset (js_sort c xs) = mset xs"
  by (induction xs) (simp_all add: js_sort_def)

lemma set_js_sort [simp]: "set (js_sort c xs) = set xs"
  by (metis mset_js_sort set_mset_mset)

lemma js_sort_Cons: "js_sort c (x # xs) = js_insort c x (js_sort c xs)"
  by (simp add: js_sort_def)

lemma js_insort_eq_insort_key:
  "\<forall>y\<in>set ys. sort_le (c x y) \<longleftrightarrow> k x \<le> k y \<Longrightarrow> js_insort c x ys = insort_key k x ys"
  by (induction ys) auto

lemma js_sort_eq_sort_key:
  "\<forall>x\<in>set xs. \<forall>y\<in>set xs. sort_le (c x y) \<longleftrightarrow> k x \<le> k y \<Longrightarrow> js_sort c xs = sort_key k xs"
proof (induction xs)
  case Nil
  then show ?case by (simp add: js_sort_def)
next
  case (Cons x xs)
  then have "js_sort c xs = sort_key k xs" by simp
  moreover have "\<forall>y\<in>set (sort_key k xs). sort_le (c x y) \<longleftrightarrow> k x \<le> k y"
    using Cons.prems by simp
  ultimately show ?case
    by (simp add: js_sort_Cons js_insort_eq_insort_key)
qed

lemma js_insort_successively:
  assumes total: "\<forall>y. \<not> sort_le (c x y) \<longrightarrow> sort_le (c y x)"
  shows "successively (\<lambda>u v. sort_le (c u v)) ys \<Longrightarrow>
         successively (\<lambda>u v. sort_le (c u v)) (js_insort c x ys)"
proof (induction ys)
  case Nil
  then show ?case by simp
next
  case (Cons y ys)
  show ?case
  proof (cases "sort_le (c x y)")
    case True
    with Cons.prems show ?thesis by simp
  next
    case False
    with total have yx: "sort_le (c y x)" by blast
    from Cons.prems have ys: "successively (\<lambda>u v. sort_le (c u v)) ys"
      by (cases ys) auto
    from Cons.IH [OF ys] have ih: "successively (\<lambda>u v. sort_le (c u v)) (js_insort c x ys)" .
    show ?thesis
    proof (cases ys)
      case Nil
      with False yx show ?thesis by simp
    next
      case (Cons z zs)
      with False yx ih Cons.prems show ?thesis
        by (auto simp: \<open>ys = z # zs\<close>)
    qed
  qed
qed

lemma js_sort_successively:
  "\<forall>x y. \<not> sort_le (c x y) \<longrightarrow> sort_le (c y x) \<Longrightarrow>
   successively (\<lambda>u v. sort_le (c u v)) (js_sort c xs)"
  by (induction xs) (simp_all add: js_sort_def js_insort_successively)

lemma js_insort_head:
  "sort_le (c x y) \<Longrightarrow> js_insort c x (y # ys) = x # y # ys"
  by simp

lemma js_sort_fixpoint:
  "successively (\<lambda>u v. sort_le (c u v)) xs \<Longrightarrow> js_sort c xs = xs"
proof (induction xs)
  case Nil
  then show ?case by (simp add: js_sort_def)
next
  case (Cons x xs)
  then have ih: "js_sort c xs = xs" by (cases xs) auto
  show ?case
  proof (cases xs)
    case Nil
    then show ?thesis by (simp add: js_sort_def)
  next
    case (Cons y ys)
    with Cons.prems have "sort_le (c x y)" by simp
    with ih Cons show ?thesis by (simp add: js_sort_Cons)
  qed
qed

lemma js_sort_idem:
  "\<forall>x y. \<not> sort_le (c x y) \<longrightarrow> sort_le (c y x) \<Longrightarrow> js_sort c (js_sort c xs) = js_sort c xs"
  by (rule js_sort_fixpoint) (rule js_sort_successively)

lemma sort_compare_total:
  assumes "\<forall>u v. 0 < coll u v \<longrightarrow> coll v u \<le> 0"
  shows "\<not> sort_le (sort_compare coll s a b) \<longrightarrow> sort_le (sort_compare coll s b a)"
  using assms
  by (auto simp: sort_compare_def sort_le_def time_diff_def Let_def split: option.splits)

lemma js_string_compare_antisym: "js_string_compare v u = - js_string_compare u v"
  by (induction u v rule: js_string_compare.induct) auto

lemma js_string_compare_sign: "\<forall>u v. 0 < js_string_compare u v \<longrightarrow> js_string_compare v u \<le> 0"
proof (intro allI impI)
  fix u v :: string
  assume "0 < js_string_compare u v"
  then show "js_string_compare v u \<le> 0"
    using js_string_compare_antisym [of v u] by simp
qed

lemma sample_rows_dates:
  "js_date_parse (uploadDate sample_row_a) = Some 1000"
  "js_date_parse (uploadDate sample_row_b) = Some 2000"
  by (simp_all add: sample_row_a_def sample_row_b_def js_date_parse_iso_format max_time_value_def)

subsection \<open>Properties of the table\<close>

text \<open>
  Claim C9. Sorted by risk score, the table is the library's stable sort by the
  score, ascending, or by its negation, descending: \<open>Array.prototype.sort\<close> with
  the comparator \<open>a - b\<close> (or \<open>b - a\<close>) is \<open>sort_key\<close>.
\<close>

theorem table_rows_riskScore:
  "sortField s = F_riskScore \<Longrightarrow>
   table_rows coll s xs = sort_key (\<lambda>a. if sortDirection s = Asc then riskScore a else - riskScore a) xs"
  unfolding table_rows_def
  by (rule js_sort_eq_sort_key) (auto simp: sort_compare_def sort_le_def)

theorem table_rows_riskScore_witness:
  "table_rows js_string_compare \<lparr>sortField = F_riskScore, sortDirection = Desc\<rparr> [sample_row_a, sample_row_b]
   = [sample_row_b, sample_row_a]"
  using table_rows_riskScore [of "\<lparr>sortField = F_riskScore, sortDirection = Desc\<rparr>" js_string_compare
      "[sample_row_a, sample_row_b]"]
  by (simp add: sample_row_a_def sample_row_b_def)

text \<open>
  Claim C10. Sorted by upload date, when every date parses, the table is the
  library's stable sort by the parsed instant (negated for descending order).
\<close>

theorem table_rows_uploadDate:
  assumes field: "sortField s = F_uploadDate"
    and valid: "\<forall>a\<in>set xs. js_date_parse (uploadDate a) \<noteq> None"
  shows "table_rows coll s xs =
     sort_key (\<lambda>a. if sortDirection s = Asc then the (js_date_parse (uploadDate a))
                    else - the (js_date_parse (uploadDate a))) xs"
  unfolding table_rows_def
proof (rule js_sort_eq_sort_key, intro ballI)
  fix x y
  assume "x \<in> set xs" "y \<in> set xs"
  with valid obtain tx ty where "js_date_parse (uploadDate x) = Some tx"
    and "js_date_parse (uploadDate y) = Some ty"
    by blast
  with field show "sort_le (sort_compare coll s x y) \<longleftrightarrow>
      (if sortDirection s = Asc then the (js_date_parse (uploadDate x)) else - the (js_date_parse (uploadDate x)))
      \<le> (if sortDirection s = Asc then the (js_date_parse (uploadDate y)) else - the (js_date_parse (uploadDate y)))"
    by (simp add: sort_compare_def sort_le_def time_diff_def)
qed

theorem table_rows_uploadDate_witness:
  "table_rows js_string_compare table_init [sample_row_a, sample_row_b] = [sample_row_b, sample_row_a]"
proof -
  have "\<forall>a\<in>set [sample_row_a, sample_row_b]. js_date_parse (uploadDate a) \<noteq> None"
    by (simp add: sample_rows_dates)
  from table_rows_uploadDate [of table_init, OF _ this] show ?thesis
    by (simp add: table_init_def sample_rows_dates)
qed

text \<open>
  Claim C11. Sorting twice with the same state gives the same rows as sorting once,
  for every collation whose sign is antisymmetric (as \<open>localeCompare\<close>'s is):
  the sorted rows are ordered, and \<open>sort\<close> leaves ordered rows in place.
\<close>

theorem table_rows_idempotent:
  "\<forall>u v. 0 < coll u v \<longrightarrow> coll v u \<le> 0 \<Longrightarrow>
   table_rows coll s (table_rows coll s xs) = table_rows coll s xs"
  unfolding table_rows_def by (rule js_sort_idem) (blast intro: sort_compare_total [rule_format])

theorem table_rows_idempotent_witness:
  "table_rows js_string_compare \<lparr>sortField = F_filename, sortDirection = Asc\<rparr>
     (table_rows js_string_compare \<lparr>sortField = F_filename, sortDirection = Asc\<rparr> [sample_row_a, sample_row_b])
   = table_rows js_string_compare \<lparr>sortField = F_filename, sortDirection = Asc\<rparr> [sample_row_a, sample_row_b]"
  by (rule table_rows_idempotent [OF js_string_compare_sign])

text \<open>
  Claim C12. Every click on a column header changes the sort state and sorts by
  that column; clicking the same header twice restores the state exactly when the
  table was already sorted by that column (the direction is toggled twice), and
  never otherwise.
\<close>

theorem handleSort_twice:
  "handleSort f s \<noteq> s \<and> sortField (handleSort f s) = f
   \<and> (handleSort f (handleSort f s) = s \<longleftrightarrow> sortField s = f)"
  by (cases "sortDirection s") (auto simp: handleSort_def dest: arg_cong [where f = sortDirection])

text \<open>
  C32. Refinement of the specification's buckets by the table: the colour class of
  a score is the badge of its bucket (below 30 low, below 70 medium, otherwise
  high), boundaries 30 and 70 included.
\<close>

theorem getScoreColorClass_refines: "getScoreColorClass score = badge_class (severity_of_score score)"
  by (simp add: getScoreColorClass_def severity_of_score_def)

end
