(* ===== verification/Risk_Score.thy ===== *)
theory Risk_Score
  imports Types
begin

text \<open>
  The risk panel of \<open>src/safeworkai/src/components/RiskScore.tsx\<close>. The page shows
  it with the selected analysis's score (\<open>HomePage.tsx\<close>, line 110). The panel
  keeps one piece of state, \<open>animatedScore\<close> (line 9, initially 0), and an effect
  (lines 11--23) that, on mount and whenever the \<open>score\<close> prop changes, clears the
  previous interval and starts one that moves \<open>animatedScore\<close> one unit towards
  \<open>score\<close> every 20 ms and clears itself once they are equal. The colour, bar and
  level text (lines 26--44) and the badge (lines 74--80) read \<open>animatedScore\<close>;
  \<open>risk_panel_view\<close> collects what the render (lines 54--83) displays.

  The state \<open>risk_anim\<close> holds \<open>animatedScore\<close>, the score the running effect
  closed over (\<open>effect_score\<close>), and whether its interval is set. A \<open>Tick\<close> is
  one period of the interval; \<open>Rerender\<close> is a render with a (possibly new)
  \<open>score\<close> prop, which re-runs the effect only when the score differs from the
  last one (React compares dependencies with \<open>Object.is\<close>, equality on these
  numbers).
\<close>

subsection \<open>State and operations\<close>

record risk_anim =
  animatedScore :: js_number
  effect_score :: js_number
  interval_running :: bool

text \<open>Mount (lines 9--23): \<open>useState(0)\<close>, then the effect starts an interval.\<close>

definition risk_mount :: "js_number \<Rightarrow> risk_anim" where
  "risk_mount score = \<lparr>animatedScore = 0, effect_score = score, interval_running = True\<rparr>"

text \<open>
  The updater of lines 14--19: the next value, and whether the interval is still
  set afterwards (\<open>clearInterval\<close> on line 17).
\<close>

definition anim_update :: "js_number \<Rightarrow> js_number \<Rightarrow> js_number \<times> bool" where
  "anim_update score prev =
     (if prev < score then (prev + 1, True)
      else if prev > score then (prev - 1, True)
      else (prev, False))"

text \<open>One period of the interval; nothing happens once it is cleared.\<close>

definition risk_tick :: "risk_anim \<Rightarrow> risk_anim" where
  "risk_tick s =
     (if interval_running s
      then (case anim_update (effect_score s) (animatedScore s) of
              (v, running) \<Rightarrow> s\<lparr>animatedScore := v, interval_running := running\<rparr>)
      else s)"

text \<open>
  A render with the prop \<open>score\<close>: if it changed, the cleanup (line 22) clears the
  old interval and the effect starts a new one for the new score; the state
  \<open>animatedScore\<close> is kept, as the component stays mounted.
\<close>

definition risk_rerender :: "js_number \<Rightarrow> risk_anim \<Rightarrow> risk_anim" where
  "risk_rerender score s =
     (if score = effect_score s then s
      else s\<lparr>effect_score := score, interval_running := True\<rparr>)"

datatype risk_event = Tick | Rerender js_number

primrec risk_step :: "risk_anim \<Rightarrow> risk_event \<Rightarrow> risk_anim" where
  "risk_step s Tick = risk_tick s"
| "risk_step s (Rerender score) = risk_rerender score s"

definition risk_run :: "risk_anim \<Rightarrow> risk_event list \<Rightarrow> risk_anim" where
  "risk_run s evs = foldl risk_step s evs"

inductive risk_reachable :: "risk_anim \<Rightarrow> bool" where
  mount: "risk_reachable (risk_mount score)"
| step: "risk_reachable s \<Longrightarrow> risk_reachable (risk_step s e)"

subsection \<open>What the panel shows\<close>

text \<open>\<open>getScoreColor\<close>, lines 26--30.\<close>

definition getScoreColor :: "risk_anim \<Rightarrow> string" where
  "getScoreColor s =
     (if animatedScore s < 30 then ''text-green-600''
      else if animatedScore s < 70 then ''text-yellow-600''
      else ''text-red-600'')"

text \<open>\<open>getBarColor\<close>, lines 33--37.\<close>

definition getBarColor :: "risk_anim \<Rightarrow> string" where
  "getBarColor s =
     (if animatedScore s < 30 then ''bg-green-500''
      else if animatedScore s < 70 then ''bg-yellow-500''
      else ''bg-red-500'')"

text \<open>\<open>getRiskLevel\<close>, lines 40--44.\<close>

definition getRiskLevel :: "risk_anim \<Rightarrow> string" where
  "getRiskLevel s =
     (if animatedScore s < 30 then ''Low Risk''
      else if animatedScore s < 70 then ''Medium Risk''
      else ''High Risk'')"

text \<open>The class of the level badge, lines 74--80.\<close>

definition risk_badge_class :: "risk_anim \<Rightarrow> string" where
  "risk_badge_class s =
     (if animatedScore s < 30 then ''bg-green-100 text-green-800''
      else if animatedScore s < 70 then ''bg-yellow-100 text-yellow-800''
      else ''bg-red-100 text-red-800'')"

text \<open>
  What the panel's body shows (lines 54--83): the number, its colour, the bar's
  width in percent (line 63) and colour, the badge's class and the level text.
\<close>

record panel_display =
  shown_score :: js_number
  shown_score_class :: string
  bar_width_percent :: js_number
  bar_class :: string
  level_badge_class :: string
  level_text :: string

definition risk_panel_view :: "risk_anim \<Rightarrow> panel_display" where
  "risk_panel_view s =
     \<lparr>shown_score = animatedScore s, shown_score_class = getScoreColor s,
      bar_width_percent = animatedScore s, bar_class = getBarColor s,
      level_badge_class = risk_badge_class s, level_text = getRiskLevel s\<rparr>"

text \<open>
  The panel per bucket of the specification (section 4.2): level text, text
  colour, bar colour and badge class.
\<close>

primrec panel_view :: "severity \<Rightarrow> string \<times> string \<times> string \<times> string" where
  "panel_view Sev_low = (''Low Risk'', ''text-green-600'', ''bg-green-500'', ''bg-green-100 text-green-800'')"
| "panel_view Sev_medium = (''Medium Risk'', ''text-yellow-600'', ''bg-yellow-500'', ''bg-yellow-100 text-yellow-800'')"
| "panel_view Sev_high = (''High Risk'', ''text-red-600'', ''bg-red-500'', ''bg-red-100 text-red-800'')"

text \<open>Scores the specification allows (section 4.2: an integer in [0, 100]).\<close>

primrec score_in_range :: "risk_event \<Rightarrow> bool" where
  "score_in_range Tick = True"
| "score_in_range (Rerender q) = (0 \<le> q \<and> q \<le> 100)"

subsection \<open>One tick\<close>

lemma risk_mount_simps [simp]:
  "animatedScore (risk_mount score) = 0" "effect_score (risk_mount score) = score"
  "interval_running (risk_mount score)"
  by (simp_all add: risk_mount_def)

lemma risk_rerender_effect [simp]: "effect_score (risk_rerender score s) = score"
  by (simp add: risk_rerender_def)

lemma risk_tick_effect [simp]: "effect_score (risk_tick s) = effect_score s"
  by (simp add: risk_tick_def split: prod.split)

lemma risk_reachable_rerender: "risk_reachable s \<Longrightarrow> risk_reachable (risk_rerender score s)"
  using risk_reachable.step [of s "Rerender score"] by simp

lemma risk_reachable_tick: "risk_reachable s \<Longrightarrow> risk_reachable (risk_tick s)"
  using risk_reachable.step [of s Tick] by simp

lemma risk_tick_up [simp]:
  "interval_running s \<Longrightarrow> animatedScore s < effect_score s
   \<Longrightarrow> risk_tick s = s\<lparr>animatedScore := animatedScore s + 1\<rparr>"
  by (simp add: risk_tick_def anim_update_def)

lemma risk_tick_down [simp]:
  "interval_running s \<Longrightarrow> effect_score s < animatedScore s
   \<Longrightarrow> risk_tick s = s\<lparr>animatedScore := animatedScore s - 1\<rparr>"
  by (simp add: risk_tick_def anim_update_def)

lemma risk_tick_stop [simp]:
  "animatedScore s = effect_score s \<Longrightarrow> risk_tick s = s\<lparr>interval_running := False\<rparr>"
  by (simp add: risk_tick_def anim_update_def)

lemma risk_tick_idle [simp]: "\<not> interval_running s \<Longrightarrow> risk_tick s = s"
  by (simp add: risk_tick_def)

lemma risk_ticks_up:
  "interval_running s \<Longrightarrow> effect_score s = animatedScore s + of_nat n
   \<Longrightarrow> (risk_tick ^^ n) s = s\<lparr>animatedScore := effect_score s\<rparr>"
proof (induction n arbitrary: s)
  case 0
  then show ?case by simp
next
  case (Suc n)
  let ?s = "s\<lparr>animatedScore := animatedScore s + 1\<rparr>"
  have "risk_tick s = ?s" using Suc.prems by simp
  moreover have "(risk_tick ^^ n) ?s = ?s\<lparr>animatedScore := effect_score s\<rparr>"
    using Suc.IH [of ?s] Suc.prems by simp
  ultimately show ?case by (simp add: funpow_Suc_right del: funpow.simps)
qed

lemma risk_ticks_partial:
  "interval_running s \<Longrightarrow> animatedScore s + of_nat n \<le> effect_score s
   \<Longrightarrow> (risk_tick ^^ n) s = s\<lparr>animatedScore := animatedScore s + of_nat n\<rparr>"
proof (induction n arbitrary: s)
  case 0
  then show ?case by simp
next
  case (Suc n)
  let ?s = "s\<lparr>animatedScore := animatedScore s + 1\<rparr>"
  have "risk_tick s = ?s" using Suc.prems by simp
  moreover have "(risk_tick ^^ n) ?s = ?s\<lparr>animatedScore := animatedScore ?s + of_nat n\<rparr>"
    using Suc.IH [of ?s] Suc.prems by simp
  ultimately show ?case by (simp add: funpow_Suc_right add.assoc del: funpow.simps)
qed

lemma risk_ticks_down:
  "interval_running s \<Longrightarrow> animatedScore s = effect_score s + of_nat n
   \<Longrightarrow> (risk_tick ^^ n) s = s\<lparr>animatedScore := effect_score s\<rparr>"
proof (induction n arbitrary: s)
  case 0
  then show ?case by simp
next
  case (Suc n)
  let ?s = "s\<lparr>animatedScore := animatedScore s - 1\<rparr>"
  have "risk_tick s = ?s" using Suc.prems by simp
  moreover have "(risk_tick ^^ n) ?s = ?s\<lparr>animatedScore := effect_score s\<rparr>"
    using Suc.IH [of ?s] Suc.prems by simp
  ultimately show ?case by (simp add: funpow_Suc_right del: funpow.simps)
qed

lemma risk_tick_fractional:
  assumes "interval_running s" "animatedScore s \<in> \<int>" "effect_score s \<notin> \<int>"
  shows "interval_running (risk_tick s) \<and> animatedScore (risk_tick s) \<in> \<int>
         \<and> effect_score (risk_tick s) = effect_score s"
proof -
  have "animatedScore s \<noteq> effect_score s" using assms(2,3) by auto
  then consider "animatedScore s < effect_score s" | "effect_score s < animatedScore s"
    by linarith
  then show ?thesis using assms(1,2) by cases simp_all
qed

lemma risk_ticks_fractional:
  assumes "interval_running s" "animatedScore s \<in> \<int>" "effect_score s \<notin> \<int>"
  shows "interval_running ((risk_tick ^^ n) s) \<and> animatedScore ((risk_tick ^^ n) s) \<in> \<int>
         \<and> effect_score ((risk_tick ^^ n) s) = effect_score s"
  using assms
proof (induction n)
  case 0
  then show ?case by simp
next
  case (Suc n)
  then show ?case using risk_tick_fractional [of "(risk_tick ^^ n) s"] by simp
qed

lemma risk_step_invariant:
  assumes "animatedScore s \<in> \<int>" "\<not> interval_running s \<longrightarrow> animatedScore s = effect_score s"
  shows "animatedScore (risk_step s e) \<in> \<int>
         \<and> (\<not> interval_running (risk_step s e) \<longrightarrow> animatedScore (risk_step s e) = effect_score (risk_step s e))"
proof (cases e)
  case Tick
  consider "\<not> interval_running s" | "animatedScore s = effect_score s"
    | "interval_running s" "animatedScore s < effect_score s"
    | "interval_running s" "effect_score s < animatedScore s"
    by linarith
  then show ?thesis using assms Tick by cases simp_all
next
  case (Rerender q)
  then show ?thesis using assms by (simp add: risk_rerender_def)
qed

lemma risk_reachable_invariant:
  "risk_reachable s \<Longrightarrow>
     animatedScore s \<in> \<int> \<and> (\<not> interval_running s \<longrightarrow> animatedScore s = effect_score s)"
proof (induction rule: risk_reachable.induct)
  case (mount score)
  then show ?case by (simp add: risk_mount_def)
next
  case (step s e)
  then show ?case using risk_step_invariant by blast
qed

lemma risk_step_in_range:
  assumes "animatedScore s \<in> \<int>" "0 \<le> animatedScore s" "animatedScore s \<le> 100"
    and "0 \<le> effect_score s" "effect_score s \<le> 100" "score_in_range e"
  shows "animatedScore (risk_step s e) \<in> \<int> \<and> 0 \<le> animatedScore (risk_step s e)
         \<and> animatedScore (risk_step s e) \<le> 100
         \<and> 0 \<le> effect_score (risk_step s e) \<and> effect_score (risk_step s e) \<le> 100"
proof (cases e)
  case Tick
  have up: "animatedScore s + 1 \<le> 100" if "animatedScore s < effect_score s"
    using Ints_less_add1 [of "animatedScore s" 100] assms(1,5) that by simp
  have down: "0 + 1 \<le> animatedScore s" if "effect_score s < animatedScore s"
    using Ints_less_add1 [of 0 "animatedScore s"] assms(1,4) that by simp
  consider "\<not> interval_running s" | "animatedScore s = effect_score s"
    | "interval_running s" "animatedScore s < effect_score s"
    | "interval_running s" "effect_score s < animatedScore s"
    by linarith
  then show ?thesis using assms Tick up down by cases simp_all
next
  case (Rerender q)
  then show ?thesis using assms by (simp add: risk_rerender_def)
qed

lemma risk_tick_converges:
  assumes "interval_running s" and "effect_score s - animatedScore s \<in> \<int>"
  shows "(risk_tick ^^ Suc (nat \<bar>\<lfloor>effect_score s - animatedScore s\<rfloor>\<bar>)) s
           = s\<lparr>animatedScore := effect_score s, interval_running := False\<rparr>"
proof -
  let ?k = "\<lfloor>effect_score s - animatedScore s\<rfloor>"
  have d: "effect_score s - animatedScore s = of_int ?k"
    using assms(2) by (simp add: floor_of_int Ints_cases) 
  have "(risk_tick ^^ nat \<bar>?k\<bar>) s = s\<lparr>animatedScore := effect_score s\<rparr>"
  proof (cases "0 \<le> ?k")
    case True
    then have "effect_score s = animatedScore s + of_nat (nat \<bar>?k\<bar>)"
      using d by simp
    then show ?thesis using assms(1) by (rule risk_ticks_up [rotated])
  next
    case False
    then have "animatedScore s = effect_score s + of_nat (nat \<bar>?k\<bar>)"
      using d by simp
    then show ?thesis using assms(1) by (rule risk_ticks_down [rotated])
  qed
  then show ?thesis by simp
qed

lemma risk_run_in_range_aux:
  assumes "animatedScore s \<in> \<int>" "0 \<le> animatedScore s" "animatedScore s \<le> 100"
    and "0 \<le> effect_score s" "effect_score s \<le> 100" "list_all score_in_range evs"
  shows "0 \<le> animatedScore (foldl risk_step s evs) \<and> animatedScore (foldl risk_step s evs) \<le> 100"
  using assms
proof (induction evs arbitrary: s)
  case Nil
  then show ?case by simp
next
  case (Cons e evs)
  then show ?case using risk_step_in_range [of s e] by simp
qed

lemma frac_91_2_not_Ints: "(91 / 2 :: js_number) \<notin> \<int>"
proof
  assume "(91 / 2 :: js_number) \<in> \<int>"
  then obtain k where "(91 / 2 :: js_number) = of_int k" by (auto elim: Ints_cases)
  then have "(of_int 91 :: js_number) = of_int (2 * k)" by simp
  then have "(91::int) = 2 * k" by (simp only: of_int_eq_iff)
  then show False by presburger
qed

subsection \<open>Properties of the animation\<close>

text \<open>
  C13. The animation of a mounted panel stops, at some tick, exactly when its
  score is a whole number: a fractional score (which the server may send; the
  specification says integer) keeps the interval running for ever, the
  displayed value flickering between the two integers around it.
\<close>

theorem risk_animation_stops_iff:
  assumes "risk_reachable s"
  shows "(\<exists>n. \<not> interval_running ((risk_tick ^^ n) s)) \<longleftrightarrow> effect_score s \<in> \<int>"
proof
  assume "\<exists>n. \<not> interval_running ((risk_tick ^^ n) s)"
  then obtain n where n: "\<not> interval_running ((risk_tick ^^ n) s)" ..
  have inv: "animatedScore s \<in> \<int>" "\<not> interval_running s \<longrightarrow> animatedScore s = effect_score s"
    using risk_reachable_invariant [OF assms] by simp_all
  show "effect_score s \<in> \<int>"
  proof (rule ccontr)
    assume frac: "effect_score s \<notin> \<int>"
    show False
    proof (cases "interval_running s")
      case True
      then show False using risk_ticks_fractional [OF True inv(1) frac, of n] n by simp
    next
      case False
      then show False using inv frac by simp
    qed
  qed
next
  assume int: "effect_score s \<in> \<int>"
  show "\<exists>n. \<not> interval_running ((risk_tick ^^ n) s)"
  proof (cases "interval_running s")
    case True
    have "effect_score s - animatedScore s \<in> \<int>"
      using int risk_reachable_invariant [OF assms] by simp
    then have "\<not> interval_running
                 ((risk_tick ^^ Suc (nat \<bar>\<lfloor>effect_score s - animatedScore s\<rfloor>\<bar>)) s)"
      using risk_tick_converges [OF True] by (simp del: funpow.simps)
    then show ?thesis ..
  next
    case False
    then show ?thesis by (intro exI [of _ 0]) simp
  qed
qed

theorem risk_animation_stops_iff_witness:
  "risk_reachable (risk_mount (91 / 2))
   \<and> (\<forall>n. interval_running ((risk_tick ^^ n) (risk_mount (91 / 2))))"
proof -
  have r: "risk_reachable (risk_mount (91 / 2))" by (rule risk_reachable.mount)
  show ?thesis
    using risk_animation_stops_iff [OF r] frac_91_2_not_Ints r by (simp add: risk_mount_def)
qed

text \<open>
  C14. Once the score is a whole number, a running animation reaches it and
  clears its interval after one tick per unit of distance, plus the tick that
  sees them equal.
\<close>

theorem risk_reachable_converges:
  assumes "risk_reachable s" "interval_running s" "effect_score s \<in> \<int>"
  shows "(risk_tick ^^ Suc (nat \<bar>\<lfloor>effect_score s - animatedScore s\<rfloor>\<bar>)) s
           = s\<lparr>animatedScore := effect_score s, interval_running := False\<rparr>"
proof -
  have "effect_score s - animatedScore s \<in> \<int>"
    using assms(3) risk_reachable_invariant [OF assms(1)] by simp
  then show ?thesis using risk_tick_converges [OF assms(2)] by blast
qed

theorem risk_reachable_converges_witness:
  "risk_reachable (risk_mount 45) \<and> interval_running (risk_mount 45)
   \<and> (risk_tick ^^ 46) (risk_mount 45)
       = \<lparr>animatedScore = 45, effect_score = 45, interval_running = False\<rparr>"
proof -
  have r: "risk_reachable (risk_mount 45)" by (rule risk_reachable.mount)
  show ?thesis using risk_reachable_converges [OF r] r by (simp add: risk_mount_def)
qed

text \<open>
  C15. Bounds: if the panel is mounted with a score in [0, 100] and every later
  score is in [0, 100], the displayed value (and the bar's width in percent)
  stays in [0, 100] whatever the order of ticks and renders.
\<close>

theorem risk_run_in_range:
  assumes "0 \<le> score" "score \<le> 100" "list_all score_in_range evs"
  shows "0 \<le> animatedScore (risk_run (risk_mount score) evs)
         \<and> animatedScore (risk_run (risk_mount score) evs) \<le> 100"
  using risk_run_in_range_aux [of "risk_mount score" evs] assms
  by (simp add: risk_run_def risk_mount_def)

theorem risk_run_in_range_witness:
  "0 \<le> (45::js_number) \<and> (45::js_number) \<le> 100
   \<and> list_all score_in_range [Tick, Rerender 80, Tick, Tick]
   \<and> 0 \<le> animatedScore (risk_run (risk_mount 45) [Tick, Rerender 80, Tick, Tick])"
  using risk_run_in_range [of 45 "[Tick, Rerender 80, Tick, Tick]"] by simp

text \<open>
  C16. Refinement of the specification's buckets: the level text, the number's
  colour, the bar's colour and the badge of the panel are those of the bucket of
  the displayed value (below 30 low, below 70 medium, otherwise high).
\<close>

theorem panel_view_refines:
  "(getRiskLevel s, getScoreColor s, getBarColor s, risk_badge_class s)
     = panel_view (severity_of_score (animatedScore s))"
  by (simp add: getRiskLevel_def getScoreColor_def getBarColor_def risk_badge_class_def
      severity_of_score_def)

text \<open>
  C33. While the panel counts up towards its score, the bucket it shows never
  goes down: a tick from a value not above the score shows a bucket at least as
  severe as before (low, then medium, then high).
\<close>

theorem risk_tick_bucket_rises:
  assumes "animatedScore s \<le> effect_score s"
  shows "severity_of_score (animatedScore s) \<le> severity_of_score (animatedScore (risk_tick s))"
proof -
  have "animatedScore s \<le> animatedScore (risk_tick s)"
    using assms by (cases "animatedScore s = effect_score s") (auto simp: risk_tick_def anim_update_def)
  then show ?thesis by (rule severity_of_score_mono)
qed

theorem risk_tick_bucket_rises_witness:
  "animatedScore (risk_mount 45 \<lparr>animatedScore := 29\<rparr>) \<le> effect_score (risk_mount 45 \<lparr>animatedScore := 29\<rparr>)
   \<and> severity_of_score (animatedScore (risk_tick (risk_mount 45 \<lparr>animatedScore := 29\<rparr>))) = Sev_medium"
proof -
  have h: "animatedScore (risk_mount 45 \<lparr>animatedScore := 29\<rparr>) \<le> effect_score (risk_mount 45 \<lparr>animatedScore := 29\<rparr>)"
    by simp
  have "Sev_low \<le> severity_of_score (animatedScore (risk_tick (risk_mount 45 \<lparr>animatedScore := 29\<rparr>)))"
    using risk_tick_bucket_rises [OF h] by (simp add: severity_of_score_def)
  moreover have "animatedScore (risk_tick (risk_mount 45 \<lparr>animatedScore := 29\<rparr>)) = 30"
    by (simp add: risk_mount_def)
  ultimately show ?thesis using h by (simp add: severity_of_score_def)
qed

end
