(* ===== verification/Text_Viewer.thy ===== *)
theory Text_Viewer
  imports Types
begin

text \<open>
  The text viewer of \<open>src/safeworkai/src/components/TextViewer.tsx\<close>: the
  highlighter \<open>highlightRisks\<close> (lines 13--30), which wraps every occurrence of a
  risk word in a \<open>span\<close>, line by line, the download handler (lines 32--36), and
  what the viewer renders from its props (lines 43--69), with the props the page
  passes (\<open>HomePage.tsx\<close>, lines 89--92).

  \<open>line.replace(pattern, r)\<close> with the global flag runs the matcher of ECMA-262
  22.2.5.11 (\<open>RegExp.prototype[@@replace]\<close>): from the start, find the first
  position where the pattern matches, record the match, continue after it (one
  position further after an empty match). \<open>alt_segments\<close> computes that
  list of matches as a segmentation of the line into unmatched characters
  (\<open>Plain\<close>) and matches (\<open>Marked\<close>); the replacement string \<open>r\<close>, with
  \<open>$1\<close> the first group, which is the whole match here, is \<open>render_segment\<close>.
  The pattern \<open>(t1|...|tn)\<close> under the flag \<open>i\<close> tries the alternatives in order
  and takes the first that matches (not the longest). The flag \<open>i\<close> compares
  characters after \<open>Canonicalize\<close>, which for an ASCII pattern character
  identifies exactly the ASCII capital and small letter; \<open>alt_match\<close> compares
  the \<open>toLowerCase\<close> of both sides, the same for the ASCII terms of the code.
\<close>

abbreviation newline :: char where
  "newline \<equiv> CHR 0x0A"

subsection \<open>The highlighter\<close>

text \<open>\<open>riskTerms\<close>, lines 14--18.\<close>

definition riskTerms :: "string list" where
  "riskTerms =
     [''hazard'', ''risk'', ''danger'', ''unsafe'', ''failure'', ''malfunction'',
      ''inadequate'', ''expired'', ''missing'', ''damaged'', ''broken'', ''leak'',
      ''worn'', ''outdated'', ''violation'', ''non-compliance'', ''deficiency'']"

text \<open>
  The alternation \<open>(t1|...|tn)\<close> with the flag \<open>i\<close>, tried at the start of
  \<open>s\<close>: the length of the match of the first alternative that matches.
\<close>

definition alt_match :: "string list \<Rightarrow> string \<Rightarrow> nat option" where
  "alt_match ts s =
     map_option length (find (\<lambda>w. js_toLowerCase (take (length w) s) = js_toLowerCase w) ts)"

datatype hl_segment = Plain char | Marked string

text \<open>The global matcher of \<open>String.prototype.replace\<close>.\<close>

function alt_segments :: "string list \<Rightarrow> string \<Rightarrow> hl_segment list" where
  "alt_segments ts s =
     (case alt_match ts s of
        None \<Rightarrow> (case s of [] \<Rightarrow> [] | c # cs \<Rightarrow> Plain c # alt_segments ts cs)
      | Some n \<Rightarrow>
          if n = 0 then Marked [] # (case s of [] \<Rightarrow> [] | c # cs \<Rightarrow> Plain c # alt_segments ts cs)
          else Marked (take n s) # alt_segments ts (drop n s))"
  by pat_completeness auto
termination
  by (relation "measure (\<lambda>(ts, s). length s)")
     (auto simp: alt_match_def find_Some_iff min_def neq_Nil_conv split: if_splits
       dest!: arg_cong [where f = length])

text \<open>The replacement string of lines 23--26, \<open>$1\<close> being the match.\<close>

definition highlight_open :: string where
  "highlight_open = ''<span class=\"bg-yellow-100 text-yellow-800 px-1 rounded\">''"

definition highlight_close :: string where
  "highlight_close = ''</span>''"

primrec render_segment :: "hl_segment \<Rightarrow> string" where
  "render_segment (Plain c) = [c]"
| "render_segment (Marked m) = highlight_open @ m @ highlight_close"

text \<open>\<open>highlightRisks\<close>, lines 13--30.\<close>

definition highlightRisks :: "string \<Rightarrow> string" where
  "highlightRisks text =
     js_join newline
       (map (\<lambda>line. concat (map render_segment (alt_segments riskTerms line)))
            (js_split newline text))"

primrec segment_text :: "hl_segment \<Rightarrow> string" where
  "segment_text (Plain c) = [c]"
| "segment_text (Marked m) = m"

subsection \<open>Props, title, body and download\<close>

text \<open>The props of \<open>TextViewer\<close> (lines 4--8); \<open>None\<close> is \<open>undefined\<close>.\<close>

record text_viewer_props =
  tv_text :: string
  tv_filename :: "string option"
  tv_fileId :: "string option"

text \<open>
  The props the page passes for the selected analysis (\<open>HomePage.tsx\<close>, lines
  89--92): the text and the file name; no \<open>fileId\<close>.
\<close>

definition viewer_props_of :: "analysis_result \<Rightarrow> text_viewer_props" where
  "viewer_props_of a = \<lparr>tv_text = extractedText a, tv_filename = Some (filename a), tv_fileId = None\<rparr>"

text \<open>The title, line 44: a file name is shown when it is truthy.\<close>

definition viewer_title :: "text_viewer_props \<Rightarrow> string" where
  "viewer_title p =
     (case tv_filename p of
        Some f \<Rightarrow> if f = [] then ''Extracted Text'' else ''Extracted Text from '' @ f
      | None \<Rightarrow> ''Extracted Text'')"

text \<open>
  The body, lines 60--69: the highlighted text, set as the inner HTML of the
  element, when the text is not empty; \<open>None\<close> is the placeholder
  ``No text extracted yet''.
\<close>

definition viewer_body :: "text_viewer_props \<Rightarrow> string option" where
  "viewer_body p = (if tv_text p = [] then None else Some (highlightRisks (tv_text p)))"

text \<open>The download button is rendered when \<open>fileId\<close> is truthy (line 48).\<close>

definition download_button_shown :: "text_viewer_props \<Rightarrow> bool" where
  "download_button_shown p = (case tv_fileId p of None \<Rightarrow> False | Some f \<Rightarrow> f \<noteq> [])"

text \<open>
  \<open>handleDownload\<close>, lines 32--36, with \<open>apiBaseUrl\<close> the build's
  \<open>VITE_API_BASE_URL\<close> (line 11, \<open>None\<close> when unset): the URL it opens, or
  \<open>None\<close> when it returns early.
\<close>

definition handleDownload :: "string option \<Rightarrow> text_viewer_props \<Rightarrow> string option" where
  "handleDownload apiBaseUrl p =
     (case (tv_fileId p, apiBaseUrl) of
        (Some f, Some b) \<Rightarrow> if f = [] \<or> b = [] then None else Some (b @ ''/download-report/'' @ f)
      | _ \<Rightarrow> None)"

declare alt_segments.simps [simp del]

text \<open>An analysis whose extracted text is markup with an event handler.\<close>

definition sample_xss_analysis :: analysis_result where
  "sample_xss_analysis =
     \<lparr>ar_id = ''f3'', filename = ''x.pdf'', uploadDate = ''1970-01-01T00:00:01.000Z'', riskScore = 0,
      topRisks = [], extractedText = ''<img src=x onerror=alert(1)>'', pdfUrl = None, fileId = ''f3'',
      gptFeedback = None\<rparr>"

subsection \<open>The matcher\<close>

lemma alt_match_Some:
  assumes "alt_match ts s = Some n"
  shows "\<exists>w\<in>set ts. n = length w \<and> n \<le> length s \<and> js_toLowerCase (take n s) = js_toLowerCase w"
proof -
  obtain w where w: "find (\<lambda>w. js_toLowerCase (take (length w) s) = js_toLowerCase w) ts = Some w"
    and n: "n = length w"
    using assms by (auto simp: alt_match_def)
  from w have "w \<in> set ts" and eq: "js_toLowerCase (take (length w) s) = js_toLowerCase w"
    by (auto simp: find_Some_iff)
  from eq have "length w \<le> length s" by (metis length_js_toLowerCase length_take min.absorb_iff2)
  with \<open>w \<in> set ts\<close> eq n show ?thesis by blast
qed

lemma alt_match_Nil: "alt_match ts [] = (if [] \<in> set ts then Some 0 else None)"
proof -
  have "(\<lambda>w. js_toLowerCase (take (length w) []) = js_toLowerCase w) = (\<lambda>w. w = [])"
    by (auto simp: fun_eq_iff js_toLowerCase_def)
  then show ?thesis by (induction ts) (auto simp: alt_match_def)
qed

lemma alt_segments_Nil [simp]: "[] \<notin> set ts \<Longrightarrow> alt_segments ts [] = []"
  by (simp add: alt_segments.simps alt_match_Nil)

lemma alt_match_pos: "[] \<notin> set ts \<Longrightarrow> alt_match ts s = Some n \<Longrightarrow> 0 < n"
  using alt_match_Some by fastforce

lemma alt_segments_text: "concat (map segment_text (alt_segments ts s)) = s"
  by (induction ts s rule: alt_segments.induct)
     (subst alt_segments.simps, auto split: option.split list.split)

lemma alt_segments_marked:
  "Marked m \<in> set (alt_segments ts s) \<Longrightarrow> \<exists>w\<in>set ts. js_toLowerCase m = js_toLowerCase w"
proof (induction ts s rule: alt_segments.induct)
  case (1 ts s)
  show ?case
  proof (cases "alt_match ts s")
    case None
    then have "alt_segments ts s = (case s of [] \<Rightarrow> [] | c # cs \<Rightarrow> Plain c # alt_segments ts cs)"
      by (simp add: alt_segments.simps)
    then show ?thesis using 1 None by (auto split: list.splits)
  next
    case (Some n)
    from alt_match_Some [OF Some] obtain w where
      w: "w \<in> set ts" "n = length w" "js_toLowerCase (take n s) = js_toLowerCase w" by blast
    show ?thesis
    proof (cases "n = 0")
      case True
      then have "alt_segments ts s
                   = Marked [] # (case s of [] \<Rightarrow> [] | c # cs \<Rightarrow> Plain c # alt_segments ts cs)"
        using Some by (simp add: alt_segments.simps)
      then show ?thesis using 1 Some True w by (auto split: list.splits intro: bexI [of _ w])
    next
      case False
      then have "alt_segments ts s = Marked (take n s) # alt_segments ts (drop n s)"
        using Some by (simp add: alt_segments.simps)
      then show ?thesis using 1 Some False w by auto
    qed
  qed
qed

lemma alt_segments_leftmost:
  "[] \<notin> set ts \<Longrightarrow> alt_segments ts s = pre @ Plain c # post
   \<Longrightarrow> alt_match ts (c # concat (map segment_text post)) = None"
proof (induction ts s arbitrary: pre rule: alt_segments.induct)
  case (1 ts s)
  show ?case
  proof (cases "alt_match ts s")
    case None
    show ?thesis
    proof (cases s)
      case Nil
      then show ?thesis using "1.prems"(2) None by (simp add: alt_segments.simps)
    next
      case (Cons x xs)
      then have segs: "alt_segments ts s = Plain x # alt_segments ts xs"
        using None by (simp add: alt_segments.simps)
      show ?thesis
      proof (cases pre)
        case Nil
        then show ?thesis using "1.prems"(2) segs None Cons alt_segments_text [of ts xs] by simp
      next
        case (Cons g pre')
        then show ?thesis using "1.IH"(1) [OF None \<open>s = x # xs\<close> "1.prems"(1), of pre'] "1.prems"(2) segs by simp
      qed
    qed
  next
    case (Some n)
    then have "0 < n" using alt_match_pos "1.prems"(1) by blast
    then have segs: "alt_segments ts s = Marked (take n s) # alt_segments ts (drop n s)"
      using Some by (simp add: alt_segments.simps)
    then obtain pre' where "pre = Marked (take n s) # pre'"
      using "1.prems"(2) by (cases pre) auto
    then show ?thesis using "1.IH"(3) [OF Some _ "1.prems"(1), of pre'] "1.prems"(2) segs \<open>0 < n\<close> by simp
  qed
qed

subsection \<open>Lines\<close>

lemma js_lower_char_newline [simp]: "js_lower_char x = newline \<longleftrightarrow> x = newline"
proof
  assume "js_lower_char x = newline"
  then show "x = newline"
    by (auto simp: js_lower_char_def Let_def split: if_splits
        dest!: arg_cong [where f = "of_char :: char \<Rightarrow> nat"])
qed (simp add: js_lower_char_def)

lemma ci_prefix_sep:
  assumes "newline \<notin> set w"
  shows "(js_toLowerCase (take (length w) (a @ newline # b)) = js_toLowerCase w)
         \<longleftrightarrow> (js_toLowerCase (take (length w) a) = js_toLowerCase w)"
proof (cases "length w \<le> length a")
  case True
  then show ?thesis by simp
next
  case False
  have r: "js_toLowerCase (take (length w) a) \<noteq> js_toLowerCase w"
  proof
    assume "js_toLowerCase (take (length w) a) = js_toLowerCase w"
    then have "length (take (length w) a) = length w" by (metis length_js_toLowerCase)
    with False show False by simp
  qed
  have l: "js_toLowerCase (take (length w) (a @ newline # b)) \<noteq> js_toLowerCase w"
  proof
    assume eq: "js_toLowerCase (take (length w) (a @ newline # b)) = js_toLowerCase w"
    have "js_toLowerCase (take (length w) (a @ newline # b)) ! length a = newline"
      using False by (simp add: js_toLowerCase_def nth_append)
    then have "js_lower_char (w ! length a) = newline"
      using eq False by (simp add: js_toLowerCase_def)
    then have "newline \<in> set w" using False by (metis js_lower_char_newline not_le nth_mem)
    with assms show False by simp
  qed
  from l r show ?thesis by simp
qed

lemma alt_match_sep:
  assumes "\<forall>w\<in>set ts. newline \<notin> set w"
  shows "alt_match ts (a @ newline # b) = alt_match ts a"
proof -
  have "find (\<lambda>w. js_toLowerCase (take (length w) (a @ newline # b)) = js_toLowerCase w) ts
        = find (\<lambda>w. js_toLowerCase (take (length w) a) = js_toLowerCase w) ts"
    by (rule find_cong [OF refl], rule ci_prefix_sep) (use assms in blast)
  then show ?thesis by (simp only: alt_match_def)
qed

lemma alt_segments_sep:
  assumes "\<forall>w\<in>set ts. w \<noteq> [] \<and> newline \<notin> set w"
  shows "alt_segments ts (a @ newline # b) = alt_segments ts a @ Plain newline # alt_segments ts b"
  using assms
proof (induction ts a rule: alt_segments.induct)
  case (1 ts a)
  have ne: "[] \<notin> set ts" using "1.prems" by blast
  have m: "alt_match ts (a @ newline # b) = alt_match ts a"
    using "1.prems" alt_match_sep by blast
  show ?case
  proof (cases "alt_match ts a")
    case None
    show ?thesis
    proof (cases a)
      case Nil
      then have "alt_match ts (newline # b) = None" using m None by simp
      then show ?thesis using Nil ne by (simp add: alt_segments.simps [of ts "newline # b"])
    next
      case (Cons x xs)
      then show ?thesis using "1.IH"(1) [OF None Cons "1.prems"] m None
        by (simp add: alt_segments.simps [of ts "x # xs @ newline # b"]
            alt_segments.simps [of ts "x # xs"])
    qed
  next
    case (Some n)
    have "0 < n" using alt_match_pos [OF ne Some] .
    moreover have "n \<le> length a" using alt_match_Some [OF Some] by blast
    ultimately show ?thesis using "1.IH"(3) [OF Some _ "1.prems"] m Some
      by (simp add: alt_segments.simps [of ts "a @ newline # b"] alt_segments.simps [of ts a])
  qed
qed

lemma render_join:
  assumes "\<forall>w\<in>set ts. w \<noteq> [] \<and> newline \<notin> set w"
  shows "concat (map render_segment (alt_segments ts (js_join newline ls)))
         = js_join newline (map (\<lambda>l. concat (map render_segment (alt_segments ts l))) ls)"
proof (induction ls rule: induct_list012)
  case 1
  have "[] \<notin> set ts" using assms by blast
  then show ?case by simp
qed (simp_all add: alt_segments_sep [OF assms])

lemma riskTerms_plain: "\<forall>w\<in>set riskTerms. w \<noteq> [] \<and> newline \<notin> set w"
  by (simp add: riskTerms_def)

lemma riskTerms_lower: "map js_toLowerCase riskTerms = riskTerms"
  by (simp add: riskTerms_def js_lower_char_def)

text \<open>Highlighting line by line is one scan of the whole text.\<close>

lemma highlightRisks_scan:
  "highlightRisks text = concat (map render_segment (alt_segments riskTerms text))"
  using render_join [OF riskTerms_plain, of "js_split newline text"] by (simp add: highlightRisks_def)

lemma count_list_concat: "count_list (concat xss) x = sum_list (map (\<lambda>xs. count_list xs x) xss)"
  by (induction xss) simp_all

lemma render_segment_count:
  "count_list (render_segment g) newline = count_list (segment_text g) newline"
  by (cases g) (simp_all add: highlight_open_def highlight_close_def)

lemma alt_segments_no_match:
  "[] \<notin> set ts \<Longrightarrow> \<forall>i<length s. alt_match ts (drop i s) = None \<Longrightarrow> alt_segments ts s = map Plain s"
proof (induction s)
  case Nil
  then show ?case by simp
next
  case (Cons x xs)
  have "alt_match ts (x # xs) = None" using Cons.prems(2) by (metis drop0 length_Cons zero_less_Suc)
  moreover have "\<forall>i<length xs. alt_match ts (drop i xs) = None"
    using Cons.prems(2) by (metis Suc_mono drop_Suc_Cons length_Cons)
  ultimately show ?case using Cons.IH Cons.prems(1) by (simp add: alt_segments.simps [of ts "x # xs"])
qed

text \<open>A text in which no risk word starts anywhere passes through unchanged.\<close>

lemma highlightRisks_plain_identity:
  assumes "list_all (\<lambda>i. alt_match riskTerms (drop i text) = None) [0..<length text]"
  shows "highlightRisks text = text"
proof -
  have "alt_segments riskTerms text = map Plain text"
    using alt_segments_no_match riskTerms_plain assms by (auto simp: list_all_iff)
  then show ?thesis by (simp add: highlightRisks_scan comp_def)
qed

text \<open>Rendering only adds the wrappers around the marked pieces.\<close>

lemma subseq_render_segments:
  "subseq (concat (map segment_text segs)) (concat (map render_segment segs))"
proof (induction segs)
  case (Cons g segs)
  have "subseq (segment_text g) (render_segment g)"
  proof (cases g)
    case (Marked m)
    have "subseq ([] @ m @ []) (highlight_open @ m @ highlight_close)"
      by (intro list_emb_append_mono) auto
    then show ?thesis by (simp add: Marked)
  qed simp
  with Cons.IH show ?case by (simp add: list_emb_append_mono)
qed simp

subsection \<open>Properties of the highlighter\<close>

text \<open>
  C17. What \<open>highlightRisks\<close> computes: its output is a segmentation of the
  text rendered, where the pieces put back together give the text (so line
  breaks, and the original case of each match, are kept), every wrapped piece
  is a risk word up to ASCII case, and no risk word starts at a character left
  unwrapped (every leftmost occurrence is wrapped; an occurrence overlapping a
  wrapped one further left is not).
\<close>

theorem highlightRisks_correct:
  "\<exists>segs. highlightRisks text = concat (map render_segment segs)
     \<and> concat (map segment_text segs) = text
     \<and> (\<forall>m. Marked m \<in> set segs \<longrightarrow> js_toLowerCase m \<in> set riskTerms)
     \<and> (\<forall>pre c post. segs = pre @ Plain c # post
           \<longrightarrow> alt_match riskTerms (c # concat (map segment_text post)) = None)"
proof (intro exI [of _ "alt_segments riskTerms text"] conjI allI impI)
  have ne: "[] \<notin> set riskTerms" using riskTerms_plain by blast
  show "highlightRisks text = concat (map render_segment (alt_segments riskTerms text))"
    by (rule highlightRisks_scan)
  show "concat (map segment_text (alt_segments riskTerms text)) = text"
    by (rule alt_segments_text)
  fix m assume "Marked m \<in> set (alt_segments riskTerms text)"
  then obtain w where "w \<in> set riskTerms" "js_toLowerCase m = js_toLowerCase w"
    using alt_segments_marked by blast
  then show "js_toLowerCase m \<in> set riskTerms"
    by (metis image_eqI list.set_map riskTerms_lower)
next
  fix pre c post
  assume "alt_segments riskTerms text = pre @ Plain c # post"
  moreover have "[] \<notin> set riskTerms" using riskTerms_plain by blast
  ultimately show "alt_match riskTerms (c # concat (map segment_text post)) = None"
    using alt_segments_leftmost by blast
qed

theorem highlightRisks_correct_witness:
  "\<exists>segs. highlightRisks ''Unsafe ladder'' = concat (map render_segment segs)
     \<and> concat (map segment_text segs) = ''Unsafe ladder''
     \<and> (\<forall>m. Marked m \<in> set segs \<longrightarrow> js_toLowerCase m \<in> set riskTerms)
     \<and> (\<forall>pre c post. segs = pre @ Plain c # post
           \<longrightarrow> alt_match riskTerms (c # concat (map segment_text post)) = None)"
  by (rule highlightRisks_correct)

text \<open>C18. The highlighter keeps the number of line breaks of the text.\<close>

theorem highlightRisks_newlines:
  "count_list (highlightRisks text) newline = count_list text newline"
proof -
  have "count_list (highlightRisks text) newline
        = count_list (concat (map segment_text (alt_segments riskTerms text))) newline"
    by (simp add: highlightRisks_scan count_list_concat render_segment_count comp_def)
  then show ?thesis by (simp add: alt_segments_text)
qed

text \<open>
  C19. Nothing is escaped: the inner HTML the viewer sets (line 63) contains every
  character of the server's extracted text, in order, so markup in it, such as an
  \<open>img\<close> element with an \<open>onerror\<close> handler, reaches the DOM as markup; a text
  in which no risk word occurs is set as it came.
\<close>

theorem viewer_body_unescaped:
  assumes "viewer_body (viewer_props_of a) = Some b"
  shows "subseq (extractedText a) b
         \<and> (list_all (\<lambda>i. alt_match riskTerms (drop i (extractedText a)) = None) [0..<length (extractedText a)]
            \<longrightarrow> b = extractedText a)"
proof -
  have b: "b = highlightRisks (extractedText a)"
    using assms by (simp add: viewer_body_def viewer_props_of_def split: if_splits)
  have "subseq (extractedText a) b"
    using subseq_render_segments [of "alt_segments riskTerms (extractedText a)"]
    by (simp add: b highlightRisks_scan alt_segments_text)
  with b show ?thesis using highlightRisks_plain_identity by simp
qed

theorem viewer_body_unescaped_witness:
  "viewer_body (viewer_props_of sample_xss_analysis) = Some ''<img src=x onerror=alert(1)>''
   \<and> subseq (extractedText sample_xss_analysis) ''<img src=x onerror=alert(1)>''
   \<and> list_all (\<lambda>i. alt_match riskTerms (drop i (extractedText sample_xss_analysis)) = None)
         [0..<length (extractedText sample_xss_analysis)]
   \<and> ''<img src=x onerror=alert(1)>'' = extractedText sample_xss_analysis"
proof -
  have h: "list_all (\<lambda>i. alt_match riskTerms (drop i ''<img src=x onerror=alert(1)>'') = None)
      [0..<length ''<img src=x onerror=alert(1)>'']"
    by (simp add: alt_match_def riskTerms_def js_lower_char_def)
  have v: "viewer_body (viewer_props_of sample_xss_analysis) = Some ''<img src=x onerror=alert(1)>''"
    using highlightRisks_plain_identity [OF h]
    by (simp add: viewer_body_def viewer_props_of_def sample_xss_analysis_def)
  show ?thesis using viewer_body_unescaped [OF v] v h by (simp add: sample_xss_analysis_def)
qed

subsection \<open>Properties of the viewer\<close>

text \<open>
  C20. The page never passes \<open>fileId\<close> to the viewer, so for every analysis it
  shows, the download button is not rendered and \<open>handleDownload\<close> would open
  nothing: the viewer's download path is dead code.
\<close>

theorem viewer_no_download:
  "\<not> download_button_shown (viewer_props_of a) \<and> handleDownload base (viewer_props_of a) = None"
  by (simp add: download_button_shown_def handleDownload_def viewer_props_of_def)

text \<open>
  C21. \<open>handleDownload\<close> opens a URL exactly when the button is shown and the
  base URL is set and not empty; the URL is the base, \<open>/download-report/\<close>, and
  the file id. Otherwise it returns early.
\<close>

theorem handleDownload_opens:
  "handleDownload base p = Some url
   \<longleftrightarrow> download_button_shown p
       \<and> (\<exists>b. base = Some b \<and> b \<noteq> [] \<and> url = b @ ''/download-report/'' @ the (tv_fileId p))"
  by (auto simp: handleDownload_def download_button_shown_def split: option.splits)

end
