(* ===== verification/Upload_Area.thy ===== *)
theory Upload_Area
  imports Types Js_Date
begin

text \<open>
  The upload area of \<open>src/safeworkai/src/components/UploadArea.tsx\<close>: its two pieces
  of state (\<open>isDragging\<close>, \<open>selectedFile\<close>), its handlers, and what it renders
  from them and from the props \<open>status\<close> and \<open>error\<close> the page passes
  (\<open>HomePage.tsx\<close>, lines 66--70). A handler's result is the new state and
  the file it hands to \<open>onFileUpload\<close>, if any. The hidden file input and the
  remove button exist only in some renderings (lines 105--167), so the events
  they fire are enabled only then; the drag and drop handlers sit on the outer
  element and are always enabled.
\<close>

subsection \<open>State and handlers\<close>

record area_state =
  isDragging :: bool
  selectedFile :: "upload_file option"

definition area_init :: area_state where
  "area_init = \<lparr>isDragging = False, selectedFile = None\<rparr>"

text \<open>\<open>handleDragEnter\<close> and \<open>handleDragLeave\<close>, lines 17--27.\<close>

definition handleDragEnter :: "area_state \<Rightarrow> area_state" where
  "handleDragEnter s = s\<lparr>isDragging := True\<rparr>"

definition handleDragLeave :: "area_state \<Rightarrow> area_state" where
  "handleDragLeave s = s\<lparr>isDragging := False\<rparr>"

text \<open>
  \<open>handleDrop\<close>, lines 34--45: the dropped files (a \<open>FileList\<close>, never null for
  a drop); the first one, if any, is selected and uploaded. Nothing checks its
  type or size.
\<close>

definition handleDrop :: "upload_file list \<Rightarrow> area_state \<Rightarrow> area_state \<times> upload_file option" where
  "handleDrop files s =
     (case files of
        [] \<Rightarrow> (s\<lparr>isDragging := False\<rparr>, None)
      | file # _ \<Rightarrow> (s\<lparr>isDragging := False, selectedFile := Some file\<rparr>, Some file))"

text \<open>
  \<open>handleFileSelect\<close>, lines 47--54: \<open>e.target.files\<close> may be \<open>null\<close>
  (\<open>None\<close>) or empty.
\<close>

definition handleFileSelect ::
  "upload_file list option \<Rightarrow> area_state \<Rightarrow> area_state \<times> upload_file option" where
  "handleFileSelect files s =
     (case files of
        Some (file # _) \<Rightarrow> (s\<lparr>selectedFile := Some file\<rparr>, Some file)
      | _ \<Rightarrow> (s, None))"

text \<open>\<open>handleRemoveFile\<close>, lines 60--62.\<close>

definition handleRemoveFile :: "area_state \<Rightarrow> area_state" where
  "handleRemoveFile s = s\<lparr>selectedFile := None\<rparr>"

subsection \<open>What the area renders\<close>

text \<open>\<open>getUploadStatusMessage\<close>, lines 64--77; \<open>error\<close> is optional.\<close>

definition getUploadStatusMessage :: "file_status \<Rightarrow> string option \<Rightarrow> string" where
  "getUploadStatusMessage status error =
     (case status of
        Uploading \<Rightarrow> ''Uploading file...''
      | Processing \<Rightarrow> ''Processing document...''
      | Complete \<Rightarrow> ''Analysis complete!''
      | Error \<Rightarrow> js_or_string (case error of None \<Rightarrow> [] | Some e \<Rightarrow> e) ''An error occurred''
      | Idle \<Rightarrow> [])"

datatype status_icon = Icon_AlertCircle | Icon_CheckCircle

text \<open>\<open>getStatusIcon\<close>, lines 79--88.\<close>

definition getStatusIcon :: "file_status \<Rightarrow> status_icon option" where
  "getStatusIcon status =
     (case status of Error \<Rightarrow> Some Icon_AlertCircle | Complete \<Rightarrow> Some Icon_CheckCircle | _ \<Rightarrow> None)"

text \<open>The class of the drop zone, lines 93--99.\<close>

definition area_zone_class :: "area_state \<Rightarrow> file_status \<Rightarrow> string" where
  "area_zone_class s status =
     (if isDragging s then ''border-blue-500 bg-blue-50''
      else if status = Error then ''border-red-300 bg-red-50''
      else ''border-gray-300 bg-gray-50'')"

text \<open>
  Line 105: the selected file's panel replaces the prompt (and with it the file
  input) when a file is selected and the status is not idle.
\<close>

definition file_panel_shown :: "area_state \<Rightarrow> file_status \<Rightarrow> bool" where
  "file_panel_shown s status \<longleftrightarrow> selectedFile s \<noteq> None \<and> status \<noteq> Idle"

text \<open>Line 117: the remove button, inside that panel, when the status is idle.\<close>

definition remove_button_shown :: "area_state \<Rightarrow> file_status \<Rightarrow> bool" where
  "remove_button_shown s status \<longleftrightarrow> file_panel_shown s status \<and> status = Idle"

datatype status_indicator = Pulse | Status_Icon "status_icon option"

text \<open>
  Lines 127--141: inside the panel, when the status is not idle, the pulse while
  uploading or processing, the status icon otherwise, and the message.
\<close>

definition status_line :: "area_state \<Rightarrow> file_status \<Rightarrow> string option \<Rightarrow> (status_indicator \<times> string) option" where
  "status_line s status error =
     (if file_panel_shown s status \<and> status \<noteq> Idle
      then Some (if status = Uploading \<or> status = Processing then Pulse else Status_Icon (getStatusIcon status),
                 getUploadStatusMessage status error)
      else None)"

text \<open>
  The number of decimal digits of \<open>n\<close> (\<open>Number::toString\<close> of a whole
  number prints them without leading zeros).
\<close>

fun decimal_width :: "nat \<Rightarrow> nat" where
  "decimal_width n = (if n < 10 then 1 else Suc (decimal_width (n div 10)))"

declare decimal_width.simps [simp del]

text \<open>
  \<open>Number.prototype.toFixed(2)\<close> (ECMA-262 21.1.3.3) for the non-negative
  numbers below \<open>10^21\<close> this program formats: \<open>n\<close> is the integer nearest to
  \<open>100 x\<close>, the larger one on a tie; its digits, padded with zeros to at least
  three, get a point before the last two.
\<close>

definition js_toFixed2 :: "js_number \<Rightarrow> string" where
  "js_toFixed2 x =
     (let n = nat \<lfloor>x * 100 + 1 / 2\<rfloor>;
          m = show_padded (decimal_width n) n;
          m = (if length m \<le> 2 then replicate (3 - length m) (CHR ''0'') @ m else m);
          k = length m
      in take (k - 2) m @ ''.'' @ drop (k - 2) m)"

text \<open>
  The size line of the selected file (line 113): bytes over \<open>1024 * 1024\<close>, which
  the double arithmetic divides exactly.
\<close>

definition file_size_text :: "upload_file \<Rightarrow> string" where
  "file_size_text f = js_toFixed2 (of_nat (file_size f) / 1024 / 1024) @ '' MB''"

text \<open>How a reader takes a number with two decimals: digits, a point, two digits.\<close>

definition parse_fixed2 :: "string \<Rightarrow> js_number option" where
  "parse_fixed2 t =
     (let k = length t
      in if 4 \<le> k \<and> t ! (k - 3) = CHR ''.''
         then (case (parse_nat_acc 0 (take (k - 3) t), parse_nat_acc 0 (drop (k - 2) t)) of
                 (Some a, Some b) \<Rightarrow> Some (of_nat (100 * a + b) / 100)
               | _ \<Rightarrow> None)
         else None)"

subsection \<open>Events\<close>

text \<open>
  The user's actions on the area. \<open>Browse_Click\<close> (line 152) opens the
  browser's file dialog, whose answer is a later \<open>File_Select\<close>.
\<close>

datatype area_event =
    Drag_Enter | Drag_Leave | Drag_Over
  | Drop "upload_file list"
  | Browse_Click
  | File_Select "upload_file list option"
  | Remove_File

text \<open>
  One event under the current \<open>status\<close> prop: the new state and the file
  handed to \<open>onFileUpload\<close>; \<open>None\<close> when the element the event needs is not
  rendered.
\<close>

fun area_step ::
  "file_status \<Rightarrow> area_state \<Rightarrow> area_event \<Rightarrow> (area_state \<times> upload_file option) option" where
  "area_step status s Drag_Enter = Some (handleDragEnter s, None)"
| "area_step status s Drag_Leave = Some (handleDragLeave s, None)"
| "area_step status s Drag_Over = Some (s, None)"
| "area_step status s (Drop files) = Some (handleDrop files s)"
| "area_step status s Browse_Click =
     (if file_panel_shown s status then None else Some (s, None))"
| "area_step status s (File_Select files) =
     (if file_panel_shown s status then None else Some (handleFileSelect files s))"
| "area_step status s Remove_File =
     (if remove_button_shown s status then Some (handleRemoveFile s, None) else None)"

text \<open>What the interface tells the user it takes (line 165).\<close>

definition advertised_upload :: "upload_file \<Rightarrow> bool" where
  "advertised_upload f \<longleftrightarrow> file_size f \<le> 10 * 1024 * 1024
     \<and> (\<exists>ext\<in>set [''.pdf'', ''.png'', ''.jpg'', ''.jpeg'']. suffix ext (file_name f))"

subsection \<open>Properties\<close>

lemma decimal_width_bound: "n < 10 ^ decimal_width n"
proof (induction n rule: decimal_width.induct)
  case (1 n)
  show ?case
  proof (cases "n < 10")
    case True
    then show ?thesis by (simp add: decimal_width.simps)
  next
    case False
    then have "n div 10 < 10 ^ decimal_width (n div 10)" using "1.IH" by blast
    then have "n < 10 * 10 ^ decimal_width (n div 10)" by (simp add: div_less_iff_less_mult mult.commute)
    with False show ?thesis by (simp add: decimal_width.simps)
  qed
qed

lemma decimal_width_pos: "0 < decimal_width n"
  by (simp add: decimal_width.simps)

lemma show_padded_zeros: "show_padded k 0 = replicate k (CHR ''0'')"
proof (induction k)
  case 0
  then show ?case by simp
next
  case (Suc k)
  have "digit_char 0 = CHR ''0''"
    unfolding digit_char_def using char_of_char [of "CHR ''0''"] by simp
  with Suc show ?case by (simp add: replicate_append_same)
qed

lemma show_padded_pad:
  "n < 10 ^ w \<Longrightarrow> show_padded (w + k) n = replicate k (CHR ''0'') @ show_padded w n"
proof (induction w arbitrary: n)
  case 0
  then show ?case by (simp add: show_padded_zeros)
next
  case (Suc w)
  have "n div 10 < 10 ^ w" using Suc.prems by (simp add: div_less_iff_less_mult mult.commute)
  then show ?case using Suc.IH [of "n div 10"] by simp
qed

lemma parse_nat_acc_shift:
  "parse_nat_acc acc xs = map_option (\<lambda>b. acc * 10 ^ length xs + b) (parse_nat_acc 0 xs)"
proof (induction xs arbitrary: acc)
  case Nil
  then show ?case by simp
next
  case (Cons c cs)
  show ?case
  proof (cases "digit_val c")
    case None
    then show ?thesis by simp
  next
    case (Some d)
    then show ?thesis
      using Cons.IH [of "10 * acc + d"] Cons.IH [of d]
      by (cases "parse_nat_acc 0 cs") (simp_all add: algebra_simps)
  qed
qed

lemma js_toFixed2_padded:
  "js_toFixed2 x =
     (let n = nat \<lfloor>x * 100 + 1 / 2\<rfloor>; w = max 3 (decimal_width n)
      in take (w - 2) (show_padded w n) @ ''.'' @ drop (w - 2) (show_padded w n))"
proof -
  define n where "n = nat \<lfloor>x * 100 + 1 / 2\<rfloor>"
  have bound: "n < 10 ^ decimal_width n" by (rule decimal_width_bound)
  show ?thesis
  proof (cases "decimal_width n \<le> 2")
    case True
    have "replicate (3 - decimal_width n) (CHR ''0'') @ show_padded (decimal_width n) n = show_padded 3 n"
      using show_padded_pad [OF bound, of "3 - decimal_width n"] True by simp
    then show ?thesis using True by (simp add: js_toFixed2_def n_def [symmetric] Let_def length_show_padded)
  next
    case False
    then show ?thesis by (simp add: js_toFixed2_def n_def [symmetric] Let_def length_show_padded)
  qed
qed

lemma parse_fixed2_padded:
  assumes "3 \<le> w" "n < 10 ^ w"
  shows "parse_fixed2 (take (w - 2) (show_padded w n) @ ''.'' @ drop (w - 2) (show_padded w n))
         = Some (of_nat n / 100)"
proof -
  let ?m = "show_padded w n"
  let ?A = "take (w - 2) ?m" and ?B = "drop (w - 2) ?m"
  have len: "length ?A = w - 2" "length ?B = 2" using assms(1) by (simp_all add: length_show_padded)
  have "parse_nat_acc 0 ?m = Some n"
    using parse_show_padded [of 0 w n] assms(2) by simp
  then have "Option.bind (parse_nat_acc 0 ?A) (\<lambda>a. parse_nat_acc a ?B) = Some n"
    using parse_nat_acc_append [of 0 ?A ?B] by simp
  then obtain a where a: "parse_nat_acc 0 ?A = Some a" and ab: "parse_nat_acc a ?B = Some n"
    by (auto split: Option.bind_splits)
  then obtain b where b: "parse_nat_acc 0 ?B = Some b" and n: "n = a * 100 + b"
    using parse_nat_acc_shift [of a ?B] len(2) by auto
  define t where "t = ?A @ ''.'' @ ?B"
  have lt: "length t = w + 1" using len assms(1) by (simp add: t_def)
  have "t ! (length t - 3) = CHR ''.''" using len lt by (simp add: t_def nth_append)
  moreover have "take (length t - 3) t = ?A" "drop (length t - 2) t = ?B"
    using len lt by (simp_all add: t_def)
  moreover have "4 \<le> length t" using lt assms(1) by simp
  ultimately have "parse_fixed2 t = Some (of_nat (100 * a + b) / 100)"
    using a b by (simp add: parse_fixed2_def Let_def)
  then show ?thesis using n by (simp add: t_def algebra_simps)
qed

lemma round_cents_close:
  assumes "0 \<le> (x::js_number)"
  shows "\<bar>of_nat (nat \<lfloor>x * 100 + 1 / 2\<rfloor>) / 100 - x\<bar> \<le> 1 / 200"
proof -
  let ?f = "\<lfloor>x * 100 + 1 / 2\<rfloor>"
  have "0 \<le> ?f" using assms by simp
  then have eq: "(of_nat (nat ?f) :: js_number) = of_int ?f" by simp
  have "of_int ?f \<le> x * 100 + 1 / 2" "x * 100 + 1 / 2 < of_int ?f + 1"
    using floor_correct [of "x * 100 + 1 / 2"] by simp_all
  then have "of_int ?f / 100 - x \<le> 1 / 200" "x - of_int ?f / 100 \<le> 1 / 200"
    by linarith+
  then show ?thesis unfolding eq abs_le_iff by linarith
qed

lemma remove_button_never_shown: "\<not> remove_button_shown s status"
  by (simp add: remove_button_shown_def file_panel_shown_def)

text \<open>
  C22. Once a file is selected, no event of the area clears the selection: the
  only handler that does, \<open>handleRemoveFile\<close>, is wired to a button that is
  rendered only inside the panel shown for a status other than idle, and only
  when the status is idle (lines 105 and 117), so it is never rendered.
\<close>

theorem area_selection_sticky:
  assumes "area_step status s e = Some (s', out)" and "selectedFile s \<noteq> None"
  shows "selectedFile s' \<noteq> None"
  using assms remove_button_never_shown [of s status]
  by (cases e) (auto simp: handleDragEnter_def handleDragLeave_def handleDrop_def
      handleFileSelect_def split: list.splits option.splits if_splits)

theorem area_selection_sticky_witness:
  "area_step Complete \<lparr>isDragging = False, selectedFile = Some \<lparr>file_name = ''doc.pdf'', file_size = 2097152\<rparr>\<rparr>
      (Drop []) = Some (\<lparr>isDragging = False, selectedFile = Some \<lparr>file_name = ''doc.pdf'', file_size = 2097152\<rparr>\<rparr>, None)
   \<and> selectedFile \<lparr>isDragging = False, selectedFile = Some \<lparr>file_name = ''doc.pdf'', file_size = 2097152\<rparr>\<rparr> \<noteq> None
   \<and> selectedFile \<lparr>isDragging = False, selectedFile = Some \<lparr>file_name = ''doc.pdf'', file_size = 2097152\<rparr>\<rparr> \<noteq> None"
  using area_selection_sticky [of Complete "\<lparr>isDragging = False, selectedFile = Some \<lparr>file_name = ''doc.pdf'', file_size = 2097152\<rparr>\<rparr>"
      "Drop []" "\<lparr>isDragging = False, selectedFile = Some \<lparr>file_name = ''doc.pdf'', file_size = 2097152\<rparr>\<rparr>" None]
  by (simp add: handleDrop_def)

text \<open>
  C23. A drop, in any status, ends the drag, and selects and uploads the first
  dropped file whatever its name and size; a drop of no file only ends the drag.
  The interface advertises PDF, PNG or JPG files up to 10MB, but the
  \<open>accept\<close> attribute (line 160) filters only the browser's dialog.
\<close>

theorem area_drop_uploads_any:
  "area_step status s (Drop (f # fs)) = Some (s\<lparr>isDragging := False, selectedFile := Some f\<rparr>, Some f)
   \<and> area_step status s (Drop []) = Some (s\<lparr>isDragging := False\<rparr>, None)"
  by (simp add: handleDrop_def)

text \<open>
  C31. The size shown for the selected file (line 113) is a number with two
  decimals that reads back within half a hundredth of the file's exact size in
  MiB (bytes over \<open>1024 * 1024\<close>).
\<close>

theorem file_size_text_close:
  "\<exists>t q. file_size_text f = t @ '' MB'' \<and> parse_fixed2 t = Some q
     \<and> \<bar>q - of_nat (file_size f) / 1048576\<bar> \<le> 1 / 200"
proof -
  let ?x = "(of_nat (file_size f) / 1024 / 1024 :: js_number)"
  define n where "n = nat \<lfloor>?x * 100 + 1 / 2\<rfloor>"
  define w where "w = max 3 (decimal_width n)"
  have "(10::nat) ^ decimal_width n \<le> 10 ^ w"
    by (rule power_increasing) (simp_all add: w_def)
  then have "n < 10 ^ w" using decimal_width_bound [of n] by linarith
  moreover have "js_toFixed2 ?x = take (w - 2) (show_padded w n) @ ''.'' @ drop (w - 2) (show_padded w n)"
    unfolding w_def n_def by (rule js_toFixed2_padded [unfolded Let_def])
  moreover have "3 \<le> w" by (simp add: w_def)
  ultimately have "parse_fixed2 (js_toFixed2 ?x) = Some (of_nat n / 100)"
    using parse_fixed2_padded [of w n] by simp
  moreover have "\<bar>of_nat n / 100 - ?x\<bar> \<le> 1 / 200"
    unfolding n_def by (rule round_cents_close) simp
  ultimately show ?thesis
    by (intro exI [of _ "js_toFixed2 ?x"] exI [of _ "of_nat n / 100"]) (simp add: file_size_text_def)
qed

lemma area_drop_unadvertised:
  "\<not> advertised_upload \<lparr>file_name = ''setup.exe'', file_size = 52428800\<rparr>
   \<and> area_step Idle area_init (Drop [\<lparr>file_name = ''setup.exe'', file_size = 52428800\<rparr>])
       = Some (\<lparr>isDragging = False, selectedFile = Some \<lparr>file_name = ''setup.exe'', file_size = 52428800\<rparr>\<rparr>,
               Some \<lparr>file_name = ''setup.exe'', file_size = 52428800\<rparr>)"
  by (simp add: advertised_upload_def area_init_def handleDrop_def)

end
