(* ===== verification/Header.thy ===== *)
theory Header
  imports Prelude
begin

text \<open>
  The page header of \<open>src/safeworkai/src/components/Header.tsx\<close>. Its links and
  buttons have no handlers (\<open>href="#"\<close>); its one piece of state is the mobile
  menu flag (line 6), toggled by the menu button (line 39), which chooses the
  button's icon (lines 43--47) and whether the mobile menu is displayed
  (line 54); \<open>header_view\<close> is what the header displays.
\<close>

record header_state =
  mobileMenuOpen :: bool

definition header_init :: header_state where
  "header_init = \<lparr>mobileMenuOpen = False\<rparr>"

text \<open>The menu button's \<open>onClick\<close>, line 39.\<close>

definition header_toggle :: "header_state \<Rightarrow> header_state" where
  "header_toggle s = s\<lparr>mobileMenuOpen := \<not> mobileMenuOpen s\<rparr>"

datatype menu_icon = Icon_X | Icon_Menu

definition menu_button_icon :: "header_state \<Rightarrow> menu_icon" where
  "menu_button_icon s = (if mobileMenuOpen s then Icon_X else Icon_Menu)"

text \<open>The class of the mobile menu, line 54.\<close>

definition mobile_menu_class :: "header_state \<Rightarrow> string" where
  "mobile_menu_class s = (if mobileMenuOpen s then ''block'' else ''hidden'') @ '' md:hidden''"

text \<open>
  The navigation links (lines 17--30, and again in the mobile menu, lines 55--68);
  every one is \<open>href="#"\<close> without a handler, as are the two
  \<open>New Analysis\<close> buttons (lines 33--35 and 71--73).
\<close>

definition header_links :: "string list" where
  "header_links = [''Dashboard'', ''Reports'', ''Analytics'', ''Settings'']"

record header_display =
  desktop_links :: "string list"
  menu_icon_shown :: menu_icon
  mobile_links :: "string list option"

text \<open>What the header shows on a small screen and on a wide one (lines 8--77).\<close>

definition header_view :: "header_state \<Rightarrow> header_display" where
  "header_view s =
     \<lparr>desktop_links = header_links, menu_icon_shown = menu_button_icon s,
      mobile_links = (if mobileMenuOpen s then Some header_links else None)\<rparr>"

lemma header_toggles: "mobileMenuOpen ((header_toggle ^^ n) header_init) \<longleftrightarrow> odd n"
  by (induction n) (simp_all add: header_toggle_def header_init_def)

text \<open>
  C24. After \<open>n\<close> clicks on the menu button the mobile menu is displayed, and
  the button shows the close icon, exactly when \<open>n\<close> is odd.
\<close>

theorem header_menu_after_clicks:
  "mobile_menu_class ((header_toggle ^^ n) header_init)
     = (if odd n then ''block md:hidden'' else ''hidden md:hidden'')
   \<and> menu_button_icon ((header_toggle ^^ n) header_init) = (if odd n then Icon_X else Icon_Menu)"
  by (simp add: mobile_menu_class_def menu_button_icon_def header_toggles)

end
