(* ===== verification/Spec2Isabelle.thy ===== *)
theory Spec2Isabelle
  imports Upload Table Risk_Score Text_Viewer Upload_Area Header
begin

text \<open>
  \<^bold>\<open>A verification development for SafeWork AI\<close> (the React dashboard under
  \<open>src/safeworkai/src\<close>).

  \<^bold>\<open>The program.\<close> A single page (\<open>pages/HomePage.tsx\<close>) lets the user drop or
  pick a safety document in the upload area (\<open>components/UploadArea.tsx\<close>), posts
  it to a remote analysis endpoint, and keeps the analyses it receives in an
  in-memory list. A table (\<open>components/AnalysisTable.tsx\<close>) shows that list, sorted
  by a column the user picks, and lets the user select a row; the selected
  analysis is shown by a risk panel with an animated score
  (\<open>components/RiskScore.tsx\<close>) and by a text viewer that highlights risk words
  (\<open>components/TextViewer.tsx\<close>). The page header (\<open>components/Header.tsx\<close>) has
  a mobile menu toggle. The data model is \<open>types/index.ts\<close>. The components talk
  only through React props: the upload area calls the page's
  \<open>handleFileUpload\<close>, the table calls the page's \<open>viewAnalysis\<close>, and the page
  passes its state down.

  \<^bold>\<open>The library.\<close>
  \<^item> \<open>Prelude\<close>: the JavaScript values and built-ins the components share (\<open>||\<close>
    defaults, \<open>toLowerCase\<close>, \<open>split\<close>/\<open>join\<close>), modelled from ECMA-262, with
    their lemmas in the collection \<open>js_simps\<close>; \<open>page_simps\<close> collects the
    one-step facts of the page. JavaScript numbers are rationals (JSON carries
    neither NaN nor infinity).
  \<^item> \<open>Types\<close>: \<open>types/index.ts\<close>: \<open>AnalysisResult\<close> (its two declarations merged,
    as TypeScript merges them), \<open>RiskItem\<close>, \<open>FileStatus\<close>, the browser's
    \<open>File\<close>, and the specification's risk bucket \<open>severity_of_score\<close>; the
    buckets are an instance of \<open>linorder\<close> (low, medium, high), so that
    \<open>severity_of_score\<close> is monotone in the library's order.
  \<^item> \<open>Js_Date\<close>: \<open>Date.prototype.toISOString\<close> and the parse of its output by
    \<open>new Date(s).getTime()\<close>, from ECMA-262 21.4, on the proleptic Gregorian
    calendar; the round trip \<open>js_date_parse_toISOString\<close> is what makes the
    table's date sort sort by the instant an analysis arrived (used by C10 and
    C28) and the table's dates valid (C35).
  \<^item> \<open>Upload\<close>: \<open>HomePage.tsx\<close>'s handlers. The page state (\<open>fileStatus\<close>,
    \<open>error\<close>, \<open>currentAnalysis\<close>, \<open>analyses\<close>) is the record \<open>page_state\<close>. The
    async handler \<open>handleFileUpload\<close> is split at its two \<open>await\<close>s into
    \<open>upload_start\<close>, \<open>on_fetch\<close> and \<open>on_json\<close>, with \<open>upload_catch\<close> its
    \<open>catch\<close> block (entered on a rejected \<open>fetch\<close>, a status that is not OK, a
    body that does not parse, a \<open>null\<close> body, or an unprintable clock) and
    \<open>upload_commit\<close> its success path; \<open>viewAnalysis\<close> is the other handler; its
    \<open>View\<close> event carries a stored analysis, the only kind the table hands it
    (C25). Since nothing prevents a second upload while one is in flight,
    \<open>page_sys\<close> keeps every suspended call and \<open>page_step\<close> runs the
    continuations in any order the network chooses; \<open>page_run\<close> runs a sequence of
    events and \<open>page_reachable\<close> is the set of reachable states. The lemmas show the
    behaviour of every branch (success: C1; each failure: C2), the store's growth
    (C3, C5), the invariant that the selection is stored (C4), and three
    behaviours the specification does not expect: \<open>processing\<close> is never reached
    (C6), identifiers are not kept unique (C7), and a late failure of an earlier
    upload overwrites a completed one (C8).
  \<^item> \<open>Table\<close>: \<open>AnalysisTable.tsx\<close>: the sort state and \<open>handleSort\<close>, the
    comparator on each field (dates through \<open>Js_Date\<close>, scores numerically,
    strings through a collation parameter standing for \<open>localeCompare\<close>),
    \<open>Array.prototype.sort\<close> as a stable insertion sort \<open>js_sort\<close>, the colour
    class and the row buttons (\<open>table_step\<close>), and what the table renders: each
    row's cells (\<open>table_row_view\<close>, the date through \<open>formatDate\<close>) and the
    empty-table message (\<open>table_view\<close>). The numeric sorts equal the library's
    \<open>sort_key\<close> (C9, C10); sorting is idempotent (C11), every header click
    changes the sort and a second click restores it exactly on the sorted column
    (C12), and the colour class refines the specification's bucket (C32).
  \<^item> \<open>Risk_Score\<close>: \<open>RiskScore.tsx\<close>: \<open>animatedScore\<close> and the effect's interval as
    the record \<open>risk_anim\<close>; mount, \<open>risk_tick\<close> (one period of the interval,
    through the updater \<open>anim_update\<close>) and \<open>risk_rerender\<close> (a new \<open>score\<close>
    prop re-runs the effect); \<open>risk_reachable\<close> is the set of reachable panel
    states. The animation stops exactly when the score is a whole number (C13), in
    one tick per unit of distance plus one (C14); the value stays in [0, 100] when
    the scores do (C15); the level text and colours are those of the
    specification's bucket (C16), and while the panel counts up the bucket it shows
    never goes down (C33). \<open>risk_panel_view\<close> collects what the panel displays.
  \<^item> \<open>Text_Viewer\<close>: \<open>TextViewer.tsx\<close>: \<open>highlightRisks\<close>, with the regular
    expression's global replace modelled as the segmentation \<open>alt_segments\<close>
    (ECMA-262 \<open>RegExp.prototype[@@replace]\<close>, the alternation tried in order
    under the flag \<open>i\<close>) rendered by the replacement string; the title, body and
    download conditions and \<open>handleDownload\<close>; the props the page passes. The
    lemma \<open>highlightRisks_scan\<close> shows that highlighting line by line is one scan
    of the whole text. The output is the text with exactly the leftmost risk-word
    occurrences wrapped, in their original case (C17); line breaks are kept
    (C18); nothing is escaped (C19); the download path is dead code (C20) and
    \<open>handleDownload\<close> returns early unless both ids are set (C21).
  \<^item> \<open>Upload_Area\<close>: \<open>UploadArea.tsx\<close>: \<open>isDragging\<close> and \<open>selectedFile\<close>,
    every handler, the render conditions that decide which elements (file input,
    remove button) exist and so which events are enabled (\<open>area_step\<close>), the
    status line and message, and the file's size line with
    \<open>Number.prototype.toFixed(2)\<close> (\<open>js_toFixed2\<close>, from ECMA-262). A selected
    file can never be removed (C22); a drop uploads any file whatever its type or
    size (C23); the size line reads back within half a hundredth of the size in MiB
    (C31).
  \<^item> \<open>Header\<close>: \<open>Header.tsx\<close>: the mobile menu flag and its toggle (C24), and what
    the header displays (\<open>header_view\<close>: its links, the menu icon, the mobile menu).
  \<^item> This theory: the page with all its components as one state machine
    (\<open>app_state\<close>, \<open>app_step\<close>, \<open>app_reachable\<close>): the area's file goes to
    \<open>handleFileUpload\<close>, the table's row to \<open>viewAnalysis\<close>, the panel is mounted
    and re-rendered with the selected score (\<open>panel_sync\<close>) and ticks. The panel
    always animates towards the selected score (\<open>app_reachable_panel_tracks\<close>).
    A View click selects exactly the analysis of the clicked rendered row (C25);
    the panel and the table
    agree on the bucket once the animation stops (C26), and may disagree before
    (C30); the error message of the
    area is never its fallback (C27); the default table order is the store's
    order when the clock does not run backwards (C28); the specification's
    first scenario holds through all the components (C29), including the page's
    report link and feedback panel. When the server's scores are whole numbers in [0, 100], every
    stored analysis has the values its type intends (\<open>wf_analysis\<close>, C34), and
    in every reachable state the table's date cells are the locale's rendering of a
    valid date, never \<open>Invalid Date\<close> (C35).

  \<^bold>\<open>Bounds and fuel.\<close> The only loop of the code that may not end is the score
  animation's interval, which the model runs one tick at a time
  (\<open>risk_tick\<close>, iterated with \<open>^^\<close>): C13 and C14 say exactly when and after
  how many ticks it ends, and C13 that for a fractional score it never does.
  The scenario of C29 runs 46 ticks, the distance from 0 to 45 plus one.
  Time values stop at \<open>8.64e15\<close> ms, the ECMAScript limit; every such time has a
  year below 275761, so six year digits are enough. Witnesses use the clock
  readings 1000 and 2000 ms.

  \<^bold>\<open>Not modelled.\<close> The markup, the styling and the icons' drawing (pure
  presentation: the render functions model what is shown, not how); the server
  behind the endpoint (its answers are inputs of the model); a JSON body that is a
  number, a string or an array, or an object whose fields have other types (the
  model reads an object body through \<open>upload_response\<close> and covers \<open>null\<close>);
  client clocks before 1970 (time values are natural numbers); \<open>console.error\<close>;
  \<open>window.open\<close> beyond the URL it is given. \<open>localeCompare\<close> is a parameter
  of the table's comparator and \<open>toLocaleDateString\<close> a parameter of
  \<open>formatDate\<close> (\<open>date_locale\<close>), as both depend on the host's locale data;
  \<open>toFixed(2)\<close> is modelled for the non-negative numbers below \<open>10^21\<close> the
  size line can produce.
\<close>

subsection \<open>The page with its components\<close>

text \<open>
  The state of the whole page (\<open>HomePage.tsx\<close> with the components it renders):
  the page's state and suspended uploads, the table's sort state, the upload
  area's state, the risk panel (mounted only while an analysis is selected,
  lines 108--117) and the header.
\<close>

record app_state =
  app_page :: page_sys
  app_table :: table_state
  app_area :: area_state
  app_panel :: "risk_anim option"
  app_header :: header_state

definition app_init :: app_state where
  "app_init = \<lparr>app_page = page_sys_init, app_table = table_init, app_area = area_init,
               app_panel = None, app_header = header_init\<rparr>"

text \<open>
  The risk panel after a render of the page (lines 108--110): unmounted without a
  selection, mounted with the selected score, or re-rendered with it.
\<close>

definition panel_sync :: "analysis_result option \<Rightarrow> risk_anim option \<Rightarrow> risk_anim option" where
  "panel_sync cur panel =
     (case cur of
        None \<Rightarrow> None
      | Some a \<Rightarrow> (case panel of
                    None \<Rightarrow> Some (risk_mount (riskScore a))
                  | Some r \<Rightarrow> Some (risk_rerender (riskScore a) r)))"

definition app_after_page :: "app_state \<Rightarrow> page_sys \<Rightarrow> app_state" where
  "app_after_page s ps =
     s\<lparr>app_page := ps, app_panel := panel_sync (currentAnalysis (page ps)) (app_panel s)\<rparr>"

text \<open>
  The PDF report link of the page (lines 72--84): shown when the status is
  complete and the selected analysis's \<open>pdfUrl\<close> is truthy.
\<close>

definition report_link :: "page_state \<Rightarrow> string option" where
  "report_link p =
     (if fileStatus p = Complete
      then (case currentAnalysis p of
              Some a \<Rightarrow> (case pdfUrl a of Some u \<Rightarrow> if u = [] then None else Some u | None \<Rightarrow> None)
            | None \<Rightarrow> None)
      else None)"

text \<open>The feedback panel (lines 95--103): the selected analysis's \<open>gptFeedback\<close>, when truthy.\<close>

definition feedback_panel :: "page_state \<Rightarrow> string option" where
  "feedback_panel p =
     (case currentAnalysis p of
        Some a \<Rightarrow> (case gptFeedback a of Some g \<Rightarrow> if g = [] then None else Some g | None \<Rightarrow> None)
      | None \<Rightarrow> None)"

text \<open>
  The events of the page: the user's actions on the upload area, the table and
  the header, the network's settlements of suspended uploads, and a period of the
  risk panel's interval (only while it is set).
\<close>

datatype app_event =
    Area_Event area_event
  | Fetch_Settles nat fetch_outcome
  | Json_Settles nat json_outcome time_value
  | Table_Event table_event
  | Panel_Tick
  | Header_Click

text \<open>
  One event. The upload area gets \<open>fileStatus\<close> as its \<open>status\<close> and hands its
  file to \<open>handleFileUpload\<close> (lines 66--70); the table gets \<open>analyses\<close> and
  calls \<open>viewAnalysis\<close> (line 124).
\<close>

fun app_step :: "collation \<Rightarrow> app_state \<Rightarrow> app_event \<Rightarrow> app_state option" where
  "app_step coll s (Area_Event e) =
     (case area_step (fileStatus (page (app_page s))) (app_area s) e of
        None \<Rightarrow> None
      | Some (area', None) \<Rightarrow> Some (s\<lparr>app_area := area'\<rparr>)
      | Some (area', Some f) \<Rightarrow>
          map_option (app_after_page (s\<lparr>app_area := area'\<rparr>)) (page_step (app_page s) (Call_Upload f)))"
| "app_step coll s (Fetch_Settles k r) =
     map_option (app_after_page s) (page_step (app_page s) (Settle_Fetch k r))"
| "app_step coll s (Json_Settles k r now) =
     map_option (app_after_page s) (page_step (app_page s) (Settle_Json k r now))"
| "app_step coll s (Table_Event e) =
     (case table_step coll (analyses (page (app_page s))) (app_table s) e of
        None \<Rightarrow> None
      | Some (t', None) \<Rightarrow> Some (s\<lparr>app_table := t'\<rparr>)
      | Some (t', Some a) \<Rightarrow>
          map_option (app_after_page (s\<lparr>app_table := t'\<rparr>)) (page_step (app_page s) (View a)))"
| "app_step coll s Panel_Tick =
     (case app_panel s of
        None \<Rightarrow> None
      | Some r \<Rightarrow> if interval_running r then Some (s\<lparr>app_panel := Some (risk_tick r)\<rparr>) else None)"
| "app_step coll s Header_Click = Some (s\<lparr>app_header := header_toggle (app_header s)\<rparr>)"

fun app_run :: "collation \<Rightarrow> app_state \<Rightarrow> app_event list \<Rightarrow> app_state option" where
  "app_run coll s [] = Some s"
| "app_run coll s (e # es) = (case app_step coll s e of None \<Rightarrow> None | Some s' \<Rightarrow> app_run coll s' es)"

inductive app_reachable :: "collation \<Rightarrow> app_state \<Rightarrow> bool" for coll where
  init: "app_reachable coll app_init"
| step: "app_reachable coll s \<Longrightarrow> app_step coll s e = Some s' \<Longrightarrow> app_reachable coll s'"

text \<open>The clock readings at which the bodies of a sequence of page events arrive.\<close>

fun json_times :: "page_event list \<Rightarrow> time_value list" where
  "json_times [] = []"
| "json_times (Settle_Json k r now # es) = now # json_times es"
| "json_times (e # es) = json_times es"

text \<open>Every stored analysis has a parseable date no later than \<open>bound\<close>.\<close>

definition dates_upto :: "time_value \<Rightarrow> analysis_result list \<Rightarrow> bool" where
  "dates_upto bound xs \<longleftrightarrow> (\<forall>a\<in>set xs. \<exists>t\<le>bound. js_date_parse (uploadDate a) = Some (int t))"

text \<open>The risk panel follows the selection.\<close>

definition panel_tracks :: "app_state \<Rightarrow> bool" where
  "panel_tracks s =
     (case currentAnalysis (page (app_page s)) of
        None \<Rightarrow> app_panel s = None
      | Some a \<Rightarrow> (\<exists>r. app_panel s = Some r \<and> effect_score r = riskScore a \<and> risk_reachable r))"

text \<open>
  Runs of the specification's scenarios (section 8): the sample upload, answered
  with an OK status and the sample body, and the same upload answered with HTTP
  500; the body of a second upload.
\<close>

definition scenario_upload :: "app_event list" where
  "scenario_upload =
     [Area_Event (Drop [sample_file]), Fetch_Settles 0 (Fetch_Response 200),
      Json_Settles 0 (Json_Parsed sample_response) 1000]"

definition scenario_http_500 :: "app_event list" where
  "scenario_http_500 = [Area_Event (Drop [sample_file]), Fetch_Settles 0 (Fetch_Response 500)]"

definition second_response :: upload_response where
  "second_response = sample_response\<lparr>resp_fileId := ''f2'', resp_filename := ''crane.pdf''\<rparr>"

text \<open>The page events of two uploads answered in order, at times 1000 and 2000.\<close>

definition two_upload_events :: "page_event list" where
  "two_upload_events =
     [Call_Upload sample_file, Settle_Fetch 0 (Fetch_Response 200),
      Settle_Json 0 (Json_Parsed sample_response) 1000,
      Call_Upload sample_file, Settle_Fetch 1 (Fetch_Response 200),
      Settle_Json 1 (Json_Parsed second_response) 2000]"

text \<open>
  The values \<open>types/index.ts\<close> intends for a stored analysis: a whole score
  from 0 to 100 (the specification's range, which the panel's animation needs to
  stop), no top risks (the page never fills them), the two identifiers equal, and a
  date that \<open>new Date(...)\<close> reads back. A response conforms when the score it
  carries, if any, is such a score.
\<close>

definition score_wf :: "js_number \<Rightarrow> bool" where
  "score_wf x \<longleftrightarrow> of_int \<lfloor>x\<rfloor> = x \<and> 0 \<le> x \<and> x \<le> 100"

definition wf_analysis :: "analysis_result \<Rightarrow> bool" where
  "wf_analysis a \<longleftrightarrow>
     score_wf (riskScore a) \<and> topRisks a = [] \<and> ar_id a = fileId a
     \<and> js_date_parse (uploadDate a) \<noteq> None"

definition wf_response :: "upload_response \<Rightarrow> bool" where
  "wf_response r = (case resp_riskScore r of None \<Rightarrow> True | Some v \<Rightarrow> score_wf v)"

fun event_wf :: "page_event \<Rightarrow> bool" where
  "event_wf (Settle_Json k (Json_Parsed r) now) = wf_response r"
| "event_wf e = True"

subsection \<open>Lemmas on the composition\<close>

lemma panel_tracks_update:
  assumes "panel_tracks s" "app_panel t = app_panel s"
  shows "panel_tracks (app_after_page t ps)"
proof (cases "currentAnalysis (page ps)")
  case None
  then show ?thesis by (simp add: panel_tracks_def app_after_page_def panel_sync_def)
next
  case (Some a)
  have "risk_reachable r" if "app_panel s = Some r" for r
    using assms(1) that by (auto simp: panel_tracks_def split: option.splits)
  then show ?thesis using Some assms(2)
    by (auto simp: panel_tracks_def app_after_page_def panel_sync_def
        intro: risk_reachable.mount risk_reachable_rerender split: option.splits)
qed

lemma panel_tracks_same [simp]:
  "panel_tracks (s\<lparr>app_area := x\<rparr>) = panel_tracks s"
  "panel_tracks (s\<lparr>app_table := y\<rparr>) = panel_tracks s"
  "panel_tracks (s\<lparr>app_header := z\<rparr>) = panel_tracks s"
  by (simp_all add: panel_tracks_def split: option.split)

lemma app_step_page:
  assumes "app_step coll s e = Some s'"
  shows "app_page s' = app_page s \<or> (\<exists>e'. page_step (app_page s) e' = Some (app_page s'))"
  using assms
  by (cases e) (auto simp: app_after_page_def simp del: page_step.simps
      split: option.splits prod.splits if_splits)

lemma app_step_panel_tracks:
  assumes "app_step coll s e = Some s'" "panel_tracks s"
  shows "panel_tracks s'"
proof (cases e)
  case Panel_Tick
  then obtain r where "app_panel s = Some r" "s' = s\<lparr>app_panel := Some (risk_tick r)\<rparr>"
    using assms(1) by (auto split: option.splits if_splits)
  then show ?thesis using assms(2)
    by (auto simp: panel_tracks_def intro: risk_reachable_tick split: option.splits)
qed (use assms in \<open>auto intro!: panel_tracks_update [OF assms(2)] simp del: page_step.simps
      split: option.splits prod.splits\<close>)

lemma app_reachable_panel_tracks: "app_reachable coll s \<Longrightarrow> panel_tracks s"
proof (induction rule: app_reachable.induct)
  case init
  then show ?case by (simp add: app_init_def panel_tracks_def page_sys_init_def page_init_def)
next
  case (step s e s')
  then show ?case using app_step_panel_tracks by blast
qed

lemma app_reachable_page: "app_reachable coll s \<Longrightarrow> page_reachable (app_page s)"
proof (induction rule: app_reachable.induct)
  case init
  then show ?case by (simp add: app_init_def page_reachable.init)
next
  case (step s e s')
  then show ?case using app_step_page [OF step.hyps(2)] by (auto intro: page_reachable.step)
qed

lemma app_run_reachable:
  "app_run coll s es = Some s' \<Longrightarrow> app_reachable coll s \<Longrightarrow> app_reachable coll s'"
proof (induction es arbitrary: s)
  case Nil
  then show ?case by simp
next
  case (Cons e es)
  then obtain s1 where "app_step coll s e = Some s1" "app_run coll s1 es = Some s'"
    by (auto split: option.splits)
  with Cons show ?case by (blast intro: app_reachable.step)
qed

lemma page_step_error_message:
  assumes "page_step ps e = Some ps'"
    and "fileStatus (page ps) = Error \<longrightarrow> page_error (page ps) \<noteq> []"
  shows "fileStatus (page ps') = Error \<longrightarrow> page_error (page ps') \<noteq> []"
  using assms(1)
proof (cases rule: page_step_cases)
  case (fetch r)
  then show ?thesis using assms(2)
    by (auto simp: on_fetch_def upload_catch_def split: fetch_outcome.splits)
qed (use assms(2) in \<open>simp_all add: page_update_defs\<close>)

lemma page_reachable_error_message:
  "page_reachable ps \<Longrightarrow> fileStatus (page ps) = Error \<Longrightarrow> page_error (page ps) \<noteq> []"
proof (induction rule: page_reachable.induct)
  case init
  then show ?case by (simp add: page_sys_init_def page_init_def)
next
  case (step ps e ps')
  then show ?case using page_step_error_message by blast
qed

lemmas app_eval = page_eval app_init_def area_init_def table_init_def header_init_def
  app_after_page_def panel_sync_def handleDrop_def

lemma app_run_append:
  "app_run coll s (xs @ ys) = (case app_run coll s xs of None \<Rightarrow> None | Some s' \<Rightarrow> app_run coll s' ys)"
  by (induction xs arbitrary: s) (auto split: option.splits)

lemma app_run_ticks:
  "app_panel s = Some r \<Longrightarrow> \<forall>k<n. interval_running ((risk_tick ^^ k) r)
   \<Longrightarrow> app_run coll s (replicate n Panel_Tick) = Some (s\<lparr>app_panel := Some ((risk_tick ^^ n) r)\<rparr>)"
proof (induction n arbitrary: s r)
  case 0
  then show ?case by simp
next
  case (Suc n)
  have "interval_running r" using Suc.prems(2) by (metis funpow_0 zero_less_Suc)
  moreover have "\<forall>k<n. interval_running ((risk_tick ^^ k) (risk_tick r))"
    using Suc.prems(2) by (metis Suc_mono funpow_Suc_right o_apply)
  ultimately show ?case using Suc.IH [of "s\<lparr>app_panel := Some (risk_tick r)\<rparr>" "risk_tick r"] Suc.prems(1)
    by (simp add: funpow_Suc_right del: funpow.simps)
qed

lemma sample_panel_ticks:
  "\<forall>k<46. interval_running ((risk_tick ^^ k) (risk_mount 45))"
  "(risk_tick ^^ 46) (risk_mount 45) = \<lparr>animatedScore = 45, effect_score = 45, interval_running = False\<rparr>"
proof -
  show "\<forall>k<46. interval_running ((risk_tick ^^ k) (risk_mount 45))"
  proof (intro allI impI)
    fix k :: nat assume "k < 46"
    then have "animatedScore (risk_mount 45) + of_nat k \<le> effect_score (risk_mount 45)" by simp
    then show "interval_running ((risk_tick ^^ k) (risk_mount 45))"
      by (simp add: risk_ticks_partial)
  qed
  show "(risk_tick ^^ 46) (risk_mount 45) = \<lparr>animatedScore = 45, effect_score = 45, interval_running = False\<rparr>"
    using risk_tick_converges [of "risk_mount 45"] by (simp add: risk_mount_def)
qed

lemma scenario_upload_run:
  "app_run coll app_init scenario_upload = Some (the (app_run coll app_init scenario_upload))"
  "app_panel (the (app_run coll app_init scenario_upload)) = Some (risk_mount 45)"
  "currentAnalysis (page (app_page (the (app_run coll app_init scenario_upload))))
   = Some (new_analysis sample_response (iso_format 1000))"
  by (simp_all add: app_eval scenario_upload_def sample_response_def new_analysis_def)

lemma dates_upto_mono: "dates_upto b xs \<Longrightarrow> b \<le> b' \<Longrightarrow> dates_upto b' xs"
  by (fastforce simp: dates_upto_def)

lemma sort_le_default:
  "js_date_parse (uploadDate a) = Some (int ta) \<Longrightarrow> js_date_parse (uploadDate b) = Some (int tb)
   \<Longrightarrow> sort_le (sort_compare coll table_init a b) \<longleftrightarrow> tb \<le> ta"
  by (simp add: sort_compare_def table_init_def time_diff_def sort_le_def)

lemma page_step_store_same:
  "page_step ps e = Some ps' \<Longrightarrow> (\<And>k r now. e \<noteq> Settle_Json k r now)
   \<Longrightarrow> analyses (page ps') = analyses (page ps)"
  by (cases e) (auto simp: page_update_defs on_fetch_def split: if_splits prod.splits fetch_outcome.splits)

lemma page_step_json_dates:
  assumes step: "page_step ps (Settle_Json k r now) = Some ps'"
    and dates: "dates_upto bound (analyses (page ps))" and le: "bound \<le> now"
    and sorted: "successively (\<lambda>u v. sort_le (sort_compare coll table_init u v)) (analyses (page ps))"
  shows "dates_upto now (analyses (page ps'))
         \<and> successively (\<lambda>u v. sort_le (sort_compare coll table_init u v)) (analyses (page ps'))"
proof -
  have page': "page ps' = on_json r now (page ps)" using step by (auto split: if_splits)
  show ?thesis
  proof (cases "\<exists>data date. r = Json_Parsed data \<and> js_toISOString now = Inr date")
    case False
    then have "analyses (page ps') = analyses (page ps)"
      using page' by (auto simp: on_json_def upload_catch_def split: json_outcome.splits sum.splits)
    then show ?thesis using dates_upto_mono [OF dates le] sorted by simp
  next
    case True
    then obtain data date where r: "r = Json_Parsed data" and iso: "js_toISOString now = Inr date" by blast
    let ?a = "new_analysis data date"
    have store: "analyses (page ps') = ?a # analyses (page ps)"
      using page' r iso by (simp add: on_json_def upload_commit_def)
    have a: "js_date_parse (uploadDate ?a) = Some (int now)"
      using js_date_parse_toISOString [OF iso] by (simp add: new_analysis_def)
    have head: "sort_le (sort_compare coll table_init ?a b)" if b: "b \<in> set (analyses (page ps))" for b
    proof -
      obtain tb where "tb \<le> bound" "js_date_parse (uploadDate b) = Some (int tb)"
        using dates b by (auto simp: dates_upto_def)
      then show ?thesis using a le by (simp add: sort_le_default)
    qed
    have "successively (\<lambda>u v. sort_le (sort_compare coll table_init u v)) (?a # analyses (page ps))"
      using sorted head by (cases "analyses (page ps)") auto
    moreover have "dates_upto now (?a # analyses (page ps))"
      using a dates_upto_mono [OF dates le] by (auto simp: dates_upto_def)
    ultimately show ?thesis using store by simp
  qed
qed

lemma page_run_dates_sorted:
  "page_run ps es = Some ps' \<Longrightarrow> dates_upto bound (analyses (page ps))
   \<Longrightarrow> successively (\<lambda>u v. sort_le (sort_compare coll table_init u v)) (analyses (page ps))
   \<Longrightarrow> sorted (bound # json_times es)
   \<Longrightarrow> successively (\<lambda>u v. sort_le (sort_compare coll table_init u v)) (analyses (page ps'))"
proof (induction es arbitrary: ps bound)
  case Nil
  then show ?case by simp
next
  case (Cons e es)
  then obtain ps1 where s1: "page_step ps e = Some ps1" and r: "page_run ps1 es = Some ps'"
    by (blast dest: page_run_Cons_Some)
  show ?case
  proof (cases "\<exists>k r now. e = Settle_Json k r now")
    case True
    then obtain k r now where e: "e = Settle_Json k r now" by blast
    then have "bound \<le> now" "sorted (now # json_times es)" using Cons.prems(4) by simp_all
    then show ?thesis
      using page_step_json_dates [OF s1 [unfolded e] Cons.prems(2) _ Cons.prems(3)] Cons.IH [OF r] by blast
  next
    case False
    then have "json_times (e # es) = json_times es" by (cases e) auto
    then have "analyses (page ps1) = analyses (page ps)" "sorted (bound # json_times es)"
      using page_step_store_same [OF s1] False Cons.prems(4) by auto
    then show ?thesis using Cons.IH [OF r] Cons.prems(2,3) by simp
  qed
qed

lemma scenario_upload_state:
  "analyses (page (app_page (the (app_run coll app_init scenario_upload))))
     = [new_analysis sample_response (iso_format 1000)]"
  "fileStatus (page (app_page (the (app_run coll app_init scenario_upload)))) = Complete"
  "page_error (page (app_page (the (app_run coll app_init scenario_upload)))) = []"
  "selectedFile (app_area (the (app_run coll app_init scenario_upload))) = Some sample_file"
  by (simp_all add: app_eval scenario_upload_def sample_response_def new_analysis_def)

lemma sample_highlight:
  "highlightRisks ''unsafe ladder'' = highlight_open @ ''unsafe'' @ highlight_close @ '' ladder''"
  by code_simp

lemma sample_file_size_text: "file_size_text sample_file = ''2.00 MB''"
proof -
  have x: "(of_nat (file_size sample_file) / 1024 / 1024 :: js_number) = 2" by (simp add: sample_file_def)
  have f: "\<lfloor>(401 / 2 :: js_number)\<rfloor> = 200" by (simp add: floor_divide_of_int_eq [of 401 2, simplified])
  have n: "nat \<lfloor>(2::js_number) * 100 + 1 / 2\<rfloor> = 200" using f by simp
  have w: "decimal_width 200 = 3" by (simp add: decimal_width.simps)
  show ?thesis unfolding file_size_text_def js_toFixed2_def x n w Let_def by code_simp
qed

text \<open>A property of every new analysis holds of the whole store after any step.\<close>

lemma page_step_store_all:
  assumes step: "page_step ps e = Some ps'"
    and new: "\<And>k data now date. e = Settle_Json k (Json_Parsed data) now \<Longrightarrow> js_toISOString now = Inr date
              \<Longrightarrow> P (new_analysis data date)"
    and all: "list_all P (analyses (page ps))"
  shows "list_all P (analyses (page ps'))"
proof (cases "\<exists>k r now. e = Settle_Json k r now")
  case False
  then have "analyses (page ps') = analyses (page ps)" using page_step_store_same [OF step] by blast
  then show ?thesis using all by simp
next
  case True
  then obtain k r now where e: "e = Settle_Json k r now" by blast
  then have page': "page ps' = on_json r now (page ps)" using step by (auto split: if_splits)
  show ?thesis
  proof (cases "\<exists>data date. r = Json_Parsed data \<and> js_toISOString now = Inr date")
    case False
    then have "analyses (page ps') = analyses (page ps)"
      using page' by (auto simp: on_json_def upload_catch_def split: json_outcome.splits sum.splits)
    then show ?thesis using all by simp
  next
    case True
    then obtain data date where r: "r = Json_Parsed data" and iso: "js_toISOString now = Inr date" by blast
    have "analyses (page ps') = new_analysis data date # analyses (page ps)"
      using page' r iso by (simp add: on_json_def upload_commit_def)
    then show ?thesis using new [OF _ iso] all by (simp add: e r)
  qed
qed

lemma page_reachable_dates_parse:
  "page_reachable ps \<Longrightarrow> list_all (\<lambda>a. js_date_parse (uploadDate a) \<noteq> None) (analyses (page ps))"
proof (induction rule: page_reachable.induct)
  case init
  then show ?case by (simp add: page_sys_init_def page_init_def)
next
  case (step ps e ps')
  then show ?case
    by (elim page_step_store_all) (auto simp: new_analysis_def dest: js_date_parse_toISOString)
qed

lemma page_run_store_all:
  "page_run ps es = Some ps'
   \<Longrightarrow> (\<And>k data now date. Settle_Json k (Json_Parsed data) now \<in> set es \<Longrightarrow> js_toISOString now = Inr date
         \<Longrightarrow> P (new_analysis data date))
   \<Longrightarrow> list_all P (analyses (page ps)) \<Longrightarrow> list_all P (analyses (page ps'))"
proof (induction es arbitrary: ps)
  case (Cons e es)
  then obtain ps1 where s1: "page_step ps e = Some ps1" and r: "page_run ps1 es = Some ps'"
    using page_run_Cons_Some by blast
  have "list_all P (analyses (page ps1))"
    using page_step_store_all [OF s1 _ Cons.prems(3)] Cons.prems(2) by auto
  with Cons.IH [OF r] Cons.prems(2) show ?case by auto
qed simp

subsection \<open>Properties of the composition\<close>

text \<open>
  C25. The table and the page agree on the rows: a click on the View button of the
  row the table renders at position \<open>i\<close>, whatever the sort state, the collation
  and the locale, selects exactly the analysis that row shows, leaves the store and
  the sort state as they are, and re-renders the risk panel with its score. The
  page's \<open>View\<close> event takes a stored analysis; the table only ever hands it one,
  so no click on a rendered row is refused.
\<close>

theorem app_table_view_selects_row:
  assumes "i < length (fst (table_view coll loc (app_table s) (analyses (page (app_page s)))))"
  shows "\<exists>s' a. app_step coll s (Table_Event (Click_View i)) = Some s'
           \<and> fst (table_view coll loc (app_table s) (analyses (page (app_page s)))) ! i = table_row_view loc a
           \<and> currentAnalysis (page (app_page s')) = Some a
           \<and> analyses (page (app_page s')) = analyses (page (app_page s)) \<and> app_table s' = app_table s
           \<and> app_panel s' = panel_sync (Some a) (app_panel s)"
proof -
  let ?rows = "table_rows coll (app_table s) (analyses (page (app_page s)))"
  have i: "i < length ?rows" using assms by (simp add: table_view_def)
  then have mem: "?rows ! i \<in> set (analyses (page (app_page s)))"
    by (metis nth_mem set_js_sort table_rows_def)
  have "app_step coll s (Table_Event (Click_View i))
        = Some (app_after_page s (app_page s\<lparr>page := viewAnalysis (?rows ! i) (page (app_page s))\<rparr>))"
    using i mem by (simp add: Let_def)
  then show ?thesis using i
    by (intro exI [of _ "app_after_page s (app_page s\<lparr>page := viewAnalysis (?rows ! i) (page (app_page s))\<rparr>)"]
        exI [of _ "?rows ! i"])
       (simp add: table_view_def app_after_page_def viewAnalysis_def)
qed

theorem app_table_view_selects_row_witness:
  "0 < length (fst (table_view js_string_compare (\<lambda>t. ''d'') table_init [sample_row_a]))
   \<and> (\<exists>s' a. app_step js_string_compare
              (app_init\<lparr>app_page := page_sys_init\<lparr>page := page_init\<lparr>analyses := [sample_row_a]\<rparr>\<rparr>\<rparr>)
              (Table_Event (Click_View 0)) = Some s'
           \<and> fst (table_view js_string_compare (\<lambda>t. ''d'') table_init [sample_row_a]) ! 0 = table_row_view (\<lambda>t. ''d'') a
           \<and> currentAnalysis (page (app_page s')) = Some a
           \<and> analyses (page (app_page s')) = [sample_row_a] \<and> app_table s' = table_init
           \<and> app_panel s' = panel_sync (Some a) None)"
proof -
  let ?s = "app_init\<lparr>app_page := page_sys_init\<lparr>page := page_init\<lparr>analyses := [sample_row_a]\<rparr>\<rparr>\<rparr>"
  have l: "0 < length (fst (table_view js_string_compare (\<lambda>t. ''d'') (app_table ?s) (analyses (page (app_page ?s)))))"
    by (simp add: table_view_def table_rows_def js_sort_def)
  show ?thesis
    using app_table_view_selects_row [OF l] l by (simp add: app_init_def page_sys_init_def)
qed

text \<open>
  C26. The table and the risk panel agree on the bucket of the selected analysis
  once the panel's animation has stopped: the panel's badge is the class the
  table gives that analysis's score, and the panel shows that score. (While the
  animation runs, the panel shows the buckets of the values it passes through.)
\<close>

theorem app_panel_agrees_with_table:
  assumes "app_reachable coll s" "currentAnalysis (page (app_page s)) = Some a"
    and "app_panel s = Some r" "\<not> interval_running r"
  shows "animatedScore r = riskScore a \<and> risk_badge_class r = getScoreColorClass (riskScore a)"
proof -
  have "effect_score r = riskScore a" "risk_reachable r"
    using app_reachable_panel_tracks [OF assms(1)] assms(2,3) by (simp_all add: panel_tracks_def)
  then have "animatedScore r = riskScore a"
    using risk_reachable_invariant assms(4) by auto
  then show ?thesis by (simp add: risk_badge_class_def getScoreColorClass_def)
qed

text \<open>
  C27. Whenever the page's status is \<open>error\<close>, the upload area's message is the
  page's error, which is not empty: the fallback \<open>'An error occurred'\<close> of
  \<open>getUploadStatusMessage\<close> is never shown.
\<close>

theorem app_error_message_shown:
  assumes "app_reachable coll s" "fileStatus (page (app_page s)) = Error"
  shows "getUploadStatusMessage (fileStatus (page (app_page s))) (Some (page_error (page (app_page s))))
           = page_error (page (app_page s))
         \<and> page_error (page (app_page s)) \<noteq> []"
  using page_reachable_error_message [OF app_reachable_page [OF assms(1)] assms(2)] assms(2)
  by (simp add: getUploadStatusMessage_def)

theorem app_panel_agrees_with_table_witness:
  "app_reachable js_string_compare
     (the (app_run js_string_compare app_init (scenario_upload @ replicate 46 Panel_Tick)))
   \<and> animatedScore \<lparr>animatedScore = 45, effect_score = 45, interval_running = False\<rparr> = 45
   \<and> risk_badge_class \<lparr>animatedScore = 45, effect_score = 45, interval_running = False\<rparr>
       = ''bg-yellow-100 text-yellow-800''"
proof -
  obtain s0 where s0: "app_run js_string_compare app_init scenario_upload = Some s0"
    using scenario_upload_run(1) by blast
  have p0: "app_panel s0 = Some (risk_mount 45)"
    using scenario_upload_run(2) [of js_string_compare] s0 by simp
  let ?s = "the (app_run js_string_compare app_init (scenario_upload @ replicate 46 Panel_Tick))"
  have run: "app_run js_string_compare app_init (scenario_upload @ replicate 46 Panel_Tick)
             = Some (s0\<lparr>app_panel := Some \<lparr>animatedScore = 45, effect_score = 45, interval_running = False\<rparr>\<rparr>)"
    using s0 app_run_ticks [OF p0, of 46 js_string_compare] sample_panel_ticks
    by (simp add: app_run_append)
  have reach: "app_reachable js_string_compare ?s"
    using app_run_reachable [OF run app_reachable.init] run by simp
  have cur: "currentAnalysis (page (app_page ?s)) = Some (new_analysis sample_response (iso_format 1000))"
    using run s0 scenario_upload_run(3) [of js_string_compare] by simp
  have "animatedScore \<lparr>animatedScore = 45, effect_score = 45, interval_running = False\<rparr>
          = riskScore (new_analysis sample_response (iso_format 1000))
        \<and> risk_badge_class \<lparr>animatedScore = 45, effect_score = 45, interval_running = False\<rparr>
          = getScoreColorClass (riskScore (new_analysis sample_response (iso_format 1000)))"
    using app_panel_agrees_with_table [OF reach cur] run by simp
  then show ?thesis using reach
    by (simp add: new_analysis_def sample_response_def getScoreColorClass_def)
qed

theorem app_error_message_shown_witness:
  "app_reachable js_string_compare (the (app_run js_string_compare app_init scenario_http_500))
   \<and> fileStatus (page (app_page (the (app_run js_string_compare app_init scenario_http_500)))) = Error
   \<and> getUploadStatusMessage Error (Some ''Upload failed'') = ''Upload failed''"
proof -
  let ?s = "the (app_run js_string_compare app_init scenario_http_500)"
  have run: "app_run js_string_compare app_init scenario_http_500 = Some ?s"
    by (simp add: app_eval scenario_http_500_def)
  have reach: "app_reachable js_string_compare ?s"
    using app_run_reachable [OF run app_reachable.init] .
  have st: "fileStatus (page (app_page ?s)) = Error" "page_error (page (app_page ?s)) = ''Upload failed''"
    by (simp_all add: app_eval scenario_http_500_def)
  show ?thesis using app_error_message_shown [OF reach st(1)] reach st by simp
qed

text \<open>
  C28. The table's default order (newest date first) is the store's order
  whenever the client's clock does not run backwards between the arrivals of
  response bodies: the date sort then never reorders the analyses, which the
  page stores newest first.
\<close>

theorem default_order_is_store_order:
  assumes "page_run page_sys_init es = Some ps" and "sorted (json_times es)"
  shows "table_rows coll table_init (analyses (page ps)) = analyses (page ps)"
proof -
  have "successively (\<lambda>u v. sort_le (sort_compare coll table_init u v)) (analyses (page ps))"
    using page_run_dates_sorted [OF assms(1), of 0] assms(2)
    by (simp add: page_sys_init_def page_init_def dates_upto_def)
  then show ?thesis unfolding table_rows_def by (rule js_sort_fixpoint)
qed

theorem default_order_is_store_order_witness:
  "page_run page_sys_init two_upload_events = Some (the (page_run page_sys_init two_upload_events))
   \<and> sorted (json_times two_upload_events)
   \<and> table_rows js_string_compare table_init (analyses (page (the (page_run page_sys_init two_upload_events))))
       = analyses (page (the (page_run page_sys_init two_upload_events)))"
proof -
  have run: "page_run page_sys_init two_upload_events = Some (the (page_run page_sys_init two_upload_events))"
    by (simp add: page_eval two_upload_events_def)
  have "sorted (json_times two_upload_events)" by (simp add: two_upload_events_def)
  then show ?thesis using default_order_is_store_order [OF run] run by blast
qed

text \<open>
  C29. The specification's first scenario, through all the components: a 2 MB PDF
  dropped on the upload area (shown as \<open>2.00 MB\<close>) and answered with the
  sample body gives a store of
  one analysis with score 45, in the medium bucket (yellow in the table), status
  complete with the area showing its success line, the text viewer showing
  \<open>unsafe\<close> wrapped, the report link to the returned PDF and no feedback
  panel, and the risk panel, once its animation has run, showing 45 as
  \<open>Medium Risk\<close>.
\<close>

theorem scenario_upload_success:
  "\<exists>s. app_run coll app_init (scenario_upload @ replicate 46 Panel_Tick) = Some s
     \<and> analyses (page (app_page s)) = [new_analysis sample_response (iso_format 1000)]
     \<and> fileStatus (page (app_page s)) = Complete
     \<and> severity_of_score (riskScore (new_analysis sample_response (iso_format 1000))) = Sev_medium
     \<and> getScoreColorClass (riskScore (new_analysis sample_response (iso_format 1000)))
         = ''bg-yellow-100 text-yellow-800''
     \<and> viewer_body (viewer_props_of (new_analysis sample_response (iso_format 1000)))
         = Some (highlight_open @ ''unsafe'' @ highlight_close @ '' ladder'')
     \<and> status_line (app_area s) (fileStatus (page (app_page s))) (Some (page_error (page (app_page s))))
         = Some (Status_Icon (Some Icon_CheckCircle), ''Analysis complete!'')
     \<and> map_option animatedScore (app_panel s) = Some 45
     \<and> map_option getRiskLevel (app_panel s) = Some ''Medium Risk''
     \<and> map_option interval_running (app_panel s) = Some False
     \<and> report_link (page (app_page s)) = Some ''http://x/r.pdf''
     \<and> feedback_panel (page (app_page s)) = None
     \<and> map_option file_size_text (selectedFile (app_area s)) = Some ''2.00 MB''"
proof -
  obtain s0 where s0: "app_run coll app_init scenario_upload = Some s0"
    using scenario_upload_run(1) by blast
  have p0: "app_panel s0 = Some (risk_mount 45)" using scenario_upload_run(2) [of coll] s0 by simp
  have run: "app_run coll app_init (scenario_upload @ replicate 46 Panel_Tick)
             = Some (s0\<lparr>app_panel := Some \<lparr>animatedScore = 45, effect_score = 45, interval_running = False\<rparr>\<rparr>)"
    using s0 app_run_ticks [OF p0, of 46 coll] sample_panel_ticks by (simp add: app_run_append)
  show ?thesis
    using run s0 scenario_upload_state [of coll] scenario_upload_run(3) [of coll] sample_highlight
      sample_file_size_text
    by (simp add: new_analysis_def sample_response_def severity_of_score_def getScoreColorClass_def
        viewer_body_def viewer_props_of_def status_line_def file_panel_shown_def
        getStatusIcon_def getUploadStatusMessage_def getRiskLevel_def report_link_def feedback_panel_def)
qed

text \<open>
  C30. Before the animation stops the panel and the table can disagree: right
  after the sample upload (score 45, medium) the mounted panel shows 0 with the
  low bucket's badge while the table shows the score in the medium colour.
\<close>

theorem app_panel_table_transient_mismatch:
  "\<exists>s a r. app_reachable coll s \<and> currentAnalysis (page (app_page s)) = Some a
     \<and> app_panel s = Some r \<and> interval_running r
     \<and> risk_badge_class r = ''bg-green-100 text-green-800''
     \<and> getScoreColorClass (riskScore a) = ''bg-yellow-100 text-yellow-800''"
proof -
  obtain s0 where s0: "app_run coll app_init scenario_upload = Some s0"
    using scenario_upload_run(1) by blast
  have reach: "app_reachable coll s0" using app_run_reachable [OF s0 app_reachable.init] .
  have "app_panel s0 = Some (risk_mount 45)"
    "currentAnalysis (page (app_page s0)) = Some (new_analysis sample_response (iso_format 1000))"
    using scenario_upload_run(2,3) [of coll] s0 by simp_all
  with reach show ?thesis
    by (intro exI [of _ s0] exI [of _ "new_analysis sample_response (iso_format 1000)"]
        exI [of _ "risk_mount 45"])
       (simp add: risk_badge_class_def getScoreColorClass_def new_analysis_def sample_response_def)
qed

text \<open>
  C34. The store keeps the values its type intends: when every response body the
  server sends carries no score or a whole score from 0 to 100, every analysis the
  page stores has such a score, an empty list of top risks, \<open>id = fileId\<close>, and a
  date that parses, whatever the order in which the calls settle.
\<close>

theorem page_run_store_wf:
  assumes run: "page_run page_sys_init es = Some ps" and ev: "list_all event_wf es"
  shows "list_all wf_analysis (analyses (page ps))"
proof -
  have "wf_analysis (new_analysis data date)"
    if "Settle_Json k (Json_Parsed data) now \<in> set es" and iso: "js_toISOString now = Inr date" for k data now date
  proof -
    have "wf_response data" using that(1) ev by (auto simp: list_all_iff)
    then have "score_wf (js_or_number (resp_riskScore data) 0)"
      by (auto simp: wf_response_def js_or_number_def score_wf_def split: option.splits)
    then show ?thesis
      using js_date_parse_toISOString [OF iso] by (simp add: wf_analysis_def new_analysis_def)
  qed
  then show ?thesis
    using page_run_store_all [OF run] by (simp add: page_sys_init_def page_init_def)
qed

theorem page_run_store_wf_witness:
  "page_run page_sys_init two_upload_events = Some (the (page_run page_sys_init two_upload_events))
   \<and> list_all event_wf two_upload_events
   \<and> list_all wf_analysis (analyses (page (the (page_run page_sys_init two_upload_events))))"
proof -
  have run: "page_run page_sys_init two_upload_events = Some (the (page_run page_sys_init two_upload_events))"
    by (simp add: page_eval two_upload_events_def)
  have ev: "list_all event_wf two_upload_events"
    by (simp add: two_upload_events_def second_response_def sample_response_def wf_response_def score_wf_def)
  show ?thesis using page_run_store_wf [OF run ev] run ev by blast
qed

text \<open>
  C35. The table never shows \<open>Invalid Date\<close> for a stored analysis: in every
  reachable state of the page, each rendered row is the row of a stored analysis
  whose date cell is the locale's rendering of a time value, the one its stamp parses
  to, never the fallback of \<open>toLocaleDateString\<close> on an invalid date.
\<close>

theorem app_table_dates_valid:
  assumes "app_reachable coll s"
    and "r \<in> set (fst (table_view coll loc (app_table s) (analyses (page (app_page s)))))"
  shows "\<exists>a t. a \<in> set (analyses (page (app_page s))) \<and> r = table_row_view loc a
           \<and> js_date_parse (uploadDate a) = Some t \<and> row_date r = loc t"
proof -
  obtain a where a: "a \<in> set (analyses (page (app_page s)))" and r: "r = table_row_view loc a"
    using assms(2) by (auto simp: table_view_def table_rows_def)
  obtain t where "js_date_parse (uploadDate a) = Some t"
    using page_reachable_dates_parse [OF app_reachable_page [OF assms(1)]] a by (auto simp: list_all_iff)
  with a r show ?thesis by (auto simp: table_row_view_def formatDate_def)
qed

theorem app_table_dates_valid_witness:
  "app_reachable js_string_compare (the (app_run js_string_compare app_init scenario_upload))
   \<and> table_row_view (\<lambda>t. ''1/1/1970'') (new_analysis sample_response (iso_format 1000))
       \<in> set (fst (table_view js_string_compare (\<lambda>t. ''1/1/1970'')
            (app_table (the (app_run js_string_compare app_init scenario_upload)))
            (analyses (page (app_page (the (app_run js_string_compare app_init scenario_upload)))))))
   \<and> row_date (table_row_view (\<lambda>t. ''1/1/1970'') (new_analysis sample_response (iso_format 1000)))
       = ''1/1/1970''"
proof -
  let ?s = "the (app_run js_string_compare app_init scenario_upload)"
  have run: "app_run js_string_compare app_init scenario_upload = Some ?s"
    using scenario_upload_run(1) by (auto simp del: app_run.simps)
  have reach: "app_reachable js_string_compare ?s" using app_run_reachable [OF run app_reachable.init] .
  have mem: "table_row_view (\<lambda>t. ''1/1/1970'') (new_analysis sample_response (iso_format 1000))
       \<in> set (fst (table_view js_string_compare (\<lambda>t. ''1/1/1970'') (app_table ?s) (analyses (page (app_page ?s)))))"
    using scenario_upload_state(1) [of js_string_compare]
    by (simp add: table_view_def table_rows_def js_sort_def)
  from app_table_dates_valid [OF reach mem] reach mem show ?thesis by auto
qed

end
